theory Spec2Isabelle
  imports Main "HOL-Library.Monad_Syntax" "HOL-Library.AList"
begin

section \<open>The synchronous child-process runner of \<^verbatim>\<open>src/spawn_sync.cc\<close>\<close>

text \<open>
  The file embeds the three classes of \<^verbatim>\<open>spawn_sync.cc\<close>:
  \<^verbatim>\<open>SyncProcessOutputBuffer\<close> (one capture chunk), \<^verbatim>\<open>SyncProcessStdioPipe\<close>
  (one stdio pipe) and \<^verbatim>\<open>SyncProcessRunner\<close>.

  Conventions of the embedding.
  \<^item> C \<^verbatim>\<open>int\<close>, \<^verbatim>\<open>int64_t\<close> and \<^verbatim>\<open>ssize_t\<close> values are HOL integers; where the source
    narrows one (\<^verbatim>\<open>static_cast<int>\<close>) the wrap-around is written out (\<open>to_int32\<close>).
    \<^verbatim>\<open>size_t\<close>, \<^verbatim>\<open>uint64_t\<close> and \<^verbatim>\<open>unsigned int\<close> values are naturals, with the
    reduction modulo \<open>2 ^ 64\<close> or \<open>2 ^ 32\<close> written at every addition.
  \<^item> A byte is a \<^typ>\<open>char\<close>, a byte buffer a \<^typ>\<open>string\<close>.
  \<^item> A pointer that may be \<^verbatim>\<open>NULL\<close> is an \<^typ>\<open>'a option\<close>, \<open>None\<close> being \<^verbatim>\<open>NULL\<close>.
  \<^item> A method that can trip an \<^verbatim>\<open>assert\<close> or call \<^verbatim>\<open>abort()\<close> returns an
    \<^typ>\<open>'a option\<close>; \<open>None\<close> is the abort of the process.
  \<^item> libuv is the environment. Every call the runner makes into libuv is appended
    to the field \<open>uv_calls\<close>, and the value libuv returns is taken from the head
    of the field \<open>uv_results\<close> (\<open>0\<close>, success, once the script is used up).
    The callbacks libuv makes while the loop runs are a list of \<open>uv_event\<close>s.
\<close>

subsection \<open>Constants of the platform\<close>

text \<open>
  The error codes are libuv's on Linux (\<^verbatim>\<open>UV_Exxx = -Exxx\<close>, \<^verbatim>\<open>UV_EOF = -4095\<close>) and
  \<^verbatim>\<open>SIGTERM\<close> is that of \<^verbatim>\<open>signal.h\<close>; the source only names them.
\<close>

definition UV_EINVAL :: int where "UV_EINVAL = - 22"
definition UV_ENOMEM :: int where "UV_ENOMEM = - 12"
definition UV_ESRCH :: int where "UV_ESRCH = - 3"
definition UV_ETIMEDOUT :: int where "UV_ETIMEDOUT = - 110"
definition UV_EOF :: int where "UV_EOF = - 4095"
definition SIGTERM :: int where "SIGTERM = 15"

definition kBufferSize :: nat where "kBufferSize = 65536"

definition to_int32 :: "int \<Rightarrow> int" where
  \<comment> \<open>\<^verbatim>\<open>static_cast<int>\<close> of a 64-bit signed value\<close>
  "to_int32 x = (x + 2 ^ 31) mod 2 ^ 32 - 2 ^ 31"

definition to_size_t :: "int \<Rightarrow> nat" where
  \<comment> \<open>conversion of a signed value to \<^verbatim>\<open>size_t\<close> (64 bits)\<close>
  "to_size_t x = nat (x mod 2 ^ 64)"

definition to_uint :: "int \<Rightarrow> nat" where
  \<comment> \<open>conversion to \<^verbatim>\<open>unsigned int\<close> (32 bits)\<close>
  "to_uint x = nat (x mod 2 ^ 32)"

definition assert :: "bool \<Rightarrow> unit option" where
  "assert b = (if b then Some () else None)"

subsection \<open>Pointers and libuv buffers\<close>

text \<open>
  A \<^verbatim>\<open>char*\<close> held in a \<^verbatim>\<open>uv_buf_t\<close> is \<^verbatim>\<open>NULL\<close>, the data of a host
  \<^verbatim>\<open>Buffer\<close> (given by its bytes), or an address inside the \<^verbatim>\<open>data_\<close> array of
  a capture chunk: the position of the chunk in its pipe's chain and the offset.
\<close>

datatype char_ptr = NULL | HostData string | ChunkData nat nat

record uv_buf_t =
  base :: char_ptr
  len :: nat

definition uv_buf_init :: "char_ptr \<Rightarrow> nat \<Rightarrow> uv_buf_t" where
  "uv_buf_init b n = \<lparr>base = b, len = n\<rparr>"

subsection \<open>\<^verbatim>\<open>SyncProcessOutputBuffer\<close>\<close>

text \<open>
  \<open>data\<close> is the array \<^verbatim>\<open>data_[kBufferSize]\<close>, \<open>used\<close> the counter \<^verbatim>\<open>used_\<close>.
  The \<^verbatim>\<open>next_\<close> link is the position in the chain: a pipe's chain
  \<^verbatim>\<open>first_output_buffer_ -> next_ -> ... -> last_output_buffer_\<close> is the list of
  its chunks in link order, \<^verbatim>\<open>last_output_buffer_\<close> its last element.
  C++ leaves a new chunk's array uninitialised; the model fills it with zero
  bytes, which are never read (\<open>Copy\<close> reads \<open>[0, used)\<close> only).
\<close>

record SyncProcessOutputBuffer =
  data :: string
  used :: nat

definition new_SyncProcessOutputBuffer :: SyncProcessOutputBuffer where
  "new_SyncProcessOutputBuffer = \<lparr>data = replicate kBufferSize (CHR 0x00), used = 0\<rparr>"

definition available :: "SyncProcessOutputBuffer \<Rightarrow> nat" where
  \<comment> \<open>\<^verbatim>\<open>sizeof data_ - used()\<close> in \<^verbatim>\<open>unsigned int\<close>\<close>
  "available b = to_uint (int kBufferSize - int (used b))"

definition OutputBuffer_OnAlloc :: "nat \<Rightarrow> SyncProcessOutputBuffer \<Rightarrow> uv_buf_t" where
  \<comment> \<open>the first argument is the chunk's position in the chain, its address\<close>
  "OutputBuffer_OnAlloc pos b =
     (if used b = kBufferSize then uv_buf_init NULL 0
      else uv_buf_init (ChunkData pos (used b)) (available b))"

definition OutputBuffer_OnRead ::
  "nat \<Rightarrow> uv_buf_t \<Rightarrow> nat \<Rightarrow> SyncProcessOutputBuffer \<Rightarrow> SyncProcessOutputBuffer option" where
  "OutputBuffer_OnRead pos buf nread b = do {
     assert (base buf = ChunkData pos (used b));
     Some (b\<lparr>used := (used b + to_uint (int nread)) mod 2 ^ 32\<rparr>)
   }"

definition memcpy :: "string \<Rightarrow> nat \<Rightarrow> string \<Rightarrow> nat \<Rightarrow> string" where
  \<comment> \<open>\<open>memcpy dest off src n\<close>: \<open>dest\<close> with the first \<open>n\<close> bytes of \<open>src\<close> written at \<open>off\<close>\<close>
  "memcpy dest off src n = take off dest @ take n src @ drop (off + n) dest"

definition Copy :: "SyncProcessOutputBuffer \<Rightarrow> string \<Rightarrow> nat \<Rightarrow> string \<times> nat" where
  \<comment> \<open>\<open>Copy b dest off\<close> is \<^verbatim>\<open>b->Copy(dest + off)\<close>: the memory of \<open>dest\<close> afterwards, and the count returned\<close>
  "Copy b dest off = (memcpy dest off (data b) (used b), used b)"

subsection \<open>Values of the host\<close>

text \<open>
  The values the host passes in and receives. A \<open>JsNumber\<close> carries an integral
  number; non-integral numbers, NaN and the infinities are outside the model.
  A \<open>JsString\<close> carries the UTF-8 bytes of the string, a \<open>JsBuffer\<close> the bytes of a
  \<^verbatim>\<open>Buffer\<close>, a \<open>JsObject\<close> its own properties in order.
\<close>

datatype js_value =
    JsUndefined
  | JsNull
  | JsBoolean bool
  | JsNumber int
  | JsString string
  | JsArray "js_value list"
  | JsBuffer string
  | JsObject "(string \<times> js_value) list"

subsection \<open>\<^verbatim>\<open>SyncProcessStdioPipe\<close>\<close>

datatype PipeLifecycle = kUninitialized | kInitialized | kStarted | kClosing | kClosed

fun pipe_rank :: "PipeLifecycle \<Rightarrow> nat" where
  "pipe_rank kUninitialized = 0"
| "pipe_rank kInitialized = 1"
| "pipe_rank kStarted = 2"
| "pipe_rank kClosing = 3"
| "pipe_rank kClosed = 4"

text \<open>
  The back-reference \<^verbatim>\<open>process_handler_\<close> is the runner state the methods are given;
  the members \<^verbatim>\<open>uv_pipe_\<close>, \<^verbatim>\<open>write_req_\<close> and \<^verbatim>\<open>shutdown_req_\<close> belong to libuv
  and show only in the calls made on them. \<open>output_buffers\<close> is the chain from
  \<^verbatim>\<open>first_output_buffer_\<close> to \<^verbatim>\<open>last_output_buffer_\<close>.
\<close>

record SyncProcessStdioPipe =
  readable :: bool
  writable :: bool
  input_buffer :: uv_buf_t
  output_buffers :: "SyncProcessOutputBuffer list"
  pipe_lifecycle :: PipeLifecycle

definition new_SyncProcessStdioPipe :: "bool \<Rightarrow> bool \<Rightarrow> uv_buf_t \<Rightarrow> SyncProcessStdioPipe option" where
  "new_SyncProcessStdioPipe r w input = do {
     assert (r \<or> w);
     Some \<lparr>readable = r, writable = w, input_buffer = input,
           output_buffers = [], pipe_lifecycle = kUninitialized\<rparr>
   }"

definition OutputLength :: "SyncProcessStdioPipe \<Rightarrow> nat" where
  "OutputLength p = foldl (\<lambda>size b. (size + used b) mod 2 ^ 64) 0 (output_buffers p)"

definition CopyOutput :: "SyncProcessStdioPipe \<Rightarrow> string \<Rightarrow> string" where
  "CopyOutput p dest =
     fst (foldl (\<lambda>(dest, offset) b.
                   let (dest', n) = Copy b dest offset in (dest', (offset + n) mod 2 ^ 64))
                (dest, 0) (output_buffers p))"

definition GetOutputAsBuffer :: "SyncProcessStdioPipe \<Rightarrow> js_value" where
  \<comment> \<open>\<^verbatim>\<open>Buffer::New(length)\<close> is a fresh buffer of \<open>length\<close> bytes\<close>
  "GetOutputAsBuffer p =
     (let length = OutputLength p;
          js_buffer = replicate length (CHR 0x00)
      in JsBuffer (CopyOutput p js_buffer))"

subsection \<open>The libuv environment\<close>

datatype uv_process_flag =
  UV_PROCESS_SETUID | UV_PROCESS_SETGID | UV_PROCESS_DETACHED
  | UV_PROCESS_WINDOWS_VERBATIM_ARGUMENTS

text \<open>
  One entry of the stdio plan: \<^verbatim>\<open>flags\<close> with the member of the \<^verbatim>\<open>data\<close> union that
  goes with it. A pipe's stream is named by the child fd it was created for.
\<close>

datatype uv_stdio_container_t =
    UV_IGNORE
  | UV_CREATE_PIPE bool bool nat
  | UV_INHERIT_FD int

record uv_process_options_t =
  exit_cb :: bool
  opt_file :: "string option"
  opt_args :: "string list option"
  opt_env :: "string list option"
  opt_cwd :: "string option"
  opt_flags :: "uv_process_flag set"
  opt_uid :: nat
  opt_gid :: nat
  opt_stdio :: "uv_stdio_container_t option list option"
  opt_stdio_count :: nat

definition new_uv_process_options :: uv_process_options_t where
  \<comment> \<open>the value-initialised \<^verbatim>\<open>uv_process_options_()\<close>\<close>
  "new_uv_process_options =
     \<lparr>exit_cb = False, opt_file = None, opt_args = None, opt_env = None, opt_cwd = None,
      opt_flags = {}, opt_uid = 0, opt_gid = 0, opt_stdio = None, opt_stdio_count = 0\<rparr>"

text \<open>
  The calls into libuv. A pipe handle is named by its index in \<^verbatim>\<open>pipes_\<close>.
  \<open>uv_read_into i bs\<close> is not a call of the runner: it records that libuv stored the
  bytes \<open>bs\<close> in the buffer the allocation callback of pipe \<open>i\<close> returned.
\<close>

datatype uv_request =
    uv_loop_new
  | uv_pipe_init nat
  | uv_timer_init
  | uv_unref_timer
  | uv_timer_start nat
  | uv_spawn uv_process_options_t
  | uv_write nat uv_buf_t
  | uv_shutdown nat
  | uv_read_start nat
  | uv_read_stop nat
  | uv_read_into nat string
  | uv_run
  | uv_process_kill int
  | uv_timer_stop
  | uv_close_pipe nat
  | uv_ref_timer
  | uv_close_timer
  | uv_loop_delete

subsection \<open>\<^verbatim>\<open>SyncProcessRunner\<close>\<close>

datatype RunnerLifecycle = rUninitialized | rInitialized | rHandlesClosed

fun runner_rank :: "RunnerLifecycle \<Rightarrow> nat" where
  "runner_rank rUninitialized = 0"
| "runner_rank rInitialized = 1"
| "runner_rank rHandlesClosed = 2"

text \<open>
  The fields of the class, under their names without the trailing underscore, and the
  two fields of the environment. \<open>uv_loop\<close> says whether \<^verbatim>\<open>uv_loop_\<close> is set; the
  decoded buffers are their contents: a C string without its terminator, a string
  vector as the list of its strings.
\<close>

record SyncProcessRunner =
  max_buffer :: nat
  timeout :: nat
  kill_signal :: int
  uv_loop :: bool
  stdio_count :: nat
  uv_stdio_containers :: "uv_stdio_container_t option list option"
  pipes :: "SyncProcessStdioPipe option list option"
  uv_process_options :: uv_process_options_t
  file_buffer :: "string option"
  args_buffer :: "string list option"
  env_buffer :: "string list option"
  cwd_buffer :: "string option"
  killed :: bool
  buffered_output_size :: nat
  exit_status :: int
  term_signal :: int
  kill_timer_initialized :: bool
  error :: int
  pipe_error :: int
  lifecycle :: RunnerLifecycle
  uv_results :: "int list"
  uv_calls :: "uv_request list"

definition new_SyncProcessRunner :: "int list \<Rightarrow> SyncProcessRunner" where
  \<comment> \<open>the constructor, in an environment whose libuv will return the given values\<close>
  "new_SyncProcessRunner script =
     \<lparr>max_buffer = 0, timeout = 0, kill_signal = SIGTERM, uv_loop = False,
      stdio_count = 0, uv_stdio_containers = None, pipes = None,
      uv_process_options = new_uv_process_options,
      file_buffer = None, args_buffer = None, env_buffer = None, cwd_buffer = None,
      killed = False, buffered_output_size = 0, exit_status = - 1, term_signal = - 1,
      kill_timer_initialized = False, error = 0, pipe_error = 0,
      lifecycle = rUninitialized, uv_results = script, uv_calls = []\<rparr>"

definition call_uv :: "uv_request \<Rightarrow> SyncProcessRunner \<Rightarrow> int \<times> SyncProcessRunner" where
  "call_uv c s =
     (case uv_results s of
        [] \<Rightarrow> (0, s\<lparr>uv_calls := uv_calls s @ [c]\<rparr>)
      | r # rs \<Rightarrow> (r, s\<lparr>uv_results := rs, uv_calls := uv_calls s @ [c]\<rparr>))"

definition GetError :: "SyncProcessRunner \<Rightarrow> int" where
  "GetError s = (if error s \<noteq> 0 then error s else pipe_error s)"

definition SetError :: "int \<Rightarrow> SyncProcessRunner \<Rightarrow> SyncProcessRunner" where
  "SetError e s = (if error s = 0 then s\<lparr>error := e\<rparr> else s)"

definition SetPipeError :: "int \<Rightarrow> SyncProcessRunner \<Rightarrow> SyncProcessRunner" where
  "SetPipeError e s = (if pipe_error s = 0 then s\<lparr>pipe_error := e\<rparr> else s)"

definition StopKillTimer :: "SyncProcessRunner \<Rightarrow> SyncProcessRunner option" where
  "StopKillTimer s = do {
     assert ((timeout s > 0) = kill_timer_initialized s);
     if kill_timer_initialized s then do {
       let (r, s) = call_uv uv_timer_stop s;
       assert (r = 0);
       Some s
     } else Some s
   }"

definition Kill :: "SyncProcessRunner \<Rightarrow> SyncProcessRunner option" where
  "Kill s =
     (if killed s then Some s
      else do {
        let s = s\<lparr>killed := True\<rparr>;
        let (r, s) = call_uv (uv_process_kill (kill_signal s)) s;
        s \<leftarrow> (if r < 0 \<and> r \<noteq> UV_ESRCH then do {
                let s = SetError r s;
                let (r, s) = call_uv (uv_process_kill (kill_signal s)) s;
                assert (r \<ge> 0 \<or> r = UV_ESRCH);
                Some s
              } else Some s);
        StopKillTimer s
      })"

definition IncrementBufferSizeAndCheckOverflow ::
  "int \<Rightarrow> SyncProcessRunner \<Rightarrow> SyncProcessRunner option" where
  \<comment> \<open>the first argument is the parameter \<^verbatim>\<open>length\<close>\<close>
  "IncrementBufferSizeAndCheckOverflow n s =
     (let s = s\<lparr>buffered_output_size := (buffered_output_size s + to_size_t n) mod 2 ^ 64\<rparr>
      in if max_buffer s > 0 \<and> buffered_output_size s > max_buffer s then Kill s else Some s)"

definition OnExit :: "int \<Rightarrow> int \<Rightarrow> SyncProcessRunner \<Rightarrow> SyncProcessRunner option" where
  "OnExit exit_status' term_signal' s =
     (if exit_status' < 0 then Some (SetError (to_int32 exit_status') s)
      else StopKillTimer (s\<lparr>exit_status := exit_status', term_signal := term_signal'\<rparr>))"

definition OnKillTimerTimeout :: "int \<Rightarrow> SyncProcessRunner \<Rightarrow> SyncProcessRunner option" where
  "OnKillTimerTimeout status s = do {
     assert (status = 0);
     Kill (SetError UV_ETIMEDOUT s)
   }"

subsection \<open>Methods of \<^verbatim>\<open>SyncProcessStdioPipe\<close>\<close>

text \<open>
  A method that reaches the runner through \<^verbatim>\<open>process_handler_\<close>, or calls libuv,
  takes the runner state and the index of the pipe in \<^verbatim>\<open>pipes_\<close>, which stands for
  \<^verbatim>\<open>this\<close>.
\<close>

definition uv_void :: "uv_request \<Rightarrow> SyncProcessRunner \<Rightarrow> SyncProcessRunner" where
  \<comment> \<open>a libuv call whose result the source does not use\<close>
  "uv_void c s = s\<lparr>uv_calls := uv_calls s @ [c]\<rparr>"

definition get_pipe :: "nat \<Rightarrow> SyncProcessRunner \<Rightarrow> SyncProcessStdioPipe option" where
  \<comment> \<open>\<^verbatim>\<open>pipes_[i]\<close>, \<open>None\<close> when it is \<^verbatim>\<open>NULL\<close> or there is no such entry\<close>
  "get_pipe i s =
     (case pipes s of
        None \<Rightarrow> None
      | Some ps \<Rightarrow> if i < length ps then ps ! i else None)"

definition set_pipe :: "nat \<Rightarrow> SyncProcessStdioPipe \<Rightarrow> SyncProcessRunner \<Rightarrow> SyncProcessRunner" where
  "set_pipe i p s = s\<lparr>pipes := map_option (\<lambda>ps. ps[i := Some p]) (pipes s)\<rparr>"

definition uv_pipe :: "SyncProcessStdioPipe \<Rightarrow> unit option" where
  \<comment> \<open>the accessor \<^verbatim>\<open>uv_pipe()\<close>, also behind \<^verbatim>\<open>uv_stream()\<close> and \<^verbatim>\<open>uv_handle()\<close>\<close>
  "uv_pipe p = assert (pipe_rank (pipe_lifecycle p) < pipe_rank kClosing)"

definition StdioPipe_Initialize ::
  "nat \<Rightarrow> SyncProcessStdioPipe \<Rightarrow> SyncProcessRunner
     \<Rightarrow> (int \<times> SyncProcessStdioPipe \<times> SyncProcessRunner) option" where
  "StdioPipe_Initialize i p s = do {
     assert (pipe_lifecycle p = kUninitialized);
     uv_pipe p;
     let (r, s) = call_uv (uv_pipe_init i) s;
     if r < 0 then Some (r, p, s)
     else do {
       uv_pipe p;
       Some (0, p\<lparr>pipe_lifecycle := kInitialized\<rparr>, s)
     }
   }"

definition StdioPipe_Start :: "nat \<Rightarrow> SyncProcessRunner \<Rightarrow> (int \<times> SyncProcessRunner) option" where
  "StdioPipe_Start i s = do {
     p \<leftarrow> get_pipe i s;
     assert (pipe_lifecycle p = kInitialized);
     let p = p\<lparr>pipe_lifecycle := kStarted\<rparr>;
     let s = set_pipe i p s;
     (r, s) \<leftarrow>
       (if readable p then do {
          (r, s) \<leftarrow>
            (if len (input_buffer p) > 0 then do {
               assert (base (input_buffer p) \<noteq> NULL);
               uv_pipe p;
               Some (call_uv (uv_write i (input_buffer p)) s)
             } else Some (0, s));
          if r < 0 then Some (r, s)
          else do {
            uv_pipe p;
            Some (call_uv (uv_shutdown i) s)
          }
        } else Some (0, s));
     if r < 0 then Some (r, s)
     else if writable p then do {
       uv_pipe p;
       let (r, s) = call_uv (uv_read_start i) s;
       if r < 0 then Some (r, s) else Some (0, s)
     }
     else Some (0, s)
   }"

definition StdioPipe_Close :: "nat \<Rightarrow> SyncProcessRunner \<Rightarrow> SyncProcessRunner option" where
  "StdioPipe_Close i s = do {
     p \<leftarrow> get_pipe i s;
     assert (pipe_lifecycle p = kInitialized \<or> pipe_lifecycle p = kStarted);
     uv_pipe p;
     let s = uv_void (uv_close_pipe i) s;
     Some (set_pipe i (p\<lparr>pipe_lifecycle := kClosing\<rparr>) s)
   }"

definition StdioPipe_OnAlloc :: "nat \<Rightarrow> SyncProcessStdioPipe \<Rightarrow> uv_buf_t \<times> SyncProcessStdioPipe" where
  "StdioPipe_OnAlloc suggested_size p =
     (let p = (if output_buffers p = []
               then p\<lparr>output_buffers := [new_SyncProcessOutputBuffer]\<rparr>
               else if available (last (output_buffers p)) = 0
               then p\<lparr>output_buffers := output_buffers p @ [new_SyncProcessOutputBuffer]\<rparr>
               else p)
      in (OutputBuffer_OnAlloc (length (output_buffers p) - 1) (last (output_buffers p)), p))"

definition StdioPipe_SetError :: "int \<Rightarrow> SyncProcessRunner \<Rightarrow> SyncProcessRunner option" where
  "StdioPipe_SetError e s = do {
     assert (e \<noteq> 0);
     Some (SetPipeError e s)
   }"

definition StdioPipe_OnRead ::
  "nat \<Rightarrow> uv_buf_t \<Rightarrow> int \<Rightarrow> SyncProcessRunner \<Rightarrow> SyncProcessRunner option" where
  "StdioPipe_OnRead i buf nread s = do {
     p \<leftarrow> get_pipe i s;
     if nread = UV_EOF then Some s
     else if nread < 0 then do {
       s \<leftarrow> StdioPipe_SetError (to_int32 nread) s;
       uv_pipe p;
       Some (uv_void (uv_read_stop i) s)
     }
     else do {
       assert (output_buffers p \<noteq> []);
       b \<leftarrow> OutputBuffer_OnRead (length (output_buffers p) - 1) buf (to_size_t nread)
              (last (output_buffers p));
       let s = set_pipe i (p\<lparr>output_buffers := butlast (output_buffers p) @ [b]\<rparr>) s;
       IncrementBufferSizeAndCheckOverflow nread s
     }
   }"

definition StdioPipe_OnWriteDone :: "int \<Rightarrow> SyncProcessRunner \<Rightarrow> SyncProcessRunner option" where
  "StdioPipe_OnWriteDone result s = (if result < 0 then StdioPipe_SetError result s else Some s)"

definition StdioPipe_OnShutdownDone :: "int \<Rightarrow> SyncProcessRunner \<Rightarrow> SyncProcessRunner option" where
  "StdioPipe_OnShutdownDone result s = (if result < 0 then StdioPipe_SetError result s else Some s)"

definition StdioPipe_OnClose :: "SyncProcessStdioPipe \<Rightarrow> SyncProcessStdioPipe" where
  "StdioPipe_OnClose p = p\<lparr>pipe_lifecycle := kClosed\<rparr>"

subsection \<open>The callbacks of the event loop\<close>

text \<open>
  What libuv does while \<^verbatim>\<open>uv_run\<close> runs, one event for one callback.
  \<^item> \<open>ev_read i bs\<close>: the bytes \<open>bs\<close> are ready on pipe \<open>i\<close>. libuv calls the allocation
    callback, stores as many of the bytes as the buffer it got can hold, and calls the
    read callback with their count.
  \<^item> \<open>ev_read_status i n\<close>: a read of pipe \<open>i\<close> ends with the status \<open>n\<close>
    (\<^verbatim>\<open>UV_EOF\<close> or an error): allocation callback, then read callback with \<open>n\<close>.
  \<^item> \<open>ev_write_done i n\<close>, \<open>ev_shutdown_done i n\<close>: the write, the shutdown request of
    pipe \<open>i\<close> completes with the result \<open>n\<close>.
  \<^item> \<open>ev_exit st sig\<close>: the child has exited; \<open>ev_timer st\<close>: the kill timer fires.
  An event for a pipe that does not exist is not delivered, and neither is an
  \<open>ev_read_status\<close> whose status is not negative: a count comes with its bytes.
\<close>

datatype uv_event =
    ev_read nat string
  | ev_read_status nat int
  | ev_write_done nat int
  | ev_shutdown_done nat int
  | ev_exit int int
  | ev_timer int

definition uv_store :: "nat \<Rightarrow> uv_buf_t \<Rightarrow> string \<Rightarrow> SyncProcessRunner \<Rightarrow> SyncProcessRunner" where
  \<comment> \<open>libuv stores \<open>bs\<close> at \<open>base buf\<close>, an address in a chunk of pipe \<open>i\<close>\<close>
  "uv_store i buf bs s =
     (let s = uv_void (uv_read_into i bs) s in
      case (get_pipe i s, base buf) of
        (Some p, ChunkData pos off) \<Rightarrow>
          if pos < length (output_buffers p)
          then set_pipe i
                 (p\<lparr>output_buffers := (output_buffers p)
                      [pos := (output_buffers p ! pos)
                         \<lparr>data := memcpy (data (output_buffers p ! pos)) off bs (length bs)\<rparr>]\<rparr>) s
          else s
      | _ \<Rightarrow> s)"

definition AllocCallback :: "nat \<Rightarrow> nat \<Rightarrow> SyncProcessRunner \<Rightarrow> (uv_buf_t \<times> SyncProcessRunner) option" where
  "AllocCallback i suggested_size s = do {
     p \<leftarrow> get_pipe i s;
     let (buf, p) = StdioPipe_OnAlloc suggested_size p;
     Some (buf, set_pipe i p s)
   }"

definition ReadCallback :: "nat \<Rightarrow> int \<Rightarrow> uv_buf_t \<Rightarrow> SyncProcessRunner \<Rightarrow> SyncProcessRunner option" where
  "ReadCallback i nread buf s = StdioPipe_OnRead i buf nread s"

definition uv_dispatch :: "uv_event \<Rightarrow> SyncProcessRunner \<Rightarrow> SyncProcessRunner option" where
  "uv_dispatch e s =
     (case e of
        ev_read i bs \<Rightarrow>
          if get_pipe i s = None then Some s
          else do {
            (buf, s) \<leftarrow> AllocCallback i 65536 s;
            let piece = take (len buf) bs;
            let s = uv_store i buf piece s;
            ReadCallback i (int (length piece)) buf s
          }
      | ev_read_status i n \<Rightarrow>
          if get_pipe i s = None \<or> 0 \<le> n then Some s
          else do {
            (buf, s) \<leftarrow> AllocCallback i 65536 s;
            ReadCallback i n buf s
          }
      | ev_write_done i n \<Rightarrow>
          if get_pipe i s = None then Some s else StdioPipe_OnWriteDone n s
      | ev_shutdown_done i n \<Rightarrow>
          if get_pipe i s = None then Some s else StdioPipe_OnShutdownDone n s
      | ev_exit st sig \<Rightarrow> OnExit st sig s
      | ev_timer st \<Rightarrow> OnKillTimerTimeout st s)"

fun uv_dispatch_all :: "uv_event list \<Rightarrow> SyncProcessRunner \<Rightarrow> SyncProcessRunner option" where
  "uv_dispatch_all [] s = Some s"
| "uv_dispatch_all (e # es) s = do { s \<leftarrow> uv_dispatch e s; uv_dispatch_all es s }"

subsection \<open>The host's value API\<close>

text \<open>
  The conversions of V8 that the decoder uses. Those that depend on the host's own
  code are parameters: \<open>ToString\<close> gives the UTF-8 bytes of the string a value that
  is not a string converts to, \<open>ToInteger\<close> the integer a value that is not a number
  converts to, and \<open>signo_string\<close> is node's table of signal names.
\<close>

record host_api =
  ToString :: "js_value \<Rightarrow> string"
  ToInteger :: "js_value \<Rightarrow> int"
  signo_string :: "int \<Rightarrow> string"

fun IsUndefined :: "js_value \<Rightarrow> bool" where
  "IsUndefined JsUndefined = True"
| "IsUndefined _ = False"

fun IsNull :: "js_value \<Rightarrow> bool" where
  "IsNull JsNull = True"
| "IsNull _ = False"

fun IsString :: "js_value \<Rightarrow> bool" where
  "IsString (JsString _) = True"
| "IsString _ = False"

fun IsNumber :: "js_value \<Rightarrow> bool" where
  "IsNumber (JsNumber _) = True"
| "IsNumber _ = False"

fun IsArray :: "js_value \<Rightarrow> bool" where
  "IsArray (JsArray _) = True"
| "IsArray _ = False"

fun IsObject :: "js_value \<Rightarrow> bool" where
  "IsObject (JsObject _) = True"
| "IsObject (JsArray _) = True"
| "IsObject (JsBuffer _) = True"
| "IsObject _ = False"

fun HasInstance :: "js_value \<Rightarrow> bool" where
  \<comment> \<open>\<^verbatim>\<open>Buffer::HasInstance\<close>\<close>
  "HasInstance (JsBuffer _) = True"
| "HasInstance _ = False"

fun Buffer_Data :: "js_value \<Rightarrow> char_ptr" where
  "Buffer_Data (JsBuffer bs) = HostData bs"
| "Buffer_Data _ = NULL"

fun Buffer_Length :: "js_value \<Rightarrow> nat" where
  "Buffer_Length (JsBuffer bs) = length bs"
| "Buffer_Length _ = 0"

fun IsInt32 :: "js_value \<Rightarrow> bool" where
  "IsInt32 (JsNumber n) = (- (2 ^ 31) \<le> n \<and> n < 2 ^ 31)"
| "IsInt32 _ = False"

fun IsUint32 :: "js_value \<Rightarrow> bool" where
  "IsUint32 (JsNumber n) = (0 \<le> n \<and> n < 2 ^ 32)"
| "IsUint32 _ = False"

fun IntegerValue :: "host_api \<Rightarrow> js_value \<Rightarrow> int" where
  \<comment> \<open>a number outside \<^verbatim>\<open>int64_t\<close> converts to the least \<^verbatim>\<open>int64_t\<close>, as on x86-64\<close>
  "IntegerValue h (JsNumber n) = (if - (2 ^ 63) \<le> n \<and> n < 2 ^ 63 then n else - (2 ^ 63))"
| "IntegerValue h v = ToInteger h v"

definition Int32Value :: "host_api \<Rightarrow> js_value \<Rightarrow> int" where
  "Int32Value h v = to_int32 (case v of JsNumber n \<Rightarrow> n | _ \<Rightarrow> ToInteger h v)"

definition Uint32Value :: "host_api \<Rightarrow> js_value \<Rightarrow> nat" where
  "Uint32Value h v = to_uint (case v of JsNumber n \<Rightarrow> n | _ \<Rightarrow> ToInteger h v)"

fun BooleanValue :: "js_value \<Rightarrow> bool" where
  "BooleanValue JsUndefined = False"
| "BooleanValue JsNull = False"
| "BooleanValue (JsBoolean b) = b"
| "BooleanValue (JsNumber n) = (n \<noteq> 0)"
| "BooleanValue (JsString s) = (s \<noteq> [])"
| "BooleanValue _ = True"

fun StrictEquals :: "js_value \<Rightarrow> string \<Rightarrow> bool" where
  \<comment> \<open>strict equality with a string constant\<close>
  "StrictEquals (JsString s) t = (s = t)"
| "StrictEquals _ t = False"

fun js_Get :: "js_value \<Rightarrow> string \<Rightarrow> js_value" where
  \<comment> \<open>\<^verbatim>\<open>obj->Get(key)\<close>; arrays and buffers have none of the keys the decoder reads\<close>
  "js_Get (JsObject kvs) k = (case map_of kvs k of None \<Rightarrow> JsUndefined | Some v \<Rightarrow> v)"
| "js_Get _ k = JsUndefined"

definition js_Set :: "(string \<times> js_value) list \<Rightarrow> string \<Rightarrow> js_value \<Rightarrow> (string \<times> js_value) list" where
  "js_Set obj k v = AList.update k v obj"

definition IsSet :: "js_value \<Rightarrow> bool" where
  "IsSet v = (\<not> IsUndefined v \<and> \<not> IsNull v)"

definition CheckRange_uint32 :: "host_api \<Rightarrow> js_value \<Rightarrow> bool" where
  \<comment> \<open>\<^verbatim>\<open>CheckRange<t>\<close> at \<^verbatim>\<open>uint32_t\<close>, \<^verbatim>\<open>uv_uid_t\<close> and \<^verbatim>\<open>uv_gid_t\<close>, all unsigned and
      32 bits wide: the unsigned branch, where \<^verbatim>\<open>~((t) ~0)\<close> is \<open>0\<close>\<close>
  "CheckRange_uint32 h v =
     (if \<not> IsUint32 v then False
      else if and (Uint32Value h v) 0 \<noteq> 0 then False
      else True)"

definition js_string_bytes :: "host_api \<Rightarrow> js_value \<Rightarrow> string" where
  \<comment> \<open>the bytes \<^verbatim>\<open>StringBytes::Write(..., UTF8)\<close> writes for a value once it is a string\<close>
  "js_string_bytes h v = (case v of JsString s \<Rightarrow> s | _ \<Rightarrow> ToString h v)"

definition CopyJsString :: "host_api \<Rightarrow> js_value \<Rightarrow> int \<times> string option" where
  \<comment> \<open>the result and the new value of the reference parameter \<^verbatim>\<open>target\<close>\<close>
  "CopyJsString h js_value = (0, Some (js_string_bytes h js_value))"

definition CopyJsStringArray ::
  "host_api \<Rightarrow> js_value \<Rightarrow> string list option \<Rightarrow> int \<times> string list option" where
  \<comment> \<open>the third argument is \<^verbatim>\<open>target\<close> before the call; the buffer is the list of its strings\<close>
  "CopyJsStringArray h js_value target =
     (case js_value of
        JsArray js_array \<Rightarrow> (0, Some (map (js_string_bytes h) js_array))
      | _ \<Rightarrow> (UV_EINVAL, target))"

definition bool_to_int :: "bool \<Rightarrow> int" where
  "bool_to_int b = (if b then 1 else 0)"

subsection \<open>The options decoder\<close>

definition set_container ::
  "nat \<Rightarrow> uv_stdio_container_t \<Rightarrow> SyncProcessRunner \<Rightarrow> SyncProcessRunner" where
  "set_container i c s =
     s\<lparr>uv_stdio_containers := map_option (\<lambda>cs. cs[i := Some c]) (uv_stdio_containers s)\<rparr>"

definition AddStdioIgnore :: "nat \<Rightarrow> SyncProcessRunner \<Rightarrow> (int \<times> SyncProcessRunner) option" where
  "AddStdioIgnore child_fd s = do {
     assert (child_fd < stdio_count s);
     assert (get_pipe child_fd s = None);
     Some (0, set_container child_fd UV_IGNORE s)
   }"

definition AddStdioPipe ::
  "nat \<Rightarrow> bool \<Rightarrow> bool \<Rightarrow> uv_buf_t \<Rightarrow> SyncProcessRunner \<Rightarrow> (int \<times> SyncProcessRunner) option" where
  "AddStdioPipe child_fd rd wr input s = do {
     assert (child_fd < stdio_count s);
     assert (get_pipe child_fd s = None);
     h \<leftarrow> new_SyncProcessStdioPipe rd wr input;
     (r, h, s) \<leftarrow> StdioPipe_Initialize child_fd h s;
     if r < 0 then Some (r, s)
     else do {
       let s = set_pipe child_fd h s;
       uv_pipe h;
       Some (0, set_container child_fd (UV_CREATE_PIPE (readable h) (writable h) child_fd) s)
     }
   }"

definition AddStdioInheritFD :: "nat \<Rightarrow> int \<Rightarrow> SyncProcessRunner \<Rightarrow> (int \<times> SyncProcessRunner) option" where
  "AddStdioInheritFD child_fd inherit_fd s = do {
     assert (child_fd < stdio_count s);
     assert (get_pipe child_fd s = None);
     Some (0, set_container child_fd (UV_INHERIT_FD inherit_fd) s)
   }"

definition ParseStdioOption ::
  "host_api \<Rightarrow> nat \<Rightarrow> js_value \<Rightarrow> SyncProcessRunner \<Rightarrow> (int \<times> SyncProcessRunner) option" where
  "ParseStdioOption h child_fd js_stdio_option s =
     (let js_type = js_Get js_stdio_option ''type'' in
      if StrictEquals js_type ''ignore'' then AddStdioIgnore child_fd s
      else if StrictEquals js_type ''pipe'' then do {
        let rd = BooleanValue (js_Get js_stdio_option ''readable'');
        let wr = BooleanValue (js_Get js_stdio_option ''writable'');
        let buf = uv_buf_init NULL 0;
        buf \<leftarrow>
          (if rd then
             (let input = js_Get js_stdio_option ''input'' in
              if \<not> HasInstance input then do { assert (IsUndefined input); Some buf }
              else Some (uv_buf_init (Buffer_Data input) (to_uint (int (Buffer_Length input)))))
           else Some buf);
        AddStdioPipe child_fd rd wr buf s
      }
      else if StrictEquals js_type ''inherit'' then
        AddStdioInheritFD child_fd (Int32Value h (js_Get js_stdio_option ''fd'')) s
      else do { assert False; Some (UV_EINVAL, s) })"

fun ParseStdioOptions_loop ::
  "host_api \<Rightarrow> js_value list \<Rightarrow> nat \<Rightarrow> SyncProcessRunner \<Rightarrow> (int \<times> SyncProcessRunner) option" where
  \<comment> \<open>the \<^verbatim>\<open>for\<close> loop from index \<open>i\<close> on, over the elements that are left\<close>
  "ParseStdioOptions_loop h [] i s = Some (0, s)"
| "ParseStdioOptions_loop h (js_stdio_option # rest) i s =
     (if \<not> IsObject js_stdio_option then Some (UV_EINVAL, s)
      else do {
        (r, s) \<leftarrow> ParseStdioOption h i js_stdio_option s;
        if r < 0 then Some (r, s) else ParseStdioOptions_loop h rest (Suc i) s
      })"

definition ParseStdioOptions ::
  "host_api \<Rightarrow> js_value \<Rightarrow> SyncProcessRunner \<Rightarrow> (int \<times> SyncProcessRunner) option" where
  "ParseStdioOptions h js_value s =
     (case js_value of
        JsArray js_stdio_options \<Rightarrow> do {
          let n = length js_stdio_options;
          let s = s\<lparr>stdio_count := n, pipes := Some (replicate n None),
                    uv_stdio_containers := Some (replicate n None)\<rparr>;
          (r, s) \<leftarrow> ParseStdioOptions_loop h js_stdio_options 0 s;
          if r < 0 then Some (r, s)
          else Some (0, s\<lparr>uv_process_options := (uv_process_options s)
                            \<lparr>opt_stdio := uv_stdio_containers s,
                             opt_stdio_count := stdio_count s\<rparr>\<rparr>)
        }
      | _ \<Rightarrow> Some (UV_EINVAL, s))"

text \<open>
  \<^verbatim>\<open>ParseOptions\<close> is a sequence of blocks, one for each option, each of which either
  returns from the function or falls through to the next. A block is a function that
  gives \<open>Some r\<close> when it returns \<open>r\<close> and \<open>None\<close> when it falls through;
  \<open>run_blocks\<close> runs them in order and ends with the final \<^verbatim>\<open>return 0\<close>.
  The condition \<^verbatim>\<open>r = f(...) < 0\<close> assigns the truth value of the comparison to \<open>r\<close>
  (\<open>bool_to_int\<close>) and is true when that is not \<open>0\<close>.
\<close>

type_synonym block = "SyncProcessRunner \<Rightarrow> (int option \<times> SyncProcessRunner) option"

fun run_blocks :: "block list \<Rightarrow> SyncProcessRunner \<Rightarrow> (int \<times> SyncProcessRunner) option" where
  "run_blocks [] s = Some (0, s)"
| "run_blocks (f # fs) s =
     (case f s of
        None \<Rightarrow> None
      | Some (Some r, s') \<Rightarrow> Some (r, s')
      | Some (None, s') \<Rightarrow> run_blocks fs s')"

definition ParseOptions_file :: "host_api \<Rightarrow> js_value \<Rightarrow> block" where
  "ParseOptions_file h js_options s =
     (let js_file = js_Get js_options ''file'';
          (c, target) = CopyJsString h js_file;
          s = s\<lparr>file_buffer := target\<rparr>;
          r = bool_to_int (c < 0)
      in if r \<noteq> 0 then Some (Some r, s)
         else Some (None, s\<lparr>uv_process_options :=
                               (uv_process_options s)\<lparr>opt_file := file_buffer s\<rparr>\<rparr>))"

definition ParseOptions_args :: "host_api \<Rightarrow> js_value \<Rightarrow> block" where
  "ParseOptions_args h js_options s =
     (let js_args = js_Get js_options ''args'';
          (c, target) = CopyJsStringArray h js_args (args_buffer s);
          s = s\<lparr>args_buffer := target\<rparr>;
          r = bool_to_int (c < 0)
      in if r \<noteq> 0 then Some (Some r, s)
         else Some (None, s\<lparr>uv_process_options :=
                               (uv_process_options s)\<lparr>opt_args := args_buffer s\<rparr>\<rparr>))"

definition ParseOptions_cwd :: "host_api \<Rightarrow> js_value \<Rightarrow> block" where
  \<comment> \<open>the target of \<^verbatim>\<open>CopyJsString\<close> is \<^verbatim>\<open>uv_process_options_.cwd\<close>\<close>
  "ParseOptions_cwd h js_options s =
     (let js_cwd = js_Get js_options ''cwd'' in
      if IsSet js_cwd then
        (let (c, target) = CopyJsString h js_cwd;
             s = s\<lparr>uv_process_options := (uv_process_options s)\<lparr>opt_cwd := target\<rparr>\<rparr>;
             r = bool_to_int (c < 0)
         in if r \<noteq> 0 then Some (Some r, s)
            else Some (None, s\<lparr>uv_process_options :=
                                  (uv_process_options s)\<lparr>opt_cwd := cwd_buffer s\<rparr>\<rparr>))
      else Some (None, s))"

definition ParseOptions_envPairs :: "host_api \<Rightarrow> js_value \<Rightarrow> block" where
  "ParseOptions_envPairs h js_options s =
     (let js_env_pairs = js_Get js_options ''envPairs'' in
      if IsSet js_env_pairs then
        (let (c, target) = CopyJsStringArray h js_env_pairs (env_buffer s);
             s = s\<lparr>env_buffer := target\<rparr>;
             r = bool_to_int (c < 0)
         in if r \<noteq> 0 then Some (Some r, s)
            else Some (None, s\<lparr>uv_process_options :=
                                  (uv_process_options s)\<lparr>opt_args := env_buffer s\<rparr>\<rparr>))
      else Some (None, s))"

definition ParseOptions_uid :: "host_api \<Rightarrow> js_value \<Rightarrow> block" where
  "ParseOptions_uid h js_options s =
     (let js_uid = js_Get js_options ''uid'' in
      if IsSet js_uid then
        (if \<not> CheckRange_uint32 h js_uid then Some (Some UV_EINVAL, s)
         else Some (None, s\<lparr>uv_process_options := (uv_process_options s)
                 \<lparr>opt_uid := to_uint (Int32Value h js_uid),
                  opt_flags := insert UV_PROCESS_SETUID (opt_flags (uv_process_options s))\<rparr>\<rparr>))
      else Some (None, s))"

definition ParseOptions_gid :: "host_api \<Rightarrow> js_value \<Rightarrow> block" where
  "ParseOptions_gid h js_options s =
     (let js_gid = js_Get js_options ''gid'' in
      if IsSet js_gid then
        (if \<not> CheckRange_uint32 h js_gid then Some (Some UV_EINVAL, s)
         else Some (None, s\<lparr>uv_process_options := (uv_process_options s)
                 \<lparr>opt_gid := to_uint (Int32Value h js_gid),
                  opt_flags := insert UV_PROCESS_SETGID (opt_flags (uv_process_options s))\<rparr>\<rparr>))
      else Some (None, s))"

definition ParseOptions_detached :: "js_value \<Rightarrow> block" where
  "ParseOptions_detached js_options s =
     (if BooleanValue (js_Get js_options ''detached'')
      then Some (None, s\<lparr>uv_process_options := (uv_process_options s)
              \<lparr>opt_flags := insert UV_PROCESS_DETACHED (opt_flags (uv_process_options s))\<rparr>\<rparr>)
      else Some (None, s))"

definition ParseOptions_windowsVerbatimArguments :: "js_value \<Rightarrow> block" where
  "ParseOptions_windowsVerbatimArguments js_options s =
     (if BooleanValue (js_Get js_options ''windowsVerbatimArguments'')
      then Some (None, s\<lparr>uv_process_options := (uv_process_options s)
              \<lparr>opt_flags := insert UV_PROCESS_WINDOWS_VERBATIM_ARGUMENTS
                               (opt_flags (uv_process_options s))\<rparr>\<rparr>)
      else Some (None, s))"

definition ParseOptions_timeout :: "host_api \<Rightarrow> js_value \<Rightarrow> block" where
  "ParseOptions_timeout h js_options s =
     (let js_timeout = js_Get js_options ''timeout'' in
      if IsSet js_timeout then
        (if \<not> IsNumber js_timeout then Some (Some UV_EINVAL, s)
         else let timeout' = IntegerValue h js_timeout in
           if timeout' < 0 then Some (Some UV_EINVAL, s)
           else Some (None, s\<lparr>timeout := nat timeout'\<rparr>))
      else Some (None, s))"

definition ParseOptions_maxBuffer :: "host_api \<Rightarrow> js_value \<Rightarrow> block" where
  "ParseOptions_maxBuffer h js_options s =
     (let js_max_buffer = js_Get js_options ''maxBuffer'' in
      if IsSet js_max_buffer then
        (if \<not> CheckRange_uint32 h js_max_buffer then Some (Some UV_EINVAL, s)
         else Some (None, s\<lparr>max_buffer := Uint32Value h js_max_buffer\<rparr>))
      else Some (None, s))"

definition ParseOptions_killSignal :: "host_api \<Rightarrow> js_value \<Rightarrow> block" where
  "ParseOptions_killSignal h js_options s =
     (let js_kill_signal = js_Get js_options ''killSignal'' in
      if IsSet js_kill_signal then
        (if \<not> IsInt32 js_kill_signal then Some (Some UV_EINVAL, s)
         else let s = s\<lparr>kill_signal := Int32Value h js_kill_signal\<rparr> in
           if kill_signal s = 0 then Some (Some UV_EINVAL, s)
           else Some (None, s))
      else Some (None, s))"

definition ParseOptions_stdio :: "host_api \<Rightarrow> js_value \<Rightarrow> block" where
  "ParseOptions_stdio h js_options s = do {
     let js_stdio = js_Get js_options ''stdio'';
     (c, s) \<leftarrow> ParseStdioOptions h js_stdio s;
     let r = bool_to_int (c < 0);
     if r \<noteq> 0 then Some (Some r, s) else Some (None, s)
   }"

definition ParseOptions ::
  "host_api \<Rightarrow> js_value \<Rightarrow> SyncProcessRunner \<Rightarrow> (int \<times> SyncProcessRunner) option" where
  "ParseOptions h js_value s =
     (if \<not> IsObject js_value then Some (UV_EINVAL, s)
      else run_blocks
        [ParseOptions_file h js_value,
         ParseOptions_args h js_value,
         ParseOptions_cwd h js_value,
         ParseOptions_envPairs h js_value,
         ParseOptions_uid h js_value,
         ParseOptions_gid h js_value,
         ParseOptions_detached js_value,
         ParseOptions_windowsVerbatimArguments js_value,
         ParseOptions_timeout h js_value,
         ParseOptions_maxBuffer h js_value,
         ParseOptions_killSignal h js_value,
         ParseOptions_stdio h js_value] s)"

subsection \<open>Running the child\<close>

definition start_kill_timer :: "SyncProcessRunner \<Rightarrow> int \<times> SyncProcessRunner" where
  \<comment> \<open>the block \<^verbatim>\<open>if (timeout_ > 0) { ... }\<close> of \<^verbatim>\<open>TryInitializeAndRunLoop\<close>; a negative
      first component is the \<open>r\<close> of one of its \<^verbatim>\<open>return SetError(r)\<close>\<close>
  "start_kill_timer s =
     (if timeout s > 0 then
        (let (r, s) = call_uv uv_timer_init s in
         if r < 0 then (r, s)
         else
           let s = uv_void uv_unref_timer s;
               s = s\<lparr>kill_timer_initialized := True\<rparr>
           in call_uv (uv_timer_start (timeout s)) s)
      else (0, s))"

fun start_pipes :: "nat list \<Rightarrow> SyncProcessRunner \<Rightarrow> (int \<times> SyncProcessRunner) option" where
  \<comment> \<open>the loop that starts the pipes, over the indices that are left; a negative first
      component is the \<open>r\<close> of its \<^verbatim>\<open>return SetError(r)\<close>\<close>
  "start_pipes [] s = Some (0, s)"
| "start_pipes (i # rest) s =
     (case get_pipe i s of
        None \<Rightarrow> start_pipes rest s
      | Some h \<Rightarrow> do {
          (r, s) \<leftarrow> StdioPipe_Start i s;
          if r < 0 then Some (r, s) else start_pipes rest s
        })"

definition TryInitializeAndRunLoop ::
  "host_api \<Rightarrow> js_value \<Rightarrow> uv_event list \<Rightarrow> SyncProcessRunner \<Rightarrow> SyncProcessRunner option" where
  \<comment> \<open>\<^verbatim>\<open>uv_loop_new\<close> returns \<^verbatim>\<open>NULL\<close> when the environment's result is negative; the
      events are the callbacks made inside \<^verbatim>\<open>uv_run\<close>\<close>
  "TryInitializeAndRunLoop h options events s = do {
     assert (lifecycle s = rUninitialized);
     let s = s\<lparr>lifecycle := rInitialized\<rparr>;
     let (r, s) = call_uv uv_loop_new s;
     let s = s\<lparr>uv_loop := (0 \<le> r)\<rparr>;
     if \<not> uv_loop s then Some (SetError UV_ENOMEM s)
     else do {
       (r, s) \<leftarrow> ParseOptions h options s;
       if r < 0 then Some (SetError r s)
       else do {
         let (r, s) = start_kill_timer s;
         if r < 0 then Some (SetError r s)
         else do {
           let s = s\<lparr>uv_process_options := (uv_process_options s)\<lparr>exit_cb := True\<rparr>\<rparr>;
           let (r, s) = call_uv (uv_spawn (uv_process_options s)) s;
           if r < 0 then Some (SetError r s)
           else do {
             (r, s) \<leftarrow> start_pipes [0..<stdio_count s] s;
             if r < 0 then Some (SetError r s)
             else do {
               let (r, s) = call_uv uv_run s;
               s \<leftarrow> uv_dispatch_all events s;
               if r < 0 then None
               else do {
                 assert (exit_status s \<ge> 0);
                 Some s
               }
             }
           }
         }
       }
     }
   }"

fun close_pipes :: "nat list \<Rightarrow> SyncProcessRunner \<Rightarrow> SyncProcessRunner option" where
  "close_pipes [] s = Some s"
| "close_pipes (i # rest) s =
     (case get_pipe i s of
        None \<Rightarrow> close_pipes rest s
      | Some h \<Rightarrow> do { s \<leftarrow> StdioPipe_Close i s; close_pipes rest s })"

definition CloseCallbacks :: "SyncProcessRunner \<Rightarrow> SyncProcessRunner" where
  \<comment> \<open>libuv calls \<^verbatim>\<open>CloseCallback\<close> for every handle that is closing\<close>
  "CloseCallbacks s =
     s\<lparr>pipes := map_option
          (map (map_option (\<lambda>p. if pipe_lifecycle p = kClosing then StdioPipe_OnClose p else p)))
          (pipes s)\<rparr>"

definition CloseHandlesAndDeleteLoop ::
  "uv_event list \<Rightarrow> SyncProcessRunner \<Rightarrow> SyncProcessRunner option" where
  \<comment> \<open>the events are the callbacks of requests still pending when the handles are
      closed; the close callbacks follow them\<close>
  "CloseHandlesAndDeleteLoop events s = do {
     assert (runner_rank (lifecycle s) < runner_rank rHandlesClosed);
     let s = s\<lparr>lifecycle := rHandlesClosed\<rparr>;
     s \<leftarrow> (if pipes s \<noteq> None then do {
             assert (uv_loop s);
             close_pipes [0..<stdio_count s] s
           } else Some s);
     let s = (if kill_timer_initialized s
              then uv_void uv_close_timer (uv_void uv_ref_timer s) else s);
     if uv_loop s then do {
       let (r, s) = call_uv uv_run s;
       s \<leftarrow> uv_dispatch_all events s;
       let s = CloseCallbacks s;
       if r < 0 then None else Some (uv_void uv_loop_delete s)
     } else Some s
   }"

definition output_entry :: "SyncProcessStdioPipe option \<Rightarrow> js_value" where
  \<comment> \<open>the value the loop of \<^verbatim>\<open>BuildOutputArray\<close> sets for \<^verbatim>\<open>h = pipes_[i]\<close>\<close>
  "output_entry h =
     (case h of
        None \<Rightarrow> JsNull
      | Some p \<Rightarrow> if writable p then GetOutputAsBuffer p else JsNull)"

fun BuildOutputArray_loop ::
  "SyncProcessStdioPipe option list \<Rightarrow> nat list \<Rightarrow> js_value list option" where
  \<comment> \<open>the elements the loop sets, for the indices that are left; reading \<^verbatim>\<open>pipes_\<close>
      beyond its end is an abort\<close>
  "BuildOutputArray_loop ps [] = Some []"
| "BuildOutputArray_loop ps (i # rest) = do {
     assert (i < length ps);
     let h = ps ! i;
     vs \<leftarrow> BuildOutputArray_loop ps rest;
     Some (output_entry h # vs)
   }"

definition BuildOutputArray :: "SyncProcessRunner \<Rightarrow> js_value option" where
  "BuildOutputArray s = do {
     assert (runner_rank (lifecycle s) \<ge> runner_rank rInitialized);
     assert (pipes s \<noteq> None);
     ps \<leftarrow> pipes s;
     js_output \<leftarrow> BuildOutputArray_loop ps [0..<stdio_count s];
     Some (JsArray js_output)
   }"

text \<open>
  \<^verbatim>\<open>static_cast<double>\<close> of an \<^verbatim>\<open>int64_t\<close>: the nearest double, a tie going to the
  even significand. A double has a significand of 53 bits, so a value of \<open>53 + e\<close>
  bits is rounded to a multiple of \<open>2 ^ e\<close>; \<open>e\<close> is the number of the powers
  \<open>2 ^ 53, ..., 2 ^ 63\<close> that the magnitude reaches. The double is integral, and is
  given as the integer it equals.
\<close>

definition int64_to_double :: "int \<Rightarrow> int" where
  "int64_to_double n =
     (let a = \<bar>n\<bar>;
          e = length (filter (\<lambda>k. 2 ^ (53 + k) \<le> a) [0..<11]);
          q = 2 ^ e;
          m = a div q;
          r = a mod q;
          m' = (if 2 * r < q \<or> (2 * r = q \<and> even m) then m else m + 1)
      in sgn n * (m' * q))"

definition BuildResultObject :: "host_api \<Rightarrow> SyncProcessRunner \<Rightarrow> js_value option" where
  "BuildResultObject h s = do {
     let js_result = [];
     let js_result = (if GetError s \<noteq> 0
                      then js_Set js_result ''error'' (JsNumber (GetError s)) else js_result);
     let js_result = (if exit_status s \<ge> 0
                      then js_Set js_result ''status'' (JsNumber (int64_to_double (exit_status s)))
                      else js_Set js_result ''status'' JsNull);
     let js_result = (if term_signal s > 0
                      then js_Set js_result ''signal'' (JsString (signo_string h (term_signal s)))
                      else js_Set js_result ''signal'' JsNull);
     js_result \<leftarrow> (if exit_status s \<ge> 0
                     then do {
                       js_output \<leftarrow> BuildOutputArray s;
                       Some (js_Set js_result ''output'' js_output)
                     }
                     else Some (js_Set js_result ''output'' JsNull));
     Some (JsObject js_result)
   }"

definition Run ::
  "host_api \<Rightarrow> js_value \<Rightarrow> uv_event list \<Rightarrow> uv_event list \<Rightarrow> SyncProcessRunner
     \<Rightarrow> (js_value \<times> SyncProcessRunner) option" where
  "Run h options events events' s = do {
     assert (lifecycle s = rUninitialized);
     s \<leftarrow> TryInitializeAndRunLoop h options events s;
     s \<leftarrow> CloseHandlesAndDeleteLoop events' s;
     result \<leftarrow> BuildResultObject h s;
     Some (result, s)
   }"

definition destroy_SyncProcessRunner :: "SyncProcessRunner \<Rightarrow> unit option" where
  \<comment> \<open>the assertions of the destructors of the runner and of its pipes\<close>
  "destroy_SyncProcessRunner s = do {
     assert (lifecycle s = rHandlesClosed);
     assert (list_all (\<lambda>h. case h of
                             None \<Rightarrow> True
                           | Some p \<Rightarrow> pipe_lifecycle p = kUninitialized \<or> pipe_lifecycle p = kClosed)
               (case pipes s of None \<Rightarrow> [] | Some ps \<Rightarrow> ps))
   }"

definition Spawn ::
  "host_api \<Rightarrow> int list \<Rightarrow> js_value \<Rightarrow> uv_event list \<Rightarrow> uv_event list
     \<Rightarrow> (js_value \<times> uv_request list) option" where
  \<comment> \<open>\<^verbatim>\<open>spawnSync(options)\<close> in an environment given by the results of the libuv calls
      and the callbacks of the two runs of the loop: the result object and the calls
      that were made\<close>
  "Spawn h script options events events' = do {
     (result, s) \<leftarrow> Run h options events events' (new_SyncProcessRunner script);
     destroy_SyncProcessRunner s;
     Some (result, uv_calls s)
   }"

subsection \<open>Notions used in the statements\<close>

definition result_at :: "nat \<Rightarrow> int list \<Rightarrow> int" where
  \<comment> \<open>what libuv returns to the call after the next \<open>k\<close> calls, for a script of results\<close>
  "result_at k rs = (if k < length rs then rs ! k else 0)"

datatype error_call = call_SetError int | call_SetPipeError int

fun apply_error_call :: "error_call \<Rightarrow> SyncProcessRunner \<Rightarrow> SyncProcessRunner" where
  "apply_error_call (call_SetError e) s = SetError e s"
| "apply_error_call (call_SetPipeError e) s = SetPipeError e s"

definition kill_state :: "int list \<Rightarrow> SyncProcessRunner" where
  \<comment> \<open>a runner with a 50 ms kill timer running, in an environment with the given script\<close>
  "kill_state script =
     (new_SyncProcessRunner script)\<lparr>timeout := 50, kill_timer_initialized := True\<rparr>"

text \<open>
  The captured bytes of a chunk are \<open>[0, used)\<close> of its array, those of a pipe the
  concatenation along its chain. A chunk is well formed when \<open>used\<close> is within the
  array, whose size is \<open>kBufferSize\<close>.
\<close>

definition valid_bytes :: "SyncProcessOutputBuffer \<Rightarrow> string" where
  "valid_bytes b = take (used b) (data b)"

definition captured :: "SyncProcessStdioPipe \<Rightarrow> string" where
  "captured p = concat (map valid_bytes (output_buffers p))"

definition chunk_ok :: "SyncProcessOutputBuffer \<Rightarrow> bool" where
  "chunk_ok b = (used b \<le> kBufferSize \<and> length (data b) = kBufferSize)"

definition chain_ok :: "SyncProcessStdioPipe \<Rightarrow> bool" where
  "chain_ok p = list_all chunk_ok (output_buffers p)"

text \<open>
  The pipe after a read callback has committed \<open>nread\<close> bytes: the counter of its last
  chunk is advanced, in \<^verbatim>\<open>unsigned int\<close>, by the count it is given as a \<^verbatim>\<open>size_t\<close>.
\<close>

definition committed :: "SyncProcessStdioPipe \<Rightarrow> int \<Rightarrow> SyncProcessStdioPipe" where
  "committed p nread =
     p\<lparr>output_buffers := butlast (output_buffers p)
          @ [(last (output_buffers p))
               \<lparr>used := (used (last (output_buffers p)) + to_uint (int (to_size_t nread))) mod 2 ^ 32\<rparr>]\<rparr>"

text \<open>
  The requests \<open>Start\<close> makes for pipe \<open>i\<close> when none is refused: a write of the input
  buffer when the pipe is readable and the buffer is not empty, a shutdown when the
  pipe is readable, a read start when it is writable.
\<close>

definition write_request :: "nat \<Rightarrow> SyncProcessStdioPipe \<Rightarrow> uv_request list" where
  "write_request i p =
     (if readable p \<and> 0 < len (input_buffer p) then [uv_write i (input_buffer p)] else [])"

definition shutdown_request :: "nat \<Rightarrow> SyncProcessStdioPipe \<Rightarrow> uv_request list" where
  "shutdown_request i p = (if readable p then [uv_shutdown i] else [])"

definition read_request :: "nat \<Rightarrow> SyncProcessStdioPipe \<Rightarrow> uv_request list" where
  "read_request i p = (if writable p then [uv_read_start i] else [])"

text \<open>
  Two relations for the decoder: the fields that the decoding of \<open>stdio\<close> leaves
  alone, and the state in which neither the environment nor the working directory
  of the spawn descriptor is set.
\<close>

definition decoder_frame :: "SyncProcessRunner \<Rightarrow> SyncProcessRunner \<Rightarrow> bool" where
  "decoder_frame s s' =
     (kill_signal s' = kill_signal s \<and> cwd_buffer s' = cwd_buffer s \<and>
      env_buffer s' = env_buffer s \<and>
      opt_env (uv_process_options s') = opt_env (uv_process_options s) \<and>
      opt_cwd (uv_process_options s') = opt_cwd (uv_process_options s) \<and>
      opt_args (uv_process_options s') = opt_args (uv_process_options s))"

definition env_cwd_unset :: "SyncProcessRunner \<Rightarrow> bool" where
  "env_cwd_unset s =
     (opt_env (uv_process_options s) = None \<and> cwd_buffer s = None \<and>
      opt_cwd (uv_process_options s) = None)"

text \<open>
  \<open>stored i calls\<close> is the concatenation, in the order of the calls, of the bytes
  that libuv stored for pipe \<open>i\<close>: each \<open>uv_read_into i bs\<close> is followed by the read
  callback with the count \<open>length bs\<close>. \<open>pipes_inv\<close> says that every pipe's chain is
  well formed and holds exactly these bytes.
\<close>

fun stored :: "nat \<Rightarrow> uv_request list \<Rightarrow> string" where
  "stored i [] = []"
| "stored i (c # cs) =
     (case c of uv_read_into j bs \<Rightarrow> (if j = i then bs else []) | _ \<Rightarrow> []) @ stored i cs"

definition pipes_inv :: "SyncProcessRunner \<Rightarrow> bool" where
  "pipes_inv s =
     (case pipes s of
        None \<Rightarrow> True
      | Some ps \<Rightarrow>
          list_all (\<lambda>i. case ps ! i of
                          None \<Rightarrow> True
                        | Some p \<Rightarrow> chain_ok p \<and> captured p = stored i (uv_calls s))
            [0..<length ps])"

text \<open>
  The chunking of a chain, on the list of its \<open>used\<close> counters. \<open>room\<close> is the size
  of the buffer the next allocation callback hands out: what is left of the last chunk,
  or a whole new chunk when there is none or the last one is full. \<open>fill us n\<close> are the
  counters once \<open>n\<close> bytes, no more than \<open>room us\<close>, have been committed.
\<close>

definition room :: "nat list \<Rightarrow> nat" where
  "room us = (if us = [] \<or> last us = kBufferSize then kBufferSize else kBufferSize - last us)"

definition fill :: "nat list \<Rightarrow> nat \<Rightarrow> nat list" where
  "fill us n = (if us = [] \<or> last us = kBufferSize then us @ [n] else butlast us @ [last us + n])"

text \<open>
  \<open>Kill\<close> returns on a runner that was killed before, and on one whose kill timer is
  as \<open>StopKillTimer\<close> asserts while libuv accepts every call (its script of results
  is empty); it is not called for the output while \<open>max_buffer = 0\<close>. \<open>is_read\<close> holds
  of the events of the read path that carry no error: bytes, and the end of the file.
\<close>

definition kill_returns :: "SyncProcessRunner \<Rightarrow> bool" where
  "kill_returns s =
     (max_buffer s = 0 \<or> killed s \<or>
      ((timeout s > 0) = kill_timer_initialized s \<and> uv_results s = []))"

fun is_read :: "uv_event \<Rightarrow> bool" where
  "is_read (ev_read i bs) = True"
| "is_read (ev_read_status i n) = (n = UV_EOF)"
| "is_read _ = False"

subsection \<open>Inputs for the examples\<close>

fun example_ToString :: "js_value \<Rightarrow> string" where
  "example_ToString JsUndefined = ''undefined''"
| "example_ToString JsNull = ''null''"
| "example_ToString (JsBoolean b) = (if b then ''true'' else ''false'')"
| "example_ToString (JsString s) = s"
| "example_ToString _ = ''[object Object]''"

definition example_host :: host_api where
  "example_host =
     \<lparr>ToString = example_ToString,
      ToInteger = (\<lambda>v. case v of JsBoolean True \<Rightarrow> 1 | _ \<Rightarrow> 0),
      signo_string = (\<lambda>n. if n = 15 then ''SIGTERM'' else if n = 9 then ''SIGKILL'' else [])\<rparr>"

definition chunk_of :: "string \<Rightarrow> SyncProcessOutputBuffer" where
  "chunk_of bs = \<lparr>data = bs @ replicate (kBufferSize - length bs) (CHR 0x00), used = length bs\<rparr>"

definition capture_pipe :: "SyncProcessOutputBuffer list \<Rightarrow> SyncProcessStdioPipe" where
  "capture_pipe chain =
     \<lparr>readable = False, writable = True, input_buffer = uv_buf_init NULL 0,
      output_buffers = chain, pipe_lifecycle = kStarted\<rparr>"

definition example_runner :: "int list \<Rightarrow> SyncProcessStdioPipe option list \<Rightarrow> SyncProcessRunner" where
  "example_runner script ps =
     (new_SyncProcessRunner script)
       \<lparr>lifecycle := rInitialized, uv_loop := True, stdio_count := length ps, pipes := Some ps\<rparr>"

definition overflow_state :: "int list \<Rightarrow> SyncProcessRunner" where
  "overflow_state script = (example_runner script [Some (capture_pipe [chunk_of [] ])])\<lparr>max_buffer := 1\<rparr>"

definition result_state :: SyncProcessRunner where
  "result_state =
     (example_runner [] [None, Some (capture_pipe [chunk_of ''hi'']), None])
       \<lparr>exit_status := 0, term_signal := 15\<rparr>"

definition stdio_pipe :: "bool \<Rightarrow> bool \<Rightarrow> string \<Rightarrow> SyncProcessStdioPipe" where
  "stdio_pipe rd wr input =
     \<lparr>readable = rd, writable = wr,
      input_buffer = uv_buf_init (HostData input) (length input),
      output_buffers = [], pipe_lifecycle = kInitialized\<rparr>"

definition start_outcome :: "(int \<times> SyncProcessRunner) option \<Rightarrow> (int \<times> uv_request list) option" where
  "start_outcome x = map_option (\<lambda>(r, s). (r, uv_calls s)) x"

definition decode_state :: "int list \<Rightarrow> nat \<Rightarrow> SyncProcessRunner" where
  "decode_state script n =
     (new_SyncProcessRunner script)
       \<lparr>lifecycle := rInitialized, uv_loop := True, stdio_count := n,
        pipes := Some (replicate n None), uv_stdio_containers := Some (replicate n None)\<rparr>"

definition pipe_option :: "js_value \<Rightarrow> js_value" where
  "pipe_option input =
     JsObject [(''type'', JsString ''pipe''), (''readable'', JsBoolean True),
               (''writable'', JsBoolean False), (''input'', input)]"

definition bad_stdio_options :: js_value where
  "bad_stdio_options =
     JsObject [(''file'', JsString ''/bin/true''),
               (''args'', JsArray [JsString ''true'']),
               (''stdio'', JsArray [JsObject [(''type'', JsString ''ignore'')], JsNumber 5])]"

definition env_cwd_options :: js_value where
  "env_cwd_options =
     JsObject [(''file'', JsString ''/bin/echo''),
               (''args'', JsArray [JsString ''echo'', JsString ''hi'']),
               (''cwd'', JsString ''/tmp''),
               (''envPairs'', JsArray [JsString ''A=1'']),
               (''stdio'', JsArray [])]"

definition timeout_options :: "js_value \<Rightarrow> js_value" where
  "timeout_options sig =
     JsObject [(''file'', JsString ''/bin/sleep''),
               (''args'', JsArray [JsString ''sleep'', JsString ''10'']),
               (''timeout'', JsNumber 50),
               (''killSignal'', sig),
               (''stdio'', JsArray [JsObject [(''type'', JsString ''ignore'')]])]"

definition capture_events :: "uv_event list" where
  "capture_events =
     [ev_read 1 ''ab'', ev_read_status 0 UV_EOF, ev_read 1 ''c'', ev_write_done 1 0,
      ev_read_status 1 UV_EOF, ev_exit 0 0]"

definition capture_state :: SyncProcessRunner where
  "capture_state = example_runner [] [None, Some (capture_pipe [])]"

definition boundary_state :: "nat \<Rightarrow> SyncProcessRunner" where
  \<comment> \<open>pipe 1 has read all but \<open>k\<close> bytes of one chunk\<close>
  "boundary_state k =
     (example_runner []
        [None, Some (capture_pipe [\<lparr>data = replicate kBufferSize (CHR ''x''),
                                    used = kBufferSize - k\<rparr>])])
       \<lparr>uv_calls := [uv_read_into 1 (replicate (kBufferSize - k) (CHR ''x''))]\<rparr>"

definition readable_pipe_options :: "js_value \<Rightarrow> js_value" where
  "readable_pipe_options input =
     JsObject [(''file'', JsString ''/bin/cat''),
               (''args'', JsArray [JsString ''cat'']),
               (''stdio'', JsArray [pipe_option input])]"

definition cat_options :: js_value where
  "cat_options =
     JsObject [(''file'', JsString ''/bin/cat''),
               (''args'', JsArray [JsString ''cat'']),
               (''stdio'', JsArray
                  [JsObject [(''type'', JsString ''pipe''), (''readable'', JsBoolean True),
                             (''writable'', JsBoolean False), (''input'', JsBuffer ''abc'')],
                   JsObject [(''type'', JsString ''pipe''), (''readable'', JsBoolean False),
                             (''writable'', JsBoolean True)],
                   JsObject [(''type'', JsString ''ignore'')]])]"

section \<open>Lemmas\<close>

subsection \<open>Calls into libuv\<close>

lemma call_uv_eq:
  "call_uv c s =
     (result_at 0 (uv_results s),
      s\<lparr>uv_results := drop 1 (uv_results s), uv_calls := uv_calls s @ [c]\<rparr>)"
  by (cases "uv_results s") (simp_all add: call_uv_def result_at_def)

lemma result_at_drop: "result_at k (drop n rs) = result_at (n + k) rs"
  by (auto simp: result_at_def)

subsection \<open>\<open>StopKillTimer\<close> and \<open>Kill\<close>\<close>

lemma StopKillTimer_eq:
  "StopKillTimer s =
     (if (timeout s > 0) \<noteq> kill_timer_initialized s then None
      else if \<not> kill_timer_initialized s then Some s
      else if result_at 0 (uv_results s) \<noteq> 0 then None
      else Some (s\<lparr>uv_results := drop 1 (uv_results s),
                   uv_calls := uv_calls s @ [uv_timer_stop]\<rparr>))"
  by (simp add: StopKillTimer_def assert_def call_uv_eq)

lemma StopKillTimer_frame:
  "StopKillTimer s = Some s' \<Longrightarrow>
     buffered_output_size s' = buffered_output_size s \<and> max_buffer s' = max_buffer s \<and>
     error s' = error s \<and> pipes s' = pipes s \<and> killed s' = killed s"
  by (auto simp: StopKillTimer_eq split: if_splits)

lemma Kill_killed: "killed s \<Longrightarrow> Kill s = Some s"
  by (simp add: Kill_def)

lemma Kill_first_ok:
  assumes nk: "\<not> killed s" and tm: "(timeout s > 0) = kill_timer_initialized s"
    and r1: "result_at 0 (uv_results s) = r1" and ok: "0 \<le> r1 \<or> r1 = UV_ESRCH"
    and ts: "kill_timer_initialized s \<Longrightarrow> result_at 1 (uv_results s) = 0"
  shows "Kill s = Some (s\<lparr>killed := True,
            uv_results := drop (if kill_timer_initialized s then 2 else 1) (uv_results s),
            uv_calls := uv_calls s @ [uv_process_kill (kill_signal s)]
               @ (if kill_timer_initialized s then [uv_timer_stop] else [])\<rparr>)"
proof -
  have c: "\<not> (r1 < 0 \<and> r1 \<noteq> UV_ESRCH)" using ok by auto
  show ?thesis
  proof (cases "kill_timer_initialized s")
    case True
    with nk tm r1 c ts [OF True] show ?thesis
      by (simp add: Kill_def call_uv_eq StopKillTimer_eq result_at_drop Let_def numeral_2_eq_2
               del: de_Morgan_conj)
  next
    case False
    with nk tm r1 c show ?thesis
      by (simp add: Kill_def call_uv_eq StopKillTimer_eq result_at_drop Let_def
               del: de_Morgan_conj)
  qed
qed

lemma Kill_retry_ok:
  assumes nk: "\<not> killed s" and tm: "(timeout s > 0) = kill_timer_initialized s"
    and r1: "result_at 0 (uv_results s) = r1" and bad: "r1 < 0" "r1 \<noteq> UV_ESRCH"
    and r2: "result_at 1 (uv_results s) = r2" and ok: "0 \<le> r2 \<or> r2 = UV_ESRCH"
    and ts: "kill_timer_initialized s \<Longrightarrow> result_at 2 (uv_results s) = 0"
  shows "Kill s = Some (s\<lparr>killed := True,
            error := (if error s = 0 then r1 else error s),
            uv_results := drop (if kill_timer_initialized s then 3 else 2) (uv_results s),
            uv_calls := uv_calls s
               @ [uv_process_kill (kill_signal s), uv_process_kill (kill_signal s)]
               @ (if kill_timer_initialized s then [uv_timer_stop] else [])\<rparr>)"
proof -
  have a: "assert (0 \<le> r2 \<or> r2 = UV_ESRCH) = Some ()" using ok by (simp add: assert_def)
  show ?thesis
  proof (cases "kill_timer_initialized s")
    case True
    with nk tm r1 bad r2 a ts [OF True] show ?thesis
      by (cases "error s = 0")
         (simp_all add: Kill_def call_uv_eq StopKillTimer_eq result_at_drop Let_def SetError_def
               numeral_2_eq_2 numeral_3_eq_3)
  next
    case False
    with nk tm r1 bad r2 a show ?thesis
      by (cases "error s = 0")
         (simp_all add: Kill_def call_uv_eq StopKillTimer_eq result_at_drop Let_def SetError_def
               numeral_2_eq_2 numeral_3_eq_3)
  qed
qed

lemma Kill_retry_refused:
  assumes nk: "\<not> killed s"
    and r1: "result_at 0 (uv_results s) = r1" and bad: "r1 < 0" "r1 \<noteq> UV_ESRCH"
    and r2: "result_at 1 (uv_results s) = r2" and bad2: "r2 < 0" "r2 \<noteq> UV_ESRCH"
  shows "Kill s = None"
proof -
  have a: "assert (0 \<le> r2 \<or> r2 = UV_ESRCH) = None" using bad2 by (simp add: assert_def)
  from nk r1 bad r2 a show ?thesis
    by (cases "error s = 0")
       (simp_all add: Kill_def call_uv_eq result_at_drop Let_def SetError_def)
qed

lemma Kill_frame:
  assumes "Kill s = Some s'"
  shows "buffered_output_size s' = buffered_output_size s \<and> max_buffer s' = max_buffer s
         \<and> pipes s' = pipes s"
proof (cases "killed s")
  case True
  with assms show ?thesis by (simp add: Kill_def)
next
  case False
  define r1 where "r1 = result_at 0 (uv_results s)"
  show ?thesis
  proof (cases "r1 < 0 \<and> r1 \<noteq> UV_ESRCH")
    case True
    with assms False obtain s1 where "StopKillTimer s1 = Some s'"
      and "buffered_output_size s1 = buffered_output_size s" "max_buffer s1 = max_buffer s"
          "pipes s1 = pipes s"
      by (auto simp: Kill_def call_uv_eq r1_def Let_def SetError_def assert_def
               split: if_splits Option.bind_splits)
    then show ?thesis using StopKillTimer_frame by metis
  next
    case c: False
    with assms False have "StopKillTimer (s\<lparr>killed := True, uv_results := drop 1 (uv_results s),
          uv_calls := uv_calls s @ [uv_process_kill (kill_signal s)]\<rparr>) = Some s'"
      by (simp add: Kill_def call_uv_eq r1_def Let_def del: de_Morgan_conj)
    from StopKillTimer_frame [OF this] show ?thesis by simp
  qed
qed

text \<open>
  \<open>Kill\<close> in full, where it returns. On a runner that is already \<open>killed\<close> it changes
  nothing and calls nothing. On the first call it sets \<open>killed\<close> and calls
  \<^verbatim>\<open>uv_process_kill\<close> with \<open>kill_signal\<close>. When that call succeeds or reports
  \<^verbatim>\<open>UV_ESRCH\<close>, nothing else is recorded. When it fails with another error, the error
  goes through \<open>SetError\<close> and \<^verbatim>\<open>uv_process_kill\<close> is called once more with the same
  \<open>kill_signal\<close>. Then the kill timer is stopped when there is one.
\<close>

lemma Kill_effect:
  "(killed s \<longrightarrow> Kill s = Some s) \<and>
   (\<not> killed s \<and> (timeout s > 0) = kill_timer_initialized s \<and>
    (0 \<le> result_at 0 (uv_results s) \<or> result_at 0 (uv_results s) = UV_ESRCH) \<and>
    (kill_timer_initialized s \<longrightarrow> result_at 1 (uv_results s) = 0) \<longrightarrow>
    Kill s = Some (s\<lparr>killed := True,
       uv_results := drop (if kill_timer_initialized s then 2 else 1) (uv_results s),
       uv_calls := uv_calls s @ [uv_process_kill (kill_signal s)]
                   @ (if kill_timer_initialized s then [uv_timer_stop] else [])\<rparr>)) \<and>
   (\<not> killed s \<and> (timeout s > 0) = kill_timer_initialized s \<and>
    result_at 0 (uv_results s) < 0 \<and> result_at 0 (uv_results s) \<noteq> UV_ESRCH \<and>
    (0 \<le> result_at 1 (uv_results s) \<or> result_at 1 (uv_results s) = UV_ESRCH) \<and>
    (kill_timer_initialized s \<longrightarrow> result_at 2 (uv_results s) = 0) \<longrightarrow>
    Kill s = Some (s\<lparr>killed := True,
       error := (if error s = 0 then result_at 0 (uv_results s) else error s),
       uv_results := drop (if kill_timer_initialized s then 3 else 2) (uv_results s),
       uv_calls := uv_calls s
                   @ [uv_process_kill (kill_signal s), uv_process_kill (kill_signal s)]
                   @ (if kill_timer_initialized s then [uv_timer_stop] else [])\<rparr>))"
proof (intro conjI impI)
  assume "killed s" then show "Kill s = Some s" by (rule Kill_killed)
next
  assume "\<not> killed s \<and> (timeout s > 0) = kill_timer_initialized s \<and>
    (0 \<le> result_at 0 (uv_results s) \<or> result_at 0 (uv_results s) = UV_ESRCH) \<and>
    (kill_timer_initialized s \<longrightarrow> result_at 1 (uv_results s) = 0)"
  then show "Kill s = Some (s\<lparr>killed := True,
       uv_results := drop (if kill_timer_initialized s then 2 else 1) (uv_results s),
       uv_calls := uv_calls s @ [uv_process_kill (kill_signal s)]
                   @ (if kill_timer_initialized s then [uv_timer_stop] else [])\<rparr>)"
    by (intro Kill_first_ok [OF _ _ refl]) blast+
next
  assume "\<not> killed s \<and> (timeout s > 0) = kill_timer_initialized s \<and>
    result_at 0 (uv_results s) < 0 \<and> result_at 0 (uv_results s) \<noteq> UV_ESRCH \<and>
    (0 \<le> result_at 1 (uv_results s) \<or> result_at 1 (uv_results s) = UV_ESRCH) \<and>
    (kill_timer_initialized s \<longrightarrow> result_at 2 (uv_results s) = 0)"
  then show "Kill s = Some (s\<lparr>killed := True,
       error := (if error s = 0 then result_at 0 (uv_results s) else error s),
       uv_results := drop (if kill_timer_initialized s then 3 else 2) (uv_results s),
       uv_calls := uv_calls s
                   @ [uv_process_kill (kill_signal s), uv_process_kill (kill_signal s)]
                   @ (if kill_timer_initialized s then [uv_timer_stop] else [])\<rparr>)"
    by (intro Kill_retry_ok [OF _ _ refl _ _ refl]) blast+
qed

subsection \<open>The output of a pipe\<close>

lemma length_valid_bytes: "chunk_ok b \<Longrightarrow> length (valid_bytes b) = used b"
  by (simp add: chunk_ok_def valid_bytes_def)

lemma length_captured_aux:
  "list_all chunk_ok bs \<Longrightarrow> length (concat (map valid_bytes bs)) = sum_list (map used bs)"
  by (induction bs) (simp_all add: length_valid_bytes)

lemma length_captured: "chain_ok p \<Longrightarrow> length (captured p) = sum_list (map used (output_buffers p))"
  by (simp add: chain_ok_def captured_def length_captured_aux)

lemma OutputLength_aux:
  "acc + sum_list (map used bs) < 2 ^ 64 \<Longrightarrow>
   foldl (\<lambda>size b. (size + used b) mod 2 ^ 64) acc bs = acc + sum_list (map used bs)"
proof (induction bs arbitrary: acc)
  case Nil
  then show ?case by simp
next
  case (Cons b bs)
  from Cons.prems have lt: "acc + used b < 2 ^ 64" by simp
  then have m: "(acc + used b) mod 2 ^ 64 = acc + used b" by simp
  from Cons.prems have "(acc + used b) + sum_list (map used bs) < 2 ^ 64" by simp
  from Cons.IH [OF this] m show ?case by (simp add: add.assoc)
qed

lemma OutputLength_sum:
  "sum_list (map used (output_buffers p)) < 2 ^ 64 \<Longrightarrow>
   OutputLength p = sum_list (map used (output_buffers p))"
  using OutputLength_aux [of 0 "output_buffers p"] by (simp add: OutputLength_def)

lemma CopyOutput_aux:
  assumes "list_all chunk_ok bs" "off + sum_list (map used bs) \<le> length dest"
    "off + sum_list (map used bs) < 2 ^ 64"
  shows "foldl (\<lambda>(dest, offset) b.
                   let (dest', n) = Copy b dest offset in (dest', (offset + n) mod 2 ^ 64))
           (dest, off) bs =
         (take off dest @ concat (map valid_bytes bs) @ drop (off + sum_list (map used bs)) dest,
          off + sum_list (map used bs))"
  using assms
proof (induction bs arbitrary: dest off)
  case Nil
  then show ?case by simp
next
  case (Cons b bs)
  let ?dest' = "memcpy dest off (data b) (used b)"
  let ?off' = "off + used b"
  from Cons.prems have ok: "chunk_ok b" and oks: "list_all chunk_ok bs" by simp_all
  have lv: "length (valid_bytes b) = used b" by (rule length_valid_bytes [OF ok])
  from Cons.prems have fit: "off + used b \<le> length dest" by simp
  have d': "?dest' = take off dest @ valid_bytes b @ drop (off + used b) dest"
    by (simp add: memcpy_def valid_bytes_def)
  have len': "length ?dest' = length dest" using fit lv by (simp add: d')
  from Cons.prems have lt: "off + used b < 2 ^ 64" by simp
  then have m: "(off + used b) mod 2 ^ 64 = ?off'" by simp
  have p1: "?off' + sum_list (map used bs) \<le> length ?dest'" using Cons.prems len' by simp
  have p2: "?off' + sum_list (map used bs) < 2 ^ 64" using Cons.prems by simp
  have tk: "take ?off' ?dest' = take off dest @ valid_bytes b"
    using fit lv by (simp add: d')
  have dr: "drop (?off' + sum_list (map used bs)) ?dest' =
            drop (off + sum_list (map used (b # bs))) dest"
    using fit lv by (simp add: d' ac_simps)
  have "foldl (\<lambda>(dest, offset) b.
                   let (dest', n) = Copy b dest offset in (dest', (offset + n) mod 2 ^ 64))
           (dest, off) (b # bs) =
        foldl (\<lambda>(dest, offset) b.
                   let (dest', n) = Copy b dest offset in (dest', (offset + n) mod 2 ^ 64))
           (?dest', ?off') bs"
    using m by (simp add: Copy_def)
  also have "\<dots> = (take ?off' ?dest' @ concat (map valid_bytes bs)
                     @ drop (?off' + sum_list (map used bs)) ?dest',
                   ?off' + sum_list (map used bs))"
    by (rule Cons.IH [OF oks p1 p2])
  also have "\<dots> = (take off dest @ concat (map valid_bytes (b # bs))
                     @ drop (off + sum_list (map used (b # bs))) dest,
                   off + sum_list (map used (b # bs)))"
    using tk dr by (simp add: add.assoc)
  finally show ?case .
qed

lemma GetOutputAsBuffer_captured:
  assumes "chain_ok p" "sum_list (map used (output_buffers p)) < 2 ^ 64"
  shows "GetOutputAsBuffer p = JsBuffer (captured p)"
proof -
  let ?n = "sum_list (map used (output_buffers p))"
  have ol: "OutputLength p = ?n" by (rule OutputLength_sum [OF assms(2)])
  have "foldl (\<lambda>(dest, offset) b.
                   let (dest', n) = Copy b dest offset in (dest', (offset + n) mod 2 ^ 64))
           (replicate ?n (CHR 0x00), 0) (output_buffers p) =
         (take 0 (replicate ?n (CHR 0x00)) @ concat (map valid_bytes (output_buffers p))
            @ drop (0 + ?n) (replicate ?n (CHR 0x00)), 0 + ?n)"
    using assms by (intro CopyOutput_aux) (simp_all add: chain_ok_def)
  then have "CopyOutput p (replicate ?n (CHR 0x00)) = captured p"
    by (simp add: CopyOutput_def captured_def)
  with ol show ?thesis by (simp add: GetOutputAsBuffer_def Let_def)
qed

lemma GetOutputAsBuffer_example:
  "GetOutputAsBuffer (capture_pipe [chunk_of ''hi'']) = JsBuffer ''hi''"
proof -
  have "GetOutputAsBuffer (capture_pipe [chunk_of ''hi'']) = JsBuffer (captured (capture_pipe [chunk_of ''hi'']))"
    by (rule GetOutputAsBuffer_captured)
       (simp_all add: chain_ok_def chunk_ok_def capture_pipe_def chunk_of_def kBufferSize_def)
  then show ?thesis
    by (simp add: captured_def valid_bytes_def capture_pipe_def chunk_of_def)
qed

subsection \<open>Output accounting\<close>

lemma IncrementBufferSizeAndCheckOverflow_eq:
  "IncrementBufferSizeAndCheckOverflow n s =
     (if 0 < max_buffer s \<and> max_buffer s < (buffered_output_size s + to_size_t n) mod 2 ^ 64
      then Kill (s\<lparr>buffered_output_size := (buffered_output_size s + to_size_t n) mod 2 ^ 64\<rparr>)
      else Some (s\<lparr>buffered_output_size := (buffered_output_size s + to_size_t n) mod 2 ^ 64\<rparr>))"
  by (simp add: IncrementBufferSizeAndCheckOverflow_def Let_def)

lemma Increment_frame:
  assumes "IncrementBufferSizeAndCheckOverflow n s = Some s'"
  shows "buffered_output_size s' = (buffered_output_size s + to_size_t n) mod 2 ^ 64
         \<and> max_buffer s' = max_buffer s \<and> pipes s' = pipes s"
proof (cases "0 < max_buffer s \<and> max_buffer s < (buffered_output_size s + to_size_t n) mod 2 ^ 64")
  case True
  with assms have "Kill (s\<lparr>buffered_output_size := (buffered_output_size s + to_size_t n) mod 2 ^ 64\<rparr>) = Some s'"
    by (simp add: IncrementBufferSizeAndCheckOverflow_eq del: de_Morgan_conj)
  from Kill_frame [OF this] show ?thesis by simp
next
  case False
  with assms have "s' = s\<lparr>buffered_output_size := (buffered_output_size s + to_size_t n) mod 2 ^ 64\<rparr>"
    by (simp add: IncrementBufferSizeAndCheckOverflow_eq del: de_Morgan_conj)
  then show ?thesis by simp
qed

lemma StdioPipe_OnRead_size:
  assumes "StdioPipe_OnRead i buf nread s = Some s'" "0 \<le> nread"
  shows "buffered_output_size s' = (buffered_output_size s + to_size_t nread) mod 2 ^ 64"
proof -
  from assms obtain s1 where "IncrementBufferSizeAndCheckOverflow nread s1 = Some s'"
    and "buffered_output_size s1 = buffered_output_size s"
    by (auto simp: StdioPipe_OnRead_def UV_EOF_def set_pipe_def Let_def
             split: Option.bind_splits if_splits)
  with Increment_frame [of nread s1 s'] show ?thesis by simp
qed

lemma StdioPipe_OnRead_eq:
  assumes gp: "get_pipe i s = Some p" and nn: "0 \<le> nread" and ne: "output_buffers p \<noteq> []"
    and bb: "base buf = ChunkData (length (output_buffers p) - 1) (used (last (output_buffers p)))"
  shows "StdioPipe_OnRead i buf nread s =
     (if 0 < max_buffer s \<and> max_buffer s < (buffered_output_size s + to_size_t nread) mod 2 ^ 64
      then Kill ((set_pipe i (committed p nread) s)
                   \<lparr>buffered_output_size := (buffered_output_size s + to_size_t nread) mod 2 ^ 64\<rparr>)
      else Some ((set_pipe i (committed p nread) s)
                   \<lparr>buffered_output_size := (buffered_output_size s + to_size_t nread) mod 2 ^ 64\<rparr>))"
proof -
  have a: "nread \<noteq> UV_EOF" "\<not> nread < 0" using nn by (simp_all add: UV_EOF_def)
  have b: "buffered_output_size (set_pipe i (committed p nread) s) = buffered_output_size s"
    "max_buffer (set_pipe i (committed p nread) s) = max_buffer s"
    by (simp_all add: set_pipe_def)
  have "StdioPipe_OnRead i buf nread s =
        IncrementBufferSizeAndCheckOverflow nread (set_pipe i (committed p nread) s)"
    using gp a ne bb
    by (simp add: StdioPipe_OnRead_def OutputBuffer_OnRead_def assert_def committed_def)
  then show ?thesis
    by (simp only: IncrementBufferSizeAndCheckOverflow_eq b)
qed

subsection \<open>The error slots and the result object\<close>

lemma error_latched: "error s \<noteq> 0 \<Longrightarrow> error (fold apply_error_call cs s) = error s"
proof (induction cs arbitrary: s)
  case Nil
  then show ?case by simp
next
  case (Cons c cs)
  have "error (apply_error_call c s) = error s" using Cons.prems
    by (cases c) (simp_all add: SetError_def SetPipeError_def)
  with Cons show ?case by simp
qed

lemma pipe_error_latched:
  "pipe_error s \<noteq> 0 \<Longrightarrow> pipe_error (fold apply_error_call cs s) = pipe_error s"
proof (induction cs arbitrary: s)
  case Nil
  then show ?case by simp
next
  case (Cons c cs)
  have "pipe_error (apply_error_call c s) = pipe_error s" using Cons.prems
    by (cases c) (simp_all add: SetError_def SetPipeError_def)
  with Cons show ?case by simp
qed

lemma BuildOutputArray_loop_Some:
  "BuildOutputArray_loop ps ixs = Some vs \<Longrightarrow>
     vs = map (\<lambda>i. output_entry (ps ! i)) ixs \<and> (\<forall>i\<in>set ixs. i < length ps)"
  by (induction ixs arbitrary: vs)
     (auto simp: assert_def Let_def split: if_splits Option.bind_splits)

lemma BuildOutputArray_loop_total:
  "\<forall>i\<in>set ixs. i < length ps \<Longrightarrow>
     BuildOutputArray_loop ps ixs = Some (map (\<lambda>i. output_entry (ps ! i)) ixs)"
  by (induction ixs) (auto simp: assert_def Let_def)

lemma BuildOutputArray_Some:
  assumes "BuildOutputArray s = Some v"
  shows "v = JsArray (map (\<lambda>i. output_entry (get_pipe i s)) [0..<stdio_count s])"
proof -
  from assms obtain ps vs where ps: "pipes s = Some ps"
    and l: "BuildOutputArray_loop ps [0..<stdio_count s] = Some vs" and v: "v = JsArray vs"
    by (auto simp: BuildOutputArray_def assert_def split: if_splits Option.bind_splits)
  from BuildOutputArray_loop_Some [OF l]
  have "vs = map (\<lambda>i. output_entry (ps ! i)) [0..<stdio_count s]"
    and "\<forall>i\<in>set [0..<stdio_count s]. i < length ps"
    by auto
  then have "vs = map (\<lambda>i. output_entry (get_pipe i s)) [0..<stdio_count s]"
    using ps by (auto simp: get_pipe_def)
  with v show ?thesis by simp
qed

lemma BuildOutputArray_total:
  assumes "pipes s = Some ps" "stdio_count s \<le> length ps" "lifecycle s \<noteq> rUninitialized"
  shows "BuildOutputArray s = Some (JsArray (map (\<lambda>i. output_entry (get_pipe i s)) [0..<stdio_count s]))"
proof -
  have "\<forall>i\<in>set [0..<stdio_count s]. i < length ps" using assms(2) by auto
  from BuildOutputArray_loop_total [OF this]
  have "BuildOutputArray_loop ps [0..<stdio_count s] = Some (map (\<lambda>i. output_entry (ps ! i)) [0..<stdio_count s])" .
  moreover have "map (\<lambda>i. output_entry (ps ! i)) [0..<stdio_count s] = map (\<lambda>i. output_entry (get_pipe i s)) [0..<stdio_count s]"
    using assms(1,2) by (auto simp: get_pipe_def)
  moreover have "runner_rank rInitialized \<le> runner_rank (lifecycle s)"
    using assms(3) by (cases "lifecycle s") simp_all
  ultimately show ?thesis using assms(1)
    by (simp add: BuildOutputArray_def assert_def)
qed

lemma upt_11: "[0..<11] = [0, 1, 2, 3, 4, 5, 6, 7, 8, 9, 10]"
  by (simp add: upt_rec)

lemma int64_to_double_exact [simp]:
  assumes "\<bar>n\<bar> \<le> 2 ^ 53"
  shows "int64_to_double n = n"
proof (cases "\<bar>n\<bar> = 2 ^ 53")
  case True
  then consider "n = 2 ^ 53" | "n = - (2 ^ 53)" by linarith
  then show ?thesis
  proof cases
    case 1
    show ?thesis unfolding 1 by (simp add: int64_to_double_def Let_def upt_11)
  next
    case 2
    show ?thesis unfolding 2 by (simp add: int64_to_double_def Let_def upt_11)
  qed
next
  case False
  with assms have lt: "\<bar>n\<bar> < 2 ^ 53" by simp
  have "\<And>k::nat. (2::int) ^ 53 \<le> 2 ^ (53 + k)" by (rule power_increasing) simp_all
  with lt have "\<And>k::nat. \<not> 2 ^ (53 + k) \<le> \<bar>n\<bar>" by (metis not_less order_trans)
  then have "filter (\<lambda>k. 2 ^ (53 + k) \<le> \<bar>n\<bar>) [0..<11] = []" by (simp add: filter_empty_conv)
  then show ?thesis
    by (simp add: int64_to_double_def Let_def del: upt_Suc) (simp add: sgn_if)
qed

lemma int64_to_double_rounds:
  "int64_to_double (2 ^ 53 + 1) = 2 ^ 53"
  "int64_to_double (2 ^ 53 + 3) = 2 ^ 53 + 4"
  "int64_to_double (2 ^ 63 - 1) = 2 ^ 63"
  by (simp_all add: int64_to_double_def Let_def upt_11)

lemma BuildResultObject_status:
  "BuildResultObject h s = Some res \<Longrightarrow>
   js_Get res ''status'' =
     (if exit_status s \<ge> 0 then JsNumber (int64_to_double (exit_status s)) else JsNull)"
  by (auto simp: BuildResultObject_def js_Set_def Let_def update_conv'
           split: if_splits Option.bind_splits)

lemma BuildResultObject_signal:
  "BuildResultObject h s = Some res \<Longrightarrow>
   js_Get res ''signal'' =
     (if term_signal s > 0 then JsString (signo_string h (term_signal s)) else JsNull)"
  by (auto simp: BuildResultObject_def js_Set_def Let_def update_conv'
           split: if_splits Option.bind_splits)

lemma BuildResultObject_error:
  "BuildResultObject h s = Some res \<Longrightarrow>
   js_Get res ''error'' = (if GetError s \<noteq> 0 then JsNumber (GetError s) else JsUndefined)"
  by (auto simp: BuildResultObject_def js_Set_def Let_def update_conv'
           split: if_splits Option.bind_splits)

lemma BuildResultObject_output:
  "BuildResultObject h s = Some res \<Longrightarrow>
   js_Get res ''output'' =
     (if exit_status s \<ge> 0
      then JsArray (map (\<lambda>i. output_entry (get_pipe i s)) [0..<stdio_count s]) else JsNull)"
  by (auto simp: BuildResultObject_def js_Set_def Let_def update_conv'
           dest!: BuildOutputArray_Some split: if_splits Option.bind_splits)

lemma BuildResultObject_total:
  assumes "exit_status s < 0 \<or>
     (\<exists>ps. pipes s = Some ps \<and> stdio_count s \<le> length ps \<and> lifecycle s \<noteq> rUninitialized)"
  shows "\<exists>res. BuildResultObject h s = Some res"
proof (cases "exit_status s < 0")
  case True
  then show ?thesis by (simp add: BuildResultObject_def Let_def)
next
  case False
  with assms obtain ps where "pipes s = Some ps" "stdio_count s \<le> length ps" "lifecycle s \<noteq> rUninitialized"
    by auto
  from BuildOutputArray_total [OF this] False show ?thesis
    by (simp add: BuildResultObject_def Let_def)
qed

subsection \<open>\<open>StdioPipe_Start\<close>\<close>

lemma Start_eq:
  assumes gp: "get_pipe i s = Some p" and lc: "pipe_lifecycle p = kInitialized"
    and nn: "0 < len (input_buffer p) \<longrightarrow> base (input_buffer p) \<noteq> NULL"
  shows "StdioPipe_Start i s =
    (let s0 = set_pipe i (p\<lparr>pipe_lifecycle := kStarted\<rparr>) s;
         (r, s1) = (if readable p \<and> 0 < len (input_buffer p)
                    then call_uv (uv_write i (input_buffer p)) s0 else (0, s0));
         (r, s2) = (if readable p \<and> \<not> r < 0 then call_uv (uv_shutdown i) s1 else (r, s1))
     in if r < 0 then Some (r, s2)
        else if writable p then
          (let (r, s3) = call_uv (uv_read_start i) s2 in Some (if r < 0 then r else 0, s3))
        else Some (0, s2))"
proof (cases "readable p")
  case True
  show ?thesis
  proof (cases "0 < len (input_buffer p)")
    case l: True
    with True gp lc nn [rule_format, OF l] show ?thesis
      by (simp add: StdioPipe_Start_def assert_def uv_pipe_def Let_def split_def)
  next
    case False
    with True gp lc show ?thesis
      by (simp add: StdioPipe_Start_def assert_def uv_pipe_def Let_def split_def)
  qed
next
  case False
  with gp lc show ?thesis
    by (simp add: StdioPipe_Start_def assert_def uv_pipe_def Let_def split_def)
qed

lemma call_uv_set_pipe:
  "call_uv c (set_pipe i p s) =
     (result_at 0 (uv_results s),
      (set_pipe i p s)\<lparr>uv_results := drop 1 (uv_results s), uv_calls := uv_calls s @ [c]\<rparr>)"
  by (simp add: call_uv_eq set_pipe_def)

lemma Start_all_accepted:
  assumes gp: "get_pipe i s = Some p" and lc: "pipe_lifecycle p = kInitialized"
    and nn: "0 < len (input_buffer p) \<longrightarrow> base (input_buffer p) \<noteq> NULL"
    and ok: "\<forall>k < length (write_request i p @ shutdown_request i p @ read_request i p).
               0 \<le> result_at k (uv_results s)"
  shows "StdioPipe_Start i s =
     Some (0, (set_pipe i (p\<lparr>pipe_lifecycle := kStarted\<rparr>) s)
       \<lparr>uv_results := drop (length (write_request i p @ shutdown_request i p @ read_request i p))
                         (uv_results s),
        uv_calls := uv_calls s @ write_request i p @ shutdown_request i p @ read_request i p\<rparr>)"
proof -
  have r0: "0 < length (write_request i p @ shutdown_request i p @ read_request i p) \<Longrightarrow>
            \<not> result_at 0 (uv_results s) < 0"
    using ok by (simp add: not_less)
  have r1: "1 < length (write_request i p @ shutdown_request i p @ read_request i p) \<Longrightarrow>
            \<not> result_at (Suc 0) (uv_results s) < 0"
    using ok by (simp add: not_less)
  have r2: "2 < length (write_request i p @ shutdown_request i p @ read_request i p) \<Longrightarrow>
            \<not> result_at (Suc (Suc 0)) (uv_results s) < 0"
    using ok by (simp add: not_less numeral_2_eq_2)
  show ?thesis
    using r0 r1 r2
    by (cases "readable p"; cases "0 < len (input_buffer p)"; cases "writable p")
       (simp_all add: Start_eq [OF gp lc nn] call_uv_set_pipe call_uv_eq result_at_drop
          write_request_def shutdown_request_def read_request_def set_pipe_def
          numeral_2_eq_2 numeral_3_eq_3)
qed

lemma Start_write_refused:
  assumes gp: "get_pipe i s = Some p" and lc: "pipe_lifecycle p = kInitialized"
    and nn: "0 < len (input_buffer p) \<longrightarrow> base (input_buffer p) \<noteq> NULL"
    and w: "readable p" "0 < len (input_buffer p)" and r: "result_at 0 (uv_results s) < 0"
  shows "StdioPipe_Start i s =
     Some (result_at 0 (uv_results s), (set_pipe i (p\<lparr>pipe_lifecycle := kStarted\<rparr>) s)
       \<lparr>uv_results := drop 1 (uv_results s),
        uv_calls := uv_calls s @ [uv_write i (input_buffer p)]\<rparr>)"
  using w r
  by (simp add: Start_eq [OF gp lc nn] call_uv_set_pipe)

lemma Start_shutdown_refused:
  assumes gp: "get_pipe i s = Some p" and lc: "pipe_lifecycle p = kInitialized"
    and nn: "0 < len (input_buffer p) \<longrightarrow> base (input_buffer p) \<noteq> NULL"
    and rd: "readable p"
    and w: "0 < len (input_buffer p) \<longrightarrow> 0 \<le> result_at 0 (uv_results s)"
    and r: "result_at (length (write_request i p)) (uv_results s) < 0"
  shows "StdioPipe_Start i s =
     Some (result_at (length (write_request i p)) (uv_results s),
       (set_pipe i (p\<lparr>pipe_lifecycle := kStarted\<rparr>) s)
       \<lparr>uv_results := drop (Suc (length (write_request i p))) (uv_results s),
        uv_calls := uv_calls s @ write_request i p @ [uv_shutdown i]\<rparr>)"
proof (cases "0 < len (input_buffer p)")
  case True
  from w [rule_format, OF True] have "\<not> result_at 0 (uv_results s) < 0" by simp
  with True rd r show ?thesis
    by (simp add: Start_eq [OF gp lc nn] call_uv_set_pipe call_uv_eq result_at_drop
          write_request_def set_pipe_def)
next
  case False
  with rd r show ?thesis
    by (simp add: Start_eq [OF gp lc nn] call_uv_set_pipe call_uv_eq result_at_drop
          write_request_def set_pipe_def)
qed

lemma Start_read_refused:
  assumes gp: "get_pipe i s = Some p" and lc: "pipe_lifecycle p = kInitialized"
    and nn: "0 < len (input_buffer p) \<longrightarrow> base (input_buffer p) \<noteq> NULL"
    and wr: "writable p"
    and ok: "\<forall>k < length (write_request i p @ shutdown_request i p).
               0 \<le> result_at k (uv_results s)"
    and r: "result_at (length (write_request i p @ shutdown_request i p)) (uv_results s) < 0"
  shows "StdioPipe_Start i s =
     Some (result_at (length (write_request i p @ shutdown_request i p)) (uv_results s),
       (set_pipe i (p\<lparr>pipe_lifecycle := kStarted\<rparr>) s)
       \<lparr>uv_results := drop (Suc (length (write_request i p @ shutdown_request i p))) (uv_results s),
        uv_calls := uv_calls s @ write_request i p @ shutdown_request i p @ [uv_read_start i]\<rparr>)"
proof -
  have r0: "0 < length (write_request i p @ shutdown_request i p) \<Longrightarrow>
            \<not> result_at 0 (uv_results s) < 0"
    using ok by (simp add: not_less)
  have r1: "1 < length (write_request i p @ shutdown_request i p) \<Longrightarrow>
            \<not> result_at (Suc 0) (uv_results s) < 0"
    using ok by (simp add: not_less)
  show ?thesis
    using r0 r1 r wr
    by (cases "readable p"; cases "0 < len (input_buffer p)")
       (simp_all add: Start_eq [OF gp lc nn] call_uv_set_pipe call_uv_eq result_at_drop
          write_request_def shutdown_request_def set_pipe_def
          numeral_2_eq_2 numeral_3_eq_3)
qed

subsection \<open>The options decoder\<close>

lemma decoder_frame_refl [simp]: "decoder_frame s s"
  by (simp add: decoder_frame_def)

lemma decoder_frame_trans: "decoder_frame s s1 \<Longrightarrow> decoder_frame s1 s2 \<Longrightarrow> decoder_frame s s2"
  by (simp add: decoder_frame_def)

lemma call_uv_frame: "call_uv c s = (r, s') \<Longrightarrow> decoder_frame s s'"
  by (auto simp: call_uv_eq decoder_frame_def)

lemma AddStdioIgnore_frame: "AddStdioIgnore fd s = Some (r, s') \<Longrightarrow> decoder_frame s s'"
  by (auto simp: AddStdioIgnore_def assert_def set_container_def decoder_frame_def
           split: if_splits Option.bind_splits)

lemma AddStdioInheritFD_frame: "AddStdioInheritFD fd n s = Some (r, s') \<Longrightarrow> decoder_frame s s'"
  by (auto simp: AddStdioInheritFD_def assert_def set_container_def decoder_frame_def
           split: if_splits Option.bind_splits)

lemma StdioPipe_Initialize_frame:
  "StdioPipe_Initialize i p s = Some (r, p', s') \<Longrightarrow> decoder_frame s s'"
  by (auto simp: StdioPipe_Initialize_def assert_def call_uv_eq decoder_frame_def
           split: if_splits Option.bind_splits)

lemma AddStdioPipe_frame: "AddStdioPipe fd rd wr b s = Some (r, s') \<Longrightarrow> decoder_frame s s'"
  by (auto simp: AddStdioPipe_def assert_def set_container_def set_pipe_def decoder_frame_def
           dest!: StdioPipe_Initialize_frame
           split: if_splits Option.bind_splits prod.splits)

lemma ParseStdioOption_frame:
  "ParseStdioOption h fd opt s = Some (r, s') \<Longrightarrow> decoder_frame s s'"
  by (auto simp: ParseStdioOption_def Let_def assert_def
           dest: AddStdioIgnore_frame AddStdioPipe_frame AddStdioInheritFD_frame
           split: if_splits Option.bind_splits)

lemma ParseStdioOptions_loop_frame:
  "ParseStdioOptions_loop h xs i s = Some (r, s') \<Longrightarrow> decoder_frame s s'"
proof (induction xs arbitrary: i s)
  case Nil
  then show ?case by simp
next
  case (Cons x xs)
  show ?case
  proof (cases "IsObject x")
    case False
    with Cons.prems show ?thesis by simp
  next
    case True
    with Cons.prems obtain r1 s1 where 1: "ParseStdioOption h i x s = Some (r1, s1)"
      and 2: "(if r1 < 0 then Some (r1, s1) else ParseStdioOptions_loop h xs (Suc i) s1) = Some (r, s')"
      by (auto split: Option.bind_splits)
    from 1 have f1: "decoder_frame s s1" by (rule ParseStdioOption_frame)
    show ?thesis
    proof (cases "r1 < 0")
      case True
      with 2 f1 show ?thesis by simp
    next
      case False
      with 2 have "ParseStdioOptions_loop h xs (Suc i) s1 = Some (r, s')" by simp
      from Cons.IH [OF this] f1 show ?thesis by (rule decoder_frame_trans [rotated])
    qed
  qed
qed

lemma ParseStdioOptions_frame:
  assumes "ParseStdioOptions h v s = Some (r, s')"
  shows "decoder_frame s s'"
proof (cases v)
  case (JsArray xs)
  let ?s0 = "s\<lparr>stdio_count := length xs, pipes := Some (replicate (length xs) None),
                uv_stdio_containers := Some (replicate (length xs) None)\<rparr>"
  from assms JsArray obtain r1 s1 where 1: "ParseStdioOptions_loop h xs 0 ?s0 = Some (r1, s1)"
    and 2: "decoder_frame s1 s'"
    by (auto simp: ParseStdioOptions_def Let_def decoder_frame_def split: Option.bind_splits if_splits)
  have "decoder_frame s ?s0" by (simp add: decoder_frame_def)
  with ParseStdioOptions_loop_frame [OF 1] 2 show ?thesis
    by (blast intro: decoder_frame_trans)
qed (use assms in \<open>auto simp: ParseStdioOptions_def\<close>)

lemma run_blocks_preserves:
  assumes "\<And>f s r s'. f \<in> set fs \<Longrightarrow> f s = Some (r, s') \<Longrightarrow> P s \<Longrightarrow> P s'"
  shows "run_blocks fs s = Some (r, s') \<Longrightarrow> P s \<Longrightarrow> P s'"
  using assms
proof (induction fs arbitrary: s)
  case Nil
  then show ?case by simp
next
  case (Cons f fs)
  show ?case
  proof (cases "f s")
    case None
    with Cons.prems(1) show ?thesis by simp
  next
    case (Some a)
    obtain ro s1 where a: "a = (ro, s1)" by (cases a)
    have p1: "P s1" using Cons.prems(3) [of f s ro s1] Some a Cons.prems(2) by simp
    show ?thesis
    proof (cases ro)
      case None
      with Some a Cons.prems(1) have "run_blocks fs s1 = Some (r, s')" by simp
      moreover have "\<And>g t q t'. g \<in> set fs \<Longrightarrow> g t = Some (q, t') \<Longrightarrow> P t \<Longrightarrow> P t'"
      proof -
        fix g t q t'
        assume "g \<in> set fs" "g t = Some (q, t')" "P t"
        then show "P t'" using Cons.prems(3) [of g t q t'] by simp
      qed
      ultimately show ?thesis using Cons.IH [of s1] p1 by blast
    next
      case (Some r1)
      with \<open>f s = Some a\<close> a Cons.prems(1) have "s' = s1" by simp
      with p1 show ?thesis by simp
    qed
  qed
qed

lemma ParseOptions_stdio_frame:
  "ParseOptions_stdio h v s = Some (r, s') \<Longrightarrow> decoder_frame s s'"
  by (auto simp: ParseOptions_stdio_def Let_def dest: ParseStdioOptions_frame
           split: Option.bind_splits if_splits prod.splits)

lemma blocks_kill_signal:
  "ParseOptions_file h v s = Some (r, s') \<Longrightarrow> kill_signal s' = kill_signal s"
  "ParseOptions_args h v s = Some (r, s') \<Longrightarrow> kill_signal s' = kill_signal s"
  "ParseOptions_cwd h v s = Some (r, s') \<Longrightarrow> kill_signal s' = kill_signal s"
  "ParseOptions_envPairs h v s = Some (r, s') \<Longrightarrow> kill_signal s' = kill_signal s"
  "ParseOptions_uid h v s = Some (r, s') \<Longrightarrow> kill_signal s' = kill_signal s"
  "ParseOptions_gid h v s = Some (r, s') \<Longrightarrow> kill_signal s' = kill_signal s"
  "ParseOptions_detached v s = Some (r, s') \<Longrightarrow> kill_signal s' = kill_signal s"
  "ParseOptions_windowsVerbatimArguments v s = Some (r, s') \<Longrightarrow> kill_signal s' = kill_signal s"
  "ParseOptions_timeout h v s = Some (r, s') \<Longrightarrow> kill_signal s' = kill_signal s"
  "ParseOptions_maxBuffer h v s = Some (r, s') \<Longrightarrow> kill_signal s' = kill_signal s"
  "ParseOptions_stdio h v s = Some (r, s') \<Longrightarrow> kill_signal s' = kill_signal s"
  "\<not> IsSet (js_Get v ''killSignal'') \<Longrightarrow> ParseOptions_killSignal h v s = Some (r, s')
     \<Longrightarrow> kill_signal s' = kill_signal s"
  by (auto simp: ParseOptions_file_def ParseOptions_args_def ParseOptions_cwd_def
        ParseOptions_envPairs_def ParseOptions_uid_def ParseOptions_gid_def
        ParseOptions_detached_def ParseOptions_windowsVerbatimArguments_def
        ParseOptions_timeout_def ParseOptions_maxBuffer_def ParseOptions_killSignal_def
        Let_def decoder_frame_def dest!: ParseOptions_stdio_frame
        split: if_splits prod.splits)

lemma blocks_env_cwd_unset:
  "ParseOptions_file h v s = Some (r, s') \<Longrightarrow> env_cwd_unset s \<Longrightarrow> env_cwd_unset s'"
  "ParseOptions_args h v s = Some (r, s') \<Longrightarrow> env_cwd_unset s \<Longrightarrow> env_cwd_unset s'"
  "ParseOptions_cwd h v s = Some (r, s') \<Longrightarrow> env_cwd_unset s \<Longrightarrow> env_cwd_unset s'"
  "ParseOptions_envPairs h v s = Some (r, s') \<Longrightarrow> env_cwd_unset s \<Longrightarrow> env_cwd_unset s'"
  "ParseOptions_uid h v s = Some (r, s') \<Longrightarrow> env_cwd_unset s \<Longrightarrow> env_cwd_unset s'"
  "ParseOptions_gid h v s = Some (r, s') \<Longrightarrow> env_cwd_unset s \<Longrightarrow> env_cwd_unset s'"
  "ParseOptions_detached v s = Some (r, s') \<Longrightarrow> env_cwd_unset s \<Longrightarrow> env_cwd_unset s'"
  "ParseOptions_windowsVerbatimArguments v s = Some (r, s') \<Longrightarrow> env_cwd_unset s \<Longrightarrow> env_cwd_unset s'"
  "ParseOptions_timeout h v s = Some (r, s') \<Longrightarrow> env_cwd_unset s \<Longrightarrow> env_cwd_unset s'"
  "ParseOptions_maxBuffer h v s = Some (r, s') \<Longrightarrow> env_cwd_unset s \<Longrightarrow> env_cwd_unset s'"
  "ParseOptions_killSignal h v s = Some (r, s') \<Longrightarrow> env_cwd_unset s \<Longrightarrow> env_cwd_unset s'"
  "ParseOptions_stdio h v s = Some (r, s') \<Longrightarrow> env_cwd_unset s \<Longrightarrow> env_cwd_unset s'"
  by (auto simp: ParseOptions_file_def ParseOptions_args_def ParseOptions_cwd_def
        ParseOptions_envPairs_def ParseOptions_uid_def ParseOptions_gid_def
        ParseOptions_detached_def ParseOptions_windowsVerbatimArguments_def
        ParseOptions_timeout_def ParseOptions_maxBuffer_def ParseOptions_killSignal_def
        Let_def decoder_frame_def env_cwd_unset_def CopyJsString_def bool_to_int_def
        dest!: ParseOptions_stdio_frame
        split: if_splits prod.splits)

lemma ParseOptions_kill_signal:
  assumes "\<not> IsSet (js_Get v ''killSignal'')" "ParseOptions h v s = Some (r, s')"
  shows "kill_signal s' = kill_signal s"
proof (cases "IsObject v")
  case False
  with assms show ?thesis by (simp add: ParseOptions_def)
next
  case True
  with assms(2) have rb: "run_blocks
        [ParseOptions_file h v, ParseOptions_args h v, ParseOptions_cwd h v,
         ParseOptions_envPairs h v, ParseOptions_uid h v, ParseOptions_gid h v,
         ParseOptions_detached v, ParseOptions_windowsVerbatimArguments v,
         ParseOptions_timeout h v, ParseOptions_maxBuffer h v,
         ParseOptions_killSignal h v, ParseOptions_stdio h v] s = Some (r, s')"
    by (simp add: ParseOptions_def)
  show ?thesis
    by (rule run_blocks_preserves [where P = "\<lambda>t. kill_signal t = kill_signal s", OF _ rb])
       (use assms(1) in \<open>auto dest: blocks_kill_signal\<close>)
qed

lemma ParseOptions_env_cwd_unset:
  assumes "ParseOptions h v s = Some (r, s')" "env_cwd_unset s"
  shows "env_cwd_unset s'"
proof (cases "IsObject v")
  case False
  with assms show ?thesis by (simp add: ParseOptions_def)
next
  case True
  with assms(1) have rb: "run_blocks
        [ParseOptions_file h v, ParseOptions_args h v, ParseOptions_cwd h v,
         ParseOptions_envPairs h v, ParseOptions_uid h v, ParseOptions_gid h v,
         ParseOptions_detached v, ParseOptions_windowsVerbatimArguments v,
         ParseOptions_timeout h v, ParseOptions_maxBuffer h v,
         ParseOptions_killSignal h v, ParseOptions_stdio h v] s = Some (r, s')"
    by (simp add: ParseOptions_def)
  show ?thesis
    by (rule run_blocks_preserves [where P = env_cwd_unset, OF _ rb assms(2)])
       (auto dest: blocks_env_cwd_unset)
qed

lemma StopKillTimer_calls:
  "StopKillTimer s = Some s' \<Longrightarrow>
     uv_calls s' = uv_calls s \<or> uv_calls s' = uv_calls s @ [uv_timer_stop]"
  by (auto simp: StopKillTimer_eq split: if_splits)

lemma Kill_calls:
  assumes "Kill s = Some s'" "uv_process_kill n \<in> set (uv_calls s')"
  shows "uv_process_kill n \<in> set (uv_calls s) \<or> n = kill_signal s"
proof (cases "killed s")
  case True
  with assms show ?thesis by (simp add: Kill_def)
next
  case False
  define r1 where "r1 = result_at 0 (uv_results s)"
  show ?thesis
  proof (cases "r1 < 0 \<and> r1 \<noteq> UV_ESRCH")
    case True
    with assms(1) False obtain s1 where "StopKillTimer s1 = Some s'"
      and "uv_calls s1 = uv_calls s @ [uv_process_kill (kill_signal s), uv_process_kill (kill_signal s)]"
      by (auto simp: Kill_def call_uv_eq r1_def Let_def SetError_def assert_def
               split: if_splits Option.bind_splits)
    with StopKillTimer_calls [of s1 s'] assms(2) show ?thesis by auto
  next
    case c: False
    with assms(1) False have "StopKillTimer (s\<lparr>killed := True, uv_results := drop 1 (uv_results s),
          uv_calls := uv_calls s @ [uv_process_kill (kill_signal s)]\<rparr>) = Some s'"
      by (simp add: Kill_def call_uv_eq r1_def Let_def del: de_Morgan_conj)
    from StopKillTimer_calls [OF this] assms(2) show ?thesis by auto
  qed
qed

subsection \<open>Evaluation\<close>

lemmas decoder_defs =
  ParseOptions_def ParseOptions_file_def ParseOptions_args_def ParseOptions_cwd_def
  ParseOptions_envPairs_def ParseOptions_uid_def ParseOptions_gid_def
  ParseOptions_detached_def ParseOptions_windowsVerbatimArguments_def
  ParseOptions_timeout_def ParseOptions_maxBuffer_def ParseOptions_killSignal_def
  ParseOptions_stdio_def ParseStdioOptions_def ParseStdioOption_def
  AddStdioIgnore_def AddStdioPipe_def AddStdioInheritFD_def
  new_SyncProcessStdioPipe_def StdioPipe_Initialize_def
  CopyJsString_def CopyJsStringArray_def js_string_bytes_def bool_to_int_def IsSet_def
  CheckRange_uint32_def Int32Value_def Uint32Value_def
  set_container_def get_pipe_def set_pipe_def uv_pipe_def uv_buf_init_def
  assert_def call_uv_def uv_void_def Let_def
  to_int32_def to_uint_def to_size_t_def
  UV_EINVAL_def UV_ENOMEM_def UV_ESRCH_def UV_ETIMEDOUT_def UV_EOF_def SIGTERM_def

lemmas runner_defs =
  Spawn_def Run_def TryInitializeAndRunLoop_def CloseHandlesAndDeleteLoop_def
  BuildResultObject_def BuildOutputArray_def output_entry_def destroy_SyncProcessRunner_def
  start_kill_timer_def CloseCallbacks_def StdioPipe_OnClose_def StdioPipe_Close_def
  StdioPipe_Start_def uv_dispatch_def OnExit_def OnKillTimerTimeout_def Kill_def
  StopKillTimer_def SetError_def SetPipeError_def GetError_def js_Set_def
  new_SyncProcessRunner_def new_uv_process_options_def example_host_def

lemma upt_2: "[0..<2] = [0, 1]"
  by (simp add: upt_rec)

subsection \<open>The read path\<close>

lemma stored_append: "stored i (xs @ ys) = stored i xs @ stored i ys"
  by (induction xs) simp_all

lemma pipes_inv_iff:
  "pipes_inv s \<longleftrightarrow>
     (\<forall>i p. get_pipe i s = Some p \<longrightarrow> chain_ok p \<and> captured p = stored i (uv_calls s))"
  by (cases "pipes s") (auto simp: pipes_inv_def get_pipe_def list_all_iff split: option.splits)

lemma pipes_inv_fresh:
  assumes "\<And>i p. get_pipe i s = Some p \<Longrightarrow> output_buffers p = []"
    and "\<And>i. stored i (uv_calls s) = []"
  shows "pipes_inv s"
  using assms by (simp add: pipes_inv_iff chain_ok_def captured_def)

lemma available_eq: "used b \<le> kBufferSize \<Longrightarrow> available b = kBufferSize - used b"
  by (simp add: available_def to_uint_def kBufferSize_def nat_diff_distrib' flip: of_nat_diff)

lemma chunk_ok_new: "chunk_ok new_SyncProcessOutputBuffer"
  by (simp add: chunk_ok_def new_SyncProcessOutputBuffer_def)

lemma valid_bytes_new: "valid_bytes new_SyncProcessOutputBuffer = []"
  by (simp add: valid_bytes_def new_SyncProcessOutputBuffer_def)

lemma OnAlloc_props:
  assumes ok: "chain_ok p" and a: "StdioPipe_OnAlloc n p = (buf, p1)"
  shows "chain_ok p1 \<and> captured p1 = captured p \<and> output_buffers p1 \<noteq> [] \<and>
         base buf = ChunkData (length (output_buffers p1) - 1) (used (last (output_buffers p1))) \<and>
         used (last (output_buffers p1)) + len buf = kBufferSize \<and> 0 < len buf"
proof (cases "output_buffers p = []")
  case True
  with a have p1: "p1 = p\<lparr>output_buffers := [new_SyncProcessOutputBuffer]\<rparr>"
    and buf: "buf = OutputBuffer_OnAlloc 0 new_SyncProcessOutputBuffer"
    by (auto simp: StdioPipe_OnAlloc_def Let_def)
  show ?thesis using True
    by (simp add: p1 buf chain_ok_def captured_def chunk_ok_new valid_bytes_new
          OutputBuffer_OnAlloc_def uv_buf_init_def available_def to_uint_def)
       (simp add: new_SyncProcessOutputBuffer_def kBufferSize_def)
next
  case False
  then have lok: "chunk_ok (last (output_buffers p))"
    using ok by (simp add: chain_ok_def list_all_iff)
  then have av: "available (last (output_buffers p)) = kBufferSize - used (last (output_buffers p))"
    and le: "used (last (output_buffers p)) \<le> kBufferSize"
    by (simp_all add: available_eq chunk_ok_def)
  show ?thesis
  proof (cases "available (last (output_buffers p)) = 0")
    case True
    with False a have p1: "p1 = p\<lparr>output_buffers := output_buffers p @ [new_SyncProcessOutputBuffer]\<rparr>"
      and buf: "buf = OutputBuffer_OnAlloc (length (output_buffers p)) new_SyncProcessOutputBuffer"
      by (auto simp: StdioPipe_OnAlloc_def Let_def)
    show ?thesis using ok
      by (simp add: p1 buf chain_ok_def captured_def chunk_ok_new valid_bytes_new
            OutputBuffer_OnAlloc_def uv_buf_init_def available_def to_uint_def)
         (simp add: new_SyncProcessOutputBuffer_def kBufferSize_def)
  next
    case nz: False
    with False a have p1: "p1 = p"
      and buf: "buf = OutputBuffer_OnAlloc (length (output_buffers p) - 1) (last (output_buffers p))"
      by (auto simp: StdioPipe_OnAlloc_def Let_def)
    from nz av le have "used (last (output_buffers p)) \<noteq> kBufferSize"
      and "used (last (output_buffers p)) < kBufferSize" by simp_all
    then show ?thesis using ok False av le
      by (simp add: p1 buf OutputBuffer_OnAlloc_def uv_buf_init_def)
  qed
qed

lemma chunk_commit:
  assumes ok: "chunk_ok b" and fit: "used b + length piece \<le> kBufferSize"
  shows "chunk_ok (b\<lparr>data := memcpy (data b) (used b) piece (length piece), used := used b + length piece\<rparr>)"
    and "valid_bytes (b\<lparr>data := memcpy (data b) (used b) piece (length piece), used := used b + length piece\<rparr>)
           = valid_bytes b @ piece"
  using assms by (simp_all add: chunk_ok_def valid_bytes_def memcpy_def)

lemma captured_last:
  assumes "output_buffers p \<noteq> []"
  shows "captured (p\<lparr>output_buffers := butlast (output_buffers p) @ [b]\<rparr>) =
         concat (map valid_bytes (butlast (output_buffers p))) @ valid_bytes b"
    and "captured p = concat (map valid_bytes (butlast (output_buffers p)))
           @ valid_bytes (last (output_buffers p))"
proof -
  show "captured (p\<lparr>output_buffers := butlast (output_buffers p) @ [b]\<rparr>) =
         concat (map valid_bytes (butlast (output_buffers p))) @ valid_bytes b"
    by (simp add: captured_def)
  have "output_buffers p = butlast (output_buffers p) @ [last (output_buffers p)]"
    using assms by simp
  then have "captured p = concat (map valid_bytes (butlast (output_buffers p) @ [last (output_buffers p)]))"
    by (simp add: captured_def)
  then show "captured p = concat (map valid_bytes (butlast (output_buffers p)))
           @ valid_bytes (last (output_buffers p))"
    by simp
qed

lemma get_pipe_set_same: "get_pipe i s = Some p \<Longrightarrow> get_pipe i (set_pipe i q s) = Some q"
  by (auto simp: get_pipe_def set_pipe_def split: option.splits if_splits)

lemma get_pipe_set_other: "j \<noteq> i \<Longrightarrow> get_pipe j (set_pipe i q s) = get_pipe j s"
  by (auto simp: get_pipe_def set_pipe_def split: option.splits)

lemma uv_calls_set_pipe [simp]: "uv_calls (set_pipe i q s) = uv_calls s"
  by (simp add: set_pipe_def)

lemma get_pipe_uv_void [simp]: "get_pipe i (uv_void c s) = get_pipe i s"
  by (simp add: get_pipe_def uv_void_def)

lemma uv_calls_uv_void [simp]: "uv_calls (uv_void c s) = uv_calls s @ [c]"
  by (simp add: uv_void_def)

lemma set_pipe_uv_void: "set_pipe i q (uv_void c s) = uv_void c (set_pipe i q s)"
  by (simp add: set_pipe_def uv_void_def)

lemma set_pipe_twice [simp]: "set_pipe i q (set_pipe i p s) = set_pipe i q s"
  by (cases "pipes s") (simp_all add: set_pipe_def)

lemma update_last: "xs \<noteq> [] \<Longrightarrow> xs[length xs - 1 := x] = butlast xs @ [x]"
  by (induction xs rule: rev_induct) (simp_all add: list_update_append)

lemma StopKillTimer_stored:
  "StopKillTimer s = Some s' \<Longrightarrow> stored i (uv_calls s') = stored i (uv_calls s)"
  by (auto simp: StopKillTimer_eq stored_append split: if_splits)

lemma Kill_stored:
  assumes "Kill s = Some s'"
  shows "stored i (uv_calls s') = stored i (uv_calls s)"
proof (cases "killed s")
  case True
  with assms show ?thesis by (simp add: Kill_def)
next
  case False
  define r1 where "r1 = result_at 0 (uv_results s)"
  show ?thesis
  proof (cases "r1 < 0 \<and> r1 \<noteq> UV_ESRCH")
    case True
    with assms False obtain s1 where "StopKillTimer s1 = Some s'"
      and "uv_calls s1 = uv_calls s @ [uv_process_kill (kill_signal s), uv_process_kill (kill_signal s)]"
      by (auto simp: Kill_def call_uv_eq r1_def Let_def SetError_def assert_def
               split: if_splits Option.bind_splits)
    with StopKillTimer_stored [of s1 s' i] show ?thesis by (simp add: stored_append)
  next
    case c: False
    with assms False have "StopKillTimer (s\<lparr>killed := True, uv_results := drop 1 (uv_results s),
          uv_calls := uv_calls s @ [uv_process_kill (kill_signal s)]\<rparr>) = Some s'"
      by (simp add: Kill_def call_uv_eq r1_def Let_def del: de_Morgan_conj)
    from StopKillTimer_stored [OF this, of i] show ?thesis by (simp add: stored_append)
  qed
qed

lemma Increment_stored:
  assumes "IncrementBufferSizeAndCheckOverflow n s = Some s'"
  shows "stored i (uv_calls s') = stored i (uv_calls s) \<and> pipes s' = pipes s"
proof (cases "0 < max_buffer s \<and> max_buffer s < (buffered_output_size s + to_size_t n) mod 2 ^ 64")
  case True
  with assms have k: "Kill (s\<lparr>buffered_output_size := (buffered_output_size s + to_size_t n) mod 2 ^ 64\<rparr>) = Some s'"
    by (simp add: IncrementBufferSizeAndCheckOverflow_eq del: de_Morgan_conj)
  from Kill_stored [OF k, of i] Kill_frame [OF k] show ?thesis by simp
next
  case False
  with assms have "s' = s\<lparr>buffered_output_size := (buffered_output_size s + to_size_t n) mod 2 ^ 64\<rparr>"
    by (simp add: IncrementBufferSizeAndCheckOverflow_eq del: de_Morgan_conj)
  then show ?thesis by simp
qed

lemma pipes_inv_same_pipes:
  "pipes s' = pipes s \<Longrightarrow> (\<And>i. stored i (uv_calls s') = stored i (uv_calls s)) \<Longrightarrow>
   pipes_inv s \<Longrightarrow> pipes_inv s'"
  by (simp add: pipes_inv_iff get_pipe_def)

lemma pipes_inv_update:
  assumes inv: "pipes_inv s" and gp: "get_pipe i s = Some p"
    and ok: "chain_ok q" and cap: "captured q = captured p @ x"
    and ps: "pipes s' = pipes (set_pipe i q s)"
    and calls: "\<And>j. stored j (uv_calls s') = stored j (uv_calls s) @ (if j = i then x else [])"
  shows "pipes_inv s'"
  unfolding pipes_inv_iff
proof (intro allI impI)
  fix j r
  assume g: "get_pipe j s' = Some r"
  have e: "get_pipe j s' = get_pipe j (set_pipe i q s)" using ps by (simp add: get_pipe_def)
  show "chain_ok r \<and> captured r = stored j (uv_calls s')"
  proof (cases "j = i")
    case True
    with g e gp have "r = q" by (simp add: get_pipe_set_same)
    moreover have "captured p = stored i (uv_calls s)" using inv gp by (simp add: pipes_inv_iff)
    ultimately show ?thesis using ok cap calls [of i] True by simp
  next
    case False
    with g e have "get_pipe j s = Some r" by (simp add: get_pipe_set_other)
    with inv have "chain_ok r \<and> captured r = stored j (uv_calls s)" by (simp add: pipes_inv_iff)
    with calls [of j] False show ?thesis by simp
  qed
qed

lemma to_size_t_nat [simp]: "n < 2 ^ 64 \<Longrightarrow> to_size_t (int n) = n"
  by (simp add: to_size_t_def flip: of_nat_power of_nat_mod)

lemma to_uint_nat [simp]: "n < 2 ^ 32 \<Longrightarrow> to_uint (int n) = n"
  by (simp add: to_uint_def flip: of_nat_power of_nat_mod)

lemma OnAlloc_shape:
  assumes ok: "chain_ok p" and a: "StdioPipe_OnAlloc n p = (buf, p1)"
  shows "len buf = room (map used (output_buffers p))"
    and "map used (output_buffers p1) =
           (if output_buffers p = [] \<or> used (last (output_buffers p)) = kBufferSize
            then map used (output_buffers p) @ [0] else map used (output_buffers p))"
proof -
  have "len buf = room (map used (output_buffers p)) \<and>
        map used (output_buffers p1) =
           (if output_buffers p = [] \<or> used (last (output_buffers p)) = kBufferSize
            then map used (output_buffers p) @ [0] else map used (output_buffers p))"
  proof (cases "output_buffers p = []")
    case True
    with a have p1: "p1 = p\<lparr>output_buffers := [new_SyncProcessOutputBuffer]\<rparr>"
      and buf: "buf = OutputBuffer_OnAlloc 0 new_SyncProcessOutputBuffer"
      by (auto simp: StdioPipe_OnAlloc_def Let_def)
    show ?thesis using True
      by (simp add: p1 buf room_def OutputBuffer_OnAlloc_def uv_buf_init_def available_def to_uint_def)
         (simp add: new_SyncProcessOutputBuffer_def kBufferSize_def)
  next
    case False
    then have lok: "chunk_ok (last (output_buffers p))"
      using ok by (simp add: chain_ok_def list_all_iff)
    then have av: "available (last (output_buffers p)) = kBufferSize - used (last (output_buffers p))"
      and le: "used (last (output_buffers p)) \<le> kBufferSize"
      by (simp_all add: available_eq chunk_ok_def)
    have lm: "last (map used (output_buffers p)) = used (last (output_buffers p))"
      using False by (simp add: last_map)
    show ?thesis
    proof (cases "available (last (output_buffers p)) = 0")
      case True
      with False a have p1: "p1 = p\<lparr>output_buffers := output_buffers p @ [new_SyncProcessOutputBuffer]\<rparr>"
        and buf: "buf = OutputBuffer_OnAlloc (length (output_buffers p)) new_SyncProcessOutputBuffer"
        by (auto simp: StdioPipe_OnAlloc_def Let_def)
      from True av le have full: "used (last (output_buffers p)) = kBufferSize" by simp
      show ?thesis using False full lm
        by (simp add: p1 buf room_def OutputBuffer_OnAlloc_def uv_buf_init_def available_def to_uint_def)
           (simp add: new_SyncProcessOutputBuffer_def kBufferSize_def)
    next
      case nz: False
      with False a have p1: "p1 = p"
        and buf: "buf = OutputBuffer_OnAlloc (length (output_buffers p) - 1) (last (output_buffers p))"
        by (auto simp: StdioPipe_OnAlloc_def Let_def)
      from nz av le have "used (last (output_buffers p)) \<noteq> kBufferSize" by simp
      then show ?thesis using False av lm
        by (simp add: p1 buf room_def OutputBuffer_OnAlloc_def uv_buf_init_def)
    qed
  qed
  then show "len buf = room (map used (output_buffers p))"
    and "map used (output_buffers p1) =
           (if output_buffers p = [] \<or> used (last (output_buffers p)) = kBufferSize
            then map used (output_buffers p) @ [0] else map used (output_buffers p))"
    by simp_all
qed

lemma dispatch_read_eq:
  assumes inv: "pipes_inv s" and gp: "get_pipe i s = Some p"
    and piece: "piece = take (room (map used (output_buffers p))) bs"
  shows "\<exists>q. chain_ok q \<and> captured q = captured p @ piece \<and>
           map used (output_buffers q) = fill (map used (output_buffers p)) (length piece) \<and>
           uv_dispatch (ev_read i bs) s =
             IncrementBufferSizeAndCheckOverflow (int (length piece))
               (uv_void (uv_read_into i piece) (set_pipe i q s))"
proof -
  obtain buf p1 where a: "StdioPipe_OnAlloc 65536 p = (buf, p1)" by (cases "StdioPipe_OnAlloc 65536 p")
  define c1 where "c1 = output_buffers p1"
  define lb where "lb = last c1"
  define pos where "pos = length c1 - 1"
  define D where "D = memcpy (data lb) (used lb) piece (length piece)"
  define p2 where "p2 = p1\<lparr>output_buffers := butlast c1 @ [lb\<lparr>data := D\<rparr>]\<rparr>"
  define b3 where "b3 = lb\<lparr>data := D, used := used lb + length piece\<rparr>"
  define p3 where "p3 = p1\<lparr>output_buffers := butlast c1 @ [b3]\<rparr>"
  have okp: "chain_ok p" using inv gp by (simp add: pipes_inv_iff)
  from OnAlloc_props [OF okp a]
  have ok1: "chain_ok p1" and cap1: "captured p1 = captured p" and ne: "c1 \<noteq> []"
    and bb: "base buf = ChunkData pos (used lb)" and ul: "used lb + len buf = kBufferSize"
    and lpos: "0 < len buf"
    by (simp_all add: c1_def lb_def pos_def)
  from OnAlloc_shape [OF okp a]
  have lenb: "len buf = room (map used (output_buffers p))"
    and shape: "map used c1 =
           (if output_buffers p = [] \<or> used (last (output_buffers p)) = kBufferSize
            then map used (output_buffers p) @ [0] else map used (output_buffers p))"
    by (simp_all add: c1_def)
  have pc: "piece = take (len buf) bs" using piece lenb by simp
  have lp: "length piece \<le> len buf" by (simp add: pc)
  have fit: "used lb + length piece \<le> kBufferSize" using lp ul by simp
  have small: "length piece < 2 ^ 64" "length piece < 2 ^ 32" "used lb + length piece < 2 ^ 32"
    using fit by (simp_all add: kBufferSize_def)
  have oklb: "chunk_ok lb" using ok1 ne by (simp add: chain_ok_def list_all_iff c1_def lb_def)
  have okbl: "list_all chunk_ok (butlast c1)"
    using ok1 by (auto simp: chain_ok_def list_all_iff c1_def dest: in_set_butlastD)
  have nth: "c1 ! pos = lb" using ne by (simp add: pos_def lb_def last_conv_nth)
  have posl: "pos < length c1" using ne by (simp add: pos_def)
  have upd: "\<And>x. c1[pos := x] = butlast c1 @ [x]" using ne update_last [of c1] by (simp add: pos_def)
  have s1: "AllocCallback i 65536 s = Some (buf, set_pipe i p1 s)"
    using gp a by (simp add: AllocCallback_def)
  have s2: "uv_store i buf piece (set_pipe i p1 s) =
            uv_void (uv_read_into i piece) (set_pipe i p2 s)"
    using gp bb posl nth upd
    by (simp add: uv_store_def Let_def get_pipe_set_same set_pipe_uv_void [symmetric]
          c1_def [symmetric] p2_def D_def)
  have g2: "get_pipe i (uv_void (uv_read_into i piece) (set_pipe i p2 s)) = Some p2"
    using gp by (simp add: get_pipe_set_same)
  have commit: "OutputBuffer_OnRead pos buf (to_size_t (int (length piece))) (lb\<lparr>data := D\<rparr>) = Some b3"
    using bb small by (simp add: OutputBuffer_OnRead_def assert_def b3_def)
  have rd: "StdioPipe_OnRead i buf (int (length piece))
              (uv_void (uv_read_into i piece) (set_pipe i p2 s)) =
            IncrementBufferSizeAndCheckOverflow (int (length piece))
              (uv_void (uv_read_into i piece) (set_pipe i p3 s))"
    using g2 commit ne
    by (simp add: StdioPipe_OnRead_def UV_EOF_def p2_def p3_def pos_def assert_def
          set_pipe_uv_void [symmetric])
  from gp s1 s2 rd
  have eq: "uv_dispatch (ev_read i bs) s =
      IncrementBufferSizeAndCheckOverflow (int (length piece))
              (uv_void (uv_read_into i piece) (set_pipe i p3 s))"
    by (simp add: uv_dispatch_def ReadCallback_def pc Let_def)
  have ok3: "chain_ok p3"
    using okbl chunk_commit(1) [OF oklb fit] by (simp add: chain_ok_def p3_def b3_def D_def)
  have "captured p3 = concat (map valid_bytes (butlast c1)) @ valid_bytes lb @ piece"
    using chunk_commit(2) [OF oklb fit] by (simp add: captured_def p3_def b3_def D_def)
  also have "\<dots> = captured p1 @ piece"
    using captured_last(2) [of p1] ne by (simp add: c1_def lb_def)
  finally have cap3: "captured p3 = captured p @ piece" using cap1 by simp
  have "map used (output_buffers p3) = butlast (map used c1) @ [last (map used c1) + length piece]"
    using ne by (simp add: p3_def b3_def lb_def map_butlast last_map)
  also have "\<dots> = fill (map used (output_buffers p)) (length piece)"
    by (cases "output_buffers p = []") (simp_all add: shape fill_def last_map)
  finally have sh3: "map used (output_buffers p3) = fill (map used (output_buffers p)) (length piece)" .
  from ok3 cap3 sh3 eq show ?thesis by blast
qed

lemma dispatch_read_effect:
  assumes inv: "pipes_inv s" and gp: "get_pipe i s = Some p"
    and d: "uv_dispatch (ev_read i bs) s = Some s'"
  shows "\<exists>n q. 0 < n \<and> chain_ok q \<and> captured q = captured p @ take n bs \<and>
           pipes s' = pipes (set_pipe i q s) \<and>
           (\<forall>j. stored j (uv_calls s') = stored j (uv_calls s) @ (if j = i then take n bs else []))"
proof -
  define n where "n = room (map used (output_buffers p))"
  obtain buf p1 where a: "StdioPipe_OnAlloc 65536 p = (buf, p1)" by (cases "StdioPipe_OnAlloc 65536 p")
  have okp: "chain_ok p" using inv gp by (simp add: pipes_inv_iff)
  from OnAlloc_props [OF okp a] OnAlloc_shape(1) [OF okp a] have pos: "0 < n" by (simp add: n_def)
  from dispatch_read_eq [OF inv gp refl, of bs] obtain q where ok: "chain_ok q"
    and cap: "captured q = captured p @ take n bs"
    and eq: "uv_dispatch (ev_read i bs) s =
             IncrementBufferSizeAndCheckOverflow (int (length (take n bs)))
               (uv_void (uv_read_into i (take n bs)) (set_pipe i q s))"
    unfolding n_def by blast
  from d eq have inc: "IncrementBufferSizeAndCheckOverflow (int (length (take n bs)))
               (uv_void (uv_read_into i (take n bs)) (set_pipe i q s)) = Some s'"
    by simp
  from Increment_stored [OF inc]
  have st: "\<And>j. stored j (uv_calls s') = stored j (uv_calls s @ [uv_read_into i (take n bs)])"
    and ps: "pipes s' = pipes (set_pipe i q s)"
    by (simp_all add: uv_void_def)
  have "\<forall>j. stored j (uv_calls s') = stored j (uv_calls s) @ (if j = i then take n bs else [])"
    by (simp add: st stored_append)
  with pos ok cap ps show ?thesis by blast
qed

lemma dispatch_read_inv:
  assumes inv: "pipes_inv s" and gp: "get_pipe i s = Some p"
    and d: "uv_dispatch (ev_read i bs) s = Some s'"
  shows "pipes_inv s'"
proof -
  from dispatch_read_effect [OF assms] obtain n q where
    "chain_ok q" "captured q = captured p @ take n bs" "pipes s' = pipes (set_pipe i q s)"
    "\<And>j. stored j (uv_calls s') = stored j (uv_calls s) @ (if j = i then take n bs else [])"
    by blast
  then show ?thesis by (intro pipes_inv_update [OF inv gp]) 
qed

lemma dispatch_read_status_inv:
  assumes inv: "pipes_inv s" and d: "uv_dispatch (ev_read_status i n) s = Some s'"
  shows "pipes_inv s'"
proof (cases "get_pipe i s = None \<or> 0 \<le> n")
  case True
  with d have "s' = s" by (auto simp: uv_dispatch_def)
  with inv show ?thesis by simp
next
  case False
  then obtain p where gp: "get_pipe i s = Some p" and neg: "n < 0" by auto
  obtain buf p1 where a: "StdioPipe_OnAlloc 65536 p = (buf, p1)" by (cases "StdioPipe_OnAlloc 65536 p")
  have okp: "chain_ok p" using inv gp by (simp add: pipes_inv_iff)
  from OnAlloc_props [OF okp a]
  have ok1: "chain_ok p1" and cap1: "captured p1 = captured p @ []" by simp_all
  have g1: "get_pipe i (set_pipe i p1 s) = Some p1" using gp by (simp add: get_pipe_set_same)
  from d gp neg a have rd: "StdioPipe_OnRead i buf n (set_pipe i p1 s) = Some s'"
    by (simp add: uv_dispatch_def AllocCallback_def ReadCallback_def)
  have "pipes s' = pipes (set_pipe i p1 s) \<and>
        (\<forall>j. stored j (uv_calls s') = stored j (uv_calls s))"
    using rd g1 neg
    by (auto simp: StdioPipe_OnRead_def StdioPipe_SetError_def SetPipeError_def assert_def
          uv_void_def set_pipe_def stored_append
          split: if_splits Option.bind_splits)
  then show ?thesis
    by (intro pipes_inv_update [OF inv gp ok1 cap1]) simp_all
qed

lemma SetPipeError_inv: "pipes_inv s \<Longrightarrow> pipes_inv (SetPipeError e s)"
  by (simp add: SetPipeError_def pipes_inv_iff get_pipe_def)

lemma SetError_inv: "pipes_inv s \<Longrightarrow> pipes_inv (SetError e s)"
  by (simp add: SetError_def pipes_inv_iff get_pipe_def)

lemma StopKillTimer_inv: "StopKillTimer s = Some s' \<Longrightarrow> pipes_inv s \<Longrightarrow> pipes_inv s'"
  using StopKillTimer_frame [of s s'] StopKillTimer_stored [of s s']
  by (intro pipes_inv_same_pipes [of s' s]) simp_all

lemma Kill_inv: "Kill s = Some s' \<Longrightarrow> pipes_inv s \<Longrightarrow> pipes_inv s'"
  using Kill_frame [of s s'] Kill_stored [of s s']
  by (intro pipes_inv_same_pipes [of s' s]) simp_all

lemma uv_dispatch_inv:
  assumes d: "uv_dispatch e s = Some s'" and inv: "pipes_inv s"
  shows "pipes_inv s'"
proof (cases e)
  case (ev_read i bs)
  show ?thesis
  proof (cases "get_pipe i s")
    case None
    with d ev_read have "s' = s" by (simp add: uv_dispatch_def)
    with inv show ?thesis by simp
  next
    case (Some p)
    from dispatch_read_inv [OF inv Some] d ev_read show ?thesis by simp
  qed
next
  case (ev_read_status i n)
  with dispatch_read_status_inv [OF inv] d show ?thesis by simp
next
  case (ev_write_done i n)
  with d inv show ?thesis
    by (auto simp: uv_dispatch_def StdioPipe_OnWriteDone_def StdioPipe_SetError_def assert_def
          SetPipeError_inv split: if_splits)
next
  case (ev_shutdown_done i n)
  with d inv show ?thesis
    by (auto simp: uv_dispatch_def StdioPipe_OnShutdownDone_def StdioPipe_SetError_def assert_def
          SetPipeError_inv split: if_splits)
next
  case (ev_exit st sig)
  show ?thesis
  proof (cases "st < 0")
    case True
    with d ev_exit inv show ?thesis by (auto simp: uv_dispatch_def OnExit_def SetError_inv)
  next
    case False
    with d ev_exit have "StopKillTimer (s\<lparr>exit_status := st, term_signal := sig\<rparr>) = Some s'"
      by (simp add: uv_dispatch_def OnExit_def)
    moreover have "pipes_inv (s\<lparr>exit_status := st, term_signal := sig\<rparr>)"
      using inv by (simp add: pipes_inv_iff get_pipe_def)
    ultimately show ?thesis by (rule StopKillTimer_inv)
  qed
next
  case (ev_timer st)
  with d have "Kill (SetError UV_ETIMEDOUT s) = Some s'"
    by (auto simp: uv_dispatch_def OnKillTimerTimeout_def assert_def split: if_splits)
  then show ?thesis using SetError_inv [OF inv] by (rule Kill_inv)
qed

lemma uv_dispatch_all_inv:
  "uv_dispatch_all es s = Some s' \<Longrightarrow> pipes_inv s \<Longrightarrow> pipes_inv s'"
proof (induction es arbitrary: s)
  case Nil
  then show ?case by simp
next
  case (Cons e es)
  from Cons.prems(1) obtain s1 where 1: "uv_dispatch e s = Some s1"
    and 2: "uv_dispatch_all es s1 = Some s'"
    by (auto split: Option.bind_splits)
  from uv_dispatch_inv [OF 1 Cons.prems(2)] Cons.IH [OF 2] show ?case by simp
qed

lemma Increment_returns:
  assumes kr: "kill_returns s"
  shows "\<exists>s'. IncrementBufferSizeAndCheckOverflow n s = Some s' \<and> kill_returns s'"
proof (cases "0 < max_buffer s \<and> max_buffer s < (buffered_output_size s + to_size_t n) mod 2 ^ 64")
  case False
  then have "IncrementBufferSizeAndCheckOverflow n s =
      Some (s\<lparr>buffered_output_size := (buffered_output_size s + to_size_t n) mod 2 ^ 64\<rparr>)"
    by (simp add: IncrementBufferSizeAndCheckOverflow_eq del: de_Morgan_conj)
  moreover have "kill_returns (s\<lparr>buffered_output_size := (buffered_output_size s + to_size_t n) mod 2 ^ 64\<rparr>)"
    using kr by (simp add: kill_returns_def)
  ultimately show ?thesis by simp
next
  case True
  let ?s1 = "s\<lparr>buffered_output_size := (buffered_output_size s + to_size_t n) mod 2 ^ 64\<rparr>"
  from True have i: "IncrementBufferSizeAndCheckOverflow n s = Kill ?s1"
    by (simp add: IncrementBufferSizeAndCheckOverflow_eq del: de_Morgan_conj)
  show ?thesis
  proof (cases "killed s")
    case True
    then have "Kill ?s1 = Some ?s1" by (simp add: Kill_killed)
    moreover have "kill_returns ?s1" using True by (simp add: kill_returns_def)
    ultimately show ?thesis using i by simp
  next
    case nk: False
    with kr True have tm: "(timeout s > 0) = kill_timer_initialized s" and em: "uv_results s = []"
      by (auto simp: kill_returns_def)
    have "Kill ?s1 = Some (?s1\<lparr>killed := True,
            uv_results := drop (if kill_timer_initialized ?s1 then 2 else 1) (uv_results ?s1),
            uv_calls := uv_calls ?s1 @ [uv_process_kill (kill_signal ?s1)]
               @ (if kill_timer_initialized ?s1 then [uv_timer_stop] else [])\<rparr>)"
      using nk tm em by (intro Kill_first_ok [OF _ _ refl]) (simp_all add: result_at_def)
    moreover have "kill_returns (?s1\<lparr>killed := True,
            uv_results := drop (if kill_timer_initialized ?s1 then 2 else 1) (uv_results ?s1),
            uv_calls := uv_calls ?s1 @ [uv_process_kill (kill_signal ?s1)]
               @ (if kill_timer_initialized ?s1 then [uv_timer_stop] else [])\<rparr>)"
      by (simp add: kill_returns_def)
    ultimately show ?thesis using i by simp
  qed
qed

lemma dispatch_read_returns:
  assumes inv: "pipes_inv s" and gp: "get_pipe i s = Some p" and kr: "kill_returns s"
    and piece: "piece = take (room (map used (output_buffers p))) bs"
  shows "\<exists>s1 q. uv_dispatch (ev_read i bs) s = Some s1 \<and> get_pipe i s1 = Some q \<and>
           map used (output_buffers q) = fill (map used (output_buffers p)) (length piece) \<and>
           (\<forall>j. stored j (uv_calls s1) = stored j (uv_calls s) @ (if j = i then piece else [])) \<and>
           pipes_inv s1 \<and> kill_returns s1"
proof -
  from dispatch_read_eq [OF inv gp piece] obtain q where ok: "chain_ok q"
    and cap: "captured q = captured p @ piece"
    and sh: "map used (output_buffers q) = fill (map used (output_buffers p)) (length piece)"
    and eq: "uv_dispatch (ev_read i bs) s =
             IncrementBufferSizeAndCheckOverflow (int (length piece))
               (uv_void (uv_read_into i piece) (set_pipe i q s))"
    by blast
  have "kill_returns (uv_void (uv_read_into i piece) (set_pipe i q s))"
    using kr by (simp add: kill_returns_def uv_void_def set_pipe_def)
  from Increment_returns [OF this, of "int (length piece)"] obtain s1 where
    inc: "IncrementBufferSizeAndCheckOverflow (int (length piece))
               (uv_void (uv_read_into i piece) (set_pipe i q s)) = Some s1"
    and kr1: "kill_returns s1" by blast
  from Increment_stored [OF inc]
  have st: "\<And>j. stored j (uv_calls s1) = stored j (uv_calls s @ [uv_read_into i piece])"
    and ps: "pipes s1 = pipes (set_pipe i q s)"
    by (simp_all add: uv_void_def)
  have g1: "get_pipe i s1 = Some q"
    using ps gp get_pipe_set_same [OF gp, of q] by (simp add: get_pipe_def)
  have st': "\<forall>j. stored j (uv_calls s1) = stored j (uv_calls s) @ (if j = i then piece else [])"
    by (simp add: st stored_append)
  have "pipes_inv s1"
    using st' by (intro pipes_inv_update [OF inv gp ok cap ps]) simp
  with eq inc g1 sh st' kr1 show ?thesis by auto
qed

lemma dispatch_eof_returns:
  assumes kr: "kill_returns s"
  shows "\<exists>s1. uv_dispatch (ev_read_status i UV_EOF) s = Some s1 \<and> kill_returns s1"
proof (cases "get_pipe i s")
  case None
  with kr show ?thesis by (simp add: uv_dispatch_def)
next
  case (Some p)
  obtain buf p1 where a: "StdioPipe_OnAlloc 65536 p = (buf, p1)" by (cases "StdioPipe_OnAlloc 65536 p")
  have g1: "get_pipe i (set_pipe i p1 s) = Some p1" using Some by (simp add: get_pipe_set_same)
  have "uv_dispatch (ev_read_status i UV_EOF) s = Some (set_pipe i p1 s)"
    using Some a g1
    by (simp add: uv_dispatch_def AllocCallback_def ReadCallback_def StdioPipe_OnRead_def UV_EOF_def)
  moreover have "kill_returns (set_pipe i p1 s)" using kr by (simp add: kill_returns_def set_pipe_def)
  ultimately show ?thesis by simp
qed

lemma dispatch_reads_return:
  assumes "pipes_inv s" "kill_returns s" "list_all is_read evs"
  shows "\<exists>s'. uv_dispatch_all evs s = Some s'"
  using assms
proof (induction evs arbitrary: s)
  case Nil
  then show ?case by simp
next
  case (Cons e evs)
  have "\<exists>s1. uv_dispatch e s = Some s1 \<and> kill_returns s1"
  proof (cases e)
    case (ev_read i bs)
    show ?thesis
    proof (cases "get_pipe i s")
      case None
      with ev_read Cons.prems(2) show ?thesis by (simp add: uv_dispatch_def)
    next
      case (Some p)
      from dispatch_read_returns [OF Cons.prems(1) Some Cons.prems(2) refl, of bs] ev_read
      show ?thesis by blast
    qed
  next
    case (ev_read_status i n)
    with Cons.prems(3) have "n = UV_EOF" by simp
    with ev_read_status dispatch_eof_returns [OF Cons.prems(2), of i] show ?thesis by simp
  qed (use Cons.prems(3) in simp_all)
  then obtain s1 where d: "uv_dispatch e s = Some s1" and kr: "kill_returns s1" by blast
  from uv_dispatch_inv [OF d Cons.prems(1)] have "pipes_inv s1" .
  from Cons.IH [OF this kr] Cons.prems(3) obtain s' where "uv_dispatch_all evs s1 = Some s'" by auto
  with d show ?case by simp
qed

lemma uv_dispatch_other_stored:
  assumes d: "uv_dispatch e s = Some s'" and ne: "\<And>i bs. e \<noteq> ev_read i bs"
  shows "stored j (uv_calls s') = stored j (uv_calls s)"
proof (cases e)
  case (ev_read i bs)
  with ne [of i bs] show ?thesis by simp
next
  case (ev_read_status i n)
  show ?thesis
  proof (cases "get_pipe i s = None \<or> 0 \<le> n")
    case True
    with d ev_read_status show ?thesis by (auto simp: uv_dispatch_def)
  next
    case False
    then obtain p where gp: "get_pipe i s = Some p" and neg: "n < 0" by auto
    obtain buf p1 where a: "StdioPipe_OnAlloc 65536 p = (buf, p1)"
      by (cases "StdioPipe_OnAlloc 65536 p")
    from d ev_read_status gp neg a have "StdioPipe_OnRead i buf n (set_pipe i p1 s) = Some s'"
      by (simp add: uv_dispatch_def AllocCallback_def ReadCallback_def)
    then show ?thesis using neg
      by (auto simp: StdioPipe_OnRead_def StdioPipe_SetError_def SetPipeError_def assert_def
            uv_void_def set_pipe_def stored_append
            split: if_splits Option.bind_splits)
  qed
next
  case (ev_write_done i n)
  with d show ?thesis
    by (auto simp: uv_dispatch_def StdioPipe_OnWriteDone_def StdioPipe_SetError_def assert_def
          SetPipeError_def split: if_splits)
next
  case (ev_shutdown_done i n)
  with d show ?thesis
    by (auto simp: uv_dispatch_def StdioPipe_OnShutdownDone_def StdioPipe_SetError_def assert_def
          SetPipeError_def split: if_splits)
next
  case (ev_exit st sig)
  show ?thesis
  proof (cases "st < 0")
    case True
    with d ev_exit show ?thesis by (auto simp: uv_dispatch_def OnExit_def SetError_def)
  next
    case False
    with d ev_exit have "StopKillTimer (s\<lparr>exit_status := st, term_signal := sig\<rparr>) = Some s'"
      by (simp add: uv_dispatch_def OnExit_def)
    from StopKillTimer_stored [OF this, of j] show ?thesis by simp
  qed
next
  case (ev_timer st)
  with d have "Kill (SetError UV_ETIMEDOUT s) = Some s'"
    by (auto simp: uv_dispatch_def OnKillTimerTimeout_def assert_def split: if_splits)
  from Kill_stored [OF this, of j] show ?thesis by (simp add: SetError_def)
qed

lemma capture_run:
  "map_option (\<lambda>s. (stored 1 (uv_calls s), get_pipe 1 s \<noteq> None))
     (uv_dispatch_all capture_events capture_state) = Some (''abc'', True)"
  by (simp add: capture_events_def capture_state_def example_runner_def capture_pipe_def
        new_SyncProcessRunner_def uv_dispatch_def AllocCallback_def ReadCallback_def
        StdioPipe_OnAlloc_def StdioPipe_OnRead_def OutputBuffer_OnAlloc_def OutputBuffer_OnRead_def
        new_SyncProcessOutputBuffer_def available_def uv_store_def uv_void_def
        get_pipe_def set_pipe_def uv_buf_init_def assert_def Let_def kBufferSize_def
        IncrementBufferSizeAndCheckOverflow_def StdioPipe_OnWriteDone_def OnExit_def
        StopKillTimer_def to_size_t_def to_uint_def UV_EOF_def memcpy_def)

lemma boundary_state_props:
  "pipes_inv (boundary_state k)" "kill_returns (boundary_state k)"
  "get_pipe 1 (boundary_state k) =
     Some (capture_pipe [\<lparr>data = replicate kBufferSize (CHR ''x''), used = kBufferSize - k\<rparr>])"
  "stored 1 (uv_calls (boundary_state k)) = replicate (kBufferSize - k) (CHR ''x'')"
  by (simp_all add: pipes_inv_def boundary_state_def example_runner_def capture_pipe_def
        new_SyncProcessRunner_def chain_ok_def chunk_ok_def captured_def valid_bytes_def upt_2
        kill_returns_def get_pipe_def)

lemmas capture_defs =
  capture_events_def capture_state_def example_runner_def capture_pipe_def
  new_SyncProcessRunner_def uv_dispatch_def AllocCallback_def ReadCallback_def
  StdioPipe_OnAlloc_def StdioPipe_OnRead_def OutputBuffer_OnAlloc_def OutputBuffer_OnRead_def
  new_SyncProcessOutputBuffer_def available_def uv_store_def uv_void_def
  get_pipe_def set_pipe_def uv_buf_init_def assert_def Let_def kBufferSize_def
  IncrementBufferSizeAndCheckOverflow_def StdioPipe_OnWriteDone_def OnExit_def
  StopKillTimer_def to_size_t_def to_uint_def UV_EOF_def memcpy_def

subsection \<open>Whole runs\<close>

text \<open>
  Three runs of \<open>Spawn\<close> from the options to the result: a child that outlives its
  timeout and is killed with the default signal; a readable pipe whose input is a
  string, on which the decoder aborts; and \<^verbatim>\<open>cat\<close> with the input \<open>abc\<close>, whose output
  arrives in two reads.
\<close>

lemmas read_path_defs =
  AllocCallback_def ReadCallback_def StdioPipe_OnAlloc_def StdioPipe_OnRead_def
  OutputBuffer_OnAlloc_def OutputBuffer_OnRead_def new_SyncProcessOutputBuffer_def
  available_def uv_store_def kBufferSize_def IncrementBufferSizeAndCheckOverflow_def
  StdioPipe_OnWriteDone_def StdioPipe_OnShutdownDone_def memcpy_def
  GetOutputAsBuffer_def OutputLength_def CopyOutput_def Copy_def

lemma upt_1: "[0..<1] = [0]"
  by (simp add: upt_rec)

lemma Spawn_timeout_example:
  "Spawn example_host [] (timeout_options JsUndefined) [ev_timer 0, ev_exit 0 15] [] =
     Some (JsObject [(''error'', JsNumber (- 110)), (''status'', JsNumber 0),
                     (''signal'', JsString ''SIGTERM''), (''output'', JsArray [JsNull])],
           [uv_loop_new, uv_timer_init, uv_unref_timer, uv_timer_start 50,
            uv_spawn (new_uv_process_options
               \<lparr>exit_cb := True, opt_file := Some ''/bin/sleep'',
                opt_args := Some [''sleep'', ''10''],
                opt_stdio := Some [Some UV_IGNORE], opt_stdio_count := 1\<rparr>),
            uv_run, uv_process_kill 15, uv_timer_stop, uv_timer_stop,
            uv_ref_timer, uv_close_timer, uv_run, uv_loop_delete])"
  by (simp add: timeout_options_def decoder_defs runner_defs upt_1)

lemma Spawn_string_input_aborts:
  "Spawn example_host [] (readable_pipe_options (JsString ''abc'')) [ev_exit 0 0] [] = None"
  by (simp add: readable_pipe_options_def pipe_option_def decoder_defs runner_defs upt_1)

lemma upt_3: "[0..<3] = [0, 1, 2]"
  by (simp add: upt_rec)

lemma Spawn_cat_example:
  "map_option fst (Spawn example_host [] cat_options
     [ev_write_done 0 0, ev_read 1 ''ab'', ev_shutdown_done 0 0, ev_read 1 ''c'',
      ev_read_status 1 UV_EOF, ev_exit 0 0] []) =
   Some (JsObject [(''status'', JsNumber 0), (''signal'', JsNull),
                   (''output'', JsArray [JsNull, JsBuffer ''abc'', JsNull])])"
  by (simp add: cat_options_def decoder_defs runner_defs read_path_defs upt_3)

section \<open>The claims\<close>

text \<open>
  Claim C1 against the code. \<open>stdio\<close> holds an entry that is no object, so
  \<open>ParseStdioOptions\<close> returns \<^verbatim>\<open>UV_EINVAL\<close>. The condition
  \<^verbatim>\<open>r = ParseStdioOptions(js_stdio) < 0\<close> makes \<open>r\<close> the truth value \<open>1\<close>, which
  \<open>ParseOptions\<close> returns; its caller tests \<open>r < 0\<close>, records nothing and goes on: the
  child is spawned, and once it has exited with status \<open>0\<close> the result carries no
  \<open>error\<close>.
\<close>

theorem Spawn_after_stdio_decode_failure:
  "map_option fst (ParseOptions example_host bad_stdio_options (decode_state [] 0)) = Some 1 \<and>
   Spawn example_host [] bad_stdio_options [ev_exit 0 0] [] =
     Some (JsObject [(''status'', JsNumber 0), (''signal'', JsNull),
                     (''output'', JsArray [JsNull, JsNull])],
           [uv_loop_new,
            uv_spawn (new_uv_process_options
               \<lparr>exit_cb := True, opt_file := Some ''/bin/true'', opt_args := Some [''true'']\<rparr>),
            uv_run, uv_run, uv_loop_delete])"
  by (simp add: bad_stdio_options_def decode_state_def decoder_defs runner_defs upt_2)

text \<open>
  Claim C2 against the code. With \<open>cwd\<close> and \<open>envPairs\<close> set, the descriptor handed to
  \<^verbatim>\<open>uv_spawn\<close> has no environment and no working directory, and its argument vector
  is the decoded environment block: the block is assigned to \<^verbatim>\<open>args\<close>, and \<^verbatim>\<open>cwd\<close>
  is overwritten with \<^verbatim>\<open>cwd_buffer_\<close>, which nothing sets.
\<close>

theorem ParseOptions_env_cwd_misassigned:
  "Spawn example_host [] env_cwd_options [ev_exit 0 0] [] =
     Some (JsObject [(''status'', JsNumber 0), (''signal'', JsNull), (''output'', JsArray [])],
           [uv_loop_new,
            uv_spawn (new_uv_process_options
               \<lparr>exit_cb := True, opt_file := Some ''/bin/echo'', opt_args := Some [''A=1''],
                opt_env := None, opt_cwd := None, opt_stdio := Some [], opt_stdio_count := 0\<rparr>),
            uv_run, uv_run, uv_loop_delete])"
  by (simp add: env_cwd_options_def decoder_defs runner_defs)

text \<open>
  Claim C3 against the code. The options ask for a timeout of 50 ms and the kill signal
  \<open>1000\<close>, which the decoder accepts. When the timer fires, \<open>Kill\<close> sends the signal;
  libuv refuses a signal number it does not know with \<^verbatim>\<open>UV_EINVAL\<close>. \<open>Kill\<close> records
  the error and calls \<^verbatim>\<open>uv_process_kill\<close> again with the same \<open>kill_signal\<close>, where
  its comment says \<^verbatim>\<open>SIGKILL\<close>; the call is refused as before, and the assertion that
  follows aborts the process: \<open>Spawn\<close> returns nothing, and the kill timer, which is
  running, is not stopped.
\<close>

theorem Kill_retry_same_signal_aborts:
  "map_option (\<lambda>(r, s). (r, timeout s, kill_signal s))
     (ParseOptions example_host (timeout_options (JsNumber 1000)) (decode_state [] 0)) =
     Some (0, 50, 1000) \<and>
   Spawn example_host [0, 0, 0, 0, 0, - 22, - 22] (timeout_options (JsNumber 1000))
     [ev_timer 0, ev_exit 0 9] [] = None \<and>
   \<not> killed (kill_state [- 22, - 22]) \<and> kill_timer_initialized (kill_state [- 22, - 22]) \<and>
   Kill (kill_state [- 22, - 22]) = None"
  by (simp add: timeout_options_def decode_state_def decoder_defs runner_defs upt_1
        kill_state_def)

text \<open>
  Claim C4, as amended. A read callback with a count \<open>nread \<ge> 0\<close>, for the buffer the
  allocation callback handed out, commits the bytes and adds \<open>nread\<close> to
  \<open>buffered_output_size\<close> (in \<^verbatim>\<open>size_t\<close>); it calls \<open>Kill\<close> exactly when \<open>max_buffer > 0\<close>
  and the size after the addition exceeds \<open>max_buffer\<close>, and so does
  \<open>IncrementBufferSizeAndCheckOverflow\<close>, which otherwise only stores the new size. With
  \<open>max_buffer = 0\<close> it never kills, whatever the size. A kill for overflow leaves the
  primary error as it was when the signal is delivered or the child is already gone
  (\<^verbatim>\<open>UV_ESRCH\<close>), and when the runner was killed before: only the size, \<open>killed\<close> and the
  calls to libuv change. When the signal is refused with another error, that error goes
  through \<open>SetError\<close>: once \<open>Kill\<close> has returned, it is the primary error unless one was
  recorded before. \<open>Kill\<close> returns when its second attempt succeeds or reports
  \<^verbatim>\<open>UV_ESRCH\<close>; when that is refused as the first was, its assertion aborts.
\<close>

theorem output_overflow_kills:
  "(get_pipe i s = Some p \<and> 0 \<le> nread \<and> output_buffers p \<noteq> [] \<and>
    base buf = ChunkData (length (output_buffers p) - 1) (used (last (output_buffers p))) \<longrightarrow>
      StdioPipe_OnRead i buf nread s =
        (if 0 < max_buffer s \<and> max_buffer s < (buffered_output_size s + to_size_t nread) mod 2 ^ 64
         then Kill ((set_pipe i (committed p nread) s)
                \<lparr>buffered_output_size := (buffered_output_size s + to_size_t nread) mod 2 ^ 64\<rparr>)
         else Some ((set_pipe i (committed p nread) s)
                \<lparr>buffered_output_size := (buffered_output_size s + to_size_t nread) mod 2 ^ 64\<rparr>))) \<and>
   (StdioPipe_OnRead i buf nread s = Some s' \<and> 0 \<le> nread \<longrightarrow>
      buffered_output_size s' = (buffered_output_size s + to_size_t nread) mod 2 ^ 64) \<and>
   IncrementBufferSizeAndCheckOverflow n s =
     (if 0 < max_buffer s \<and> max_buffer s < (buffered_output_size s + to_size_t n) mod 2 ^ 64
      then Kill (s\<lparr>buffered_output_size := (buffered_output_size s + to_size_t n) mod 2 ^ 64\<rparr>)
      else Some (s\<lparr>buffered_output_size := (buffered_output_size s + to_size_t n) mod 2 ^ 64\<rparr>)) \<and>
   (max_buffer s = 0 \<longrightarrow>
      IncrementBufferSizeAndCheckOverflow n s =
        Some (s\<lparr>buffered_output_size := (buffered_output_size s + to_size_t n) mod 2 ^ 64\<rparr>)) \<and>
   (0 < max_buffer s \<and> max_buffer s < (buffered_output_size s + to_size_t n) mod 2 ^ 64 \<and>
    \<not> killed s \<and> (timeout s > 0) = kill_timer_initialized s \<and>
    (0 \<le> result_at 0 (uv_results s) \<or> result_at 0 (uv_results s) = UV_ESRCH) \<and>
    (kill_timer_initialized s \<longrightarrow> result_at 1 (uv_results s) = 0) \<longrightarrow>
      IncrementBufferSizeAndCheckOverflow n s =
        Some (s\<lparr>buffered_output_size := (buffered_output_size s + to_size_t n) mod 2 ^ 64,
               killed := True,
               uv_results := drop (if kill_timer_initialized s then 2 else 1) (uv_results s),
               uv_calls := uv_calls s @ [uv_process_kill (kill_signal s)]
                   @ (if kill_timer_initialized s then [uv_timer_stop] else [])\<rparr>) \<and>
      map_option error (IncrementBufferSizeAndCheckOverflow n s) = Some (error s)) \<and>
   (0 < max_buffer s \<and> max_buffer s < (buffered_output_size s + to_size_t n) mod 2 ^ 64 \<and>
    killed s \<longrightarrow>
      IncrementBufferSizeAndCheckOverflow n s =
        Some (s\<lparr>buffered_output_size := (buffered_output_size s + to_size_t n) mod 2 ^ 64\<rparr>)) \<and>
   (0 < max_buffer s \<and> max_buffer s < (buffered_output_size s + to_size_t n) mod 2 ^ 64 \<and>
    \<not> killed s \<and> (timeout s > 0) = kill_timer_initialized s \<and>
    result_at 0 (uv_results s) < 0 \<and> result_at 0 (uv_results s) \<noteq> UV_ESRCH \<and>
    (0 \<le> result_at 1 (uv_results s) \<or> result_at 1 (uv_results s) = UV_ESRCH) \<and>
    (kill_timer_initialized s \<longrightarrow> result_at 2 (uv_results s) = 0) \<longrightarrow>
      IncrementBufferSizeAndCheckOverflow n s =
        Some (s\<lparr>buffered_output_size := (buffered_output_size s + to_size_t n) mod 2 ^ 64,
               killed := True,
               error := (if error s = 0 then result_at 0 (uv_results s) else error s),
               uv_results := drop (if kill_timer_initialized s then 3 else 2) (uv_results s),
               uv_calls := uv_calls s
                   @ [uv_process_kill (kill_signal s), uv_process_kill (kill_signal s)]
                   @ (if kill_timer_initialized s then [uv_timer_stop] else [])\<rparr>) \<and>
      map_option error (IncrementBufferSizeAndCheckOverflow n s) =
        Some (if error s = 0 then result_at 0 (uv_results s) else error s)) \<and>
   (0 < max_buffer s \<and> max_buffer s < (buffered_output_size s + to_size_t n) mod 2 ^ 64 \<and>
    \<not> killed s \<and>
    result_at 0 (uv_results s) < 0 \<and> result_at 0 (uv_results s) \<noteq> UV_ESRCH \<and>
    result_at 1 (uv_results s) < 0 \<and> result_at 1 (uv_results s) \<noteq> UV_ESRCH \<longrightarrow>
      IncrementBufferSizeAndCheckOverflow n s = None)"
proof (intro conjI impI)
  assume "get_pipe i s = Some p \<and> 0 \<le> nread \<and> output_buffers p \<noteq> [] \<and>
    base buf = ChunkData (length (output_buffers p) - 1) (used (last (output_buffers p)))"
  then show "StdioPipe_OnRead i buf nread s =
        (if 0 < max_buffer s \<and> max_buffer s < (buffered_output_size s + to_size_t nread) mod 2 ^ 64
         then Kill ((set_pipe i (committed p nread) s)
                \<lparr>buffered_output_size := (buffered_output_size s + to_size_t nread) mod 2 ^ 64\<rparr>)
         else Some ((set_pipe i (committed p nread) s)
                \<lparr>buffered_output_size := (buffered_output_size s + to_size_t nread) mod 2 ^ 64\<rparr>))"
    by (intro StdioPipe_OnRead_eq) blast+
next
  assume "StdioPipe_OnRead i buf nread s = Some s' \<and> 0 \<le> nread"
  then show "buffered_output_size s' = (buffered_output_size s + to_size_t nread) mod 2 ^ 64"
    using StdioPipe_OnRead_size by blast
next
  show "IncrementBufferSizeAndCheckOverflow n s =
     (if 0 < max_buffer s \<and> max_buffer s < (buffered_output_size s + to_size_t n) mod 2 ^ 64
      then Kill (s\<lparr>buffered_output_size := (buffered_output_size s + to_size_t n) mod 2 ^ 64\<rparr>)
      else Some (s\<lparr>buffered_output_size := (buffered_output_size s + to_size_t n) mod 2 ^ 64\<rparr>))"
    by (rule IncrementBufferSizeAndCheckOverflow_eq)
next
  assume "max_buffer s = 0"
  then show "IncrementBufferSizeAndCheckOverflow n s =
        Some (s\<lparr>buffered_output_size := (buffered_output_size s + to_size_t n) mod 2 ^ 64\<rparr>)"
    by (simp add: IncrementBufferSizeAndCheckOverflow_eq)
next
  let ?s1 = "s\<lparr>buffered_output_size := (buffered_output_size s + to_size_t n) mod 2 ^ 64\<rparr>"
  assume a: "0 < max_buffer s \<and> max_buffer s < (buffered_output_size s + to_size_t n) mod 2 ^ 64 \<and>
    \<not> killed s \<and> (timeout s > 0) = kill_timer_initialized s \<and>
    (0 \<le> result_at 0 (uv_results s) \<or> result_at 0 (uv_results s) = UV_ESRCH) \<and>
    (kill_timer_initialized s \<longrightarrow> result_at 1 (uv_results s) = 0)"
  then have i: "IncrementBufferSizeAndCheckOverflow n s = Kill ?s1"
    by (simp add: IncrementBufferSizeAndCheckOverflow_eq del: de_Morgan_conj)
  have k: "Kill ?s1 = Some (?s1\<lparr>killed := True,
            uv_results := drop (if kill_timer_initialized ?s1 then 2 else 1) (uv_results ?s1),
            uv_calls := uv_calls ?s1 @ [uv_process_kill (kill_signal ?s1)]
               @ (if kill_timer_initialized ?s1 then [uv_timer_stop] else [])\<rparr>)"
    using a by (intro Kill_first_ok [OF _ _ refl]) auto
  show "IncrementBufferSizeAndCheckOverflow n s =
        Some (s\<lparr>buffered_output_size := (buffered_output_size s + to_size_t n) mod 2 ^ 64,
               killed := True,
               uv_results := drop (if kill_timer_initialized s then 2 else 1) (uv_results s),
               uv_calls := uv_calls s @ [uv_process_kill (kill_signal s)]
                   @ (if kill_timer_initialized s then [uv_timer_stop] else [])\<rparr>)"
    using i k by simp
  show "map_option error (IncrementBufferSizeAndCheckOverflow n s) = Some (error s)"
    using i k by simp
next
  assume "0 < max_buffer s \<and> max_buffer s < (buffered_output_size s + to_size_t n) mod 2 ^ 64 \<and>
    killed s"
  then show "IncrementBufferSizeAndCheckOverflow n s =
        Some (s\<lparr>buffered_output_size := (buffered_output_size s + to_size_t n) mod 2 ^ 64\<rparr>)"
    by (simp add: IncrementBufferSizeAndCheckOverflow_eq Kill_killed del: de_Morgan_conj)
next
  let ?s1 = "s\<lparr>buffered_output_size := (buffered_output_size s + to_size_t n) mod 2 ^ 64\<rparr>"
  assume a: "0 < max_buffer s \<and> max_buffer s < (buffered_output_size s + to_size_t n) mod 2 ^ 64 \<and>
    \<not> killed s \<and> (timeout s > 0) = kill_timer_initialized s \<and>
    result_at 0 (uv_results s) < 0 \<and> result_at 0 (uv_results s) \<noteq> UV_ESRCH \<and>
    (0 \<le> result_at 1 (uv_results s) \<or> result_at 1 (uv_results s) = UV_ESRCH) \<and>
    (kill_timer_initialized s \<longrightarrow> result_at 2 (uv_results s) = 0)"
  then have i: "IncrementBufferSizeAndCheckOverflow n s = Kill ?s1"
    by (simp add: IncrementBufferSizeAndCheckOverflow_eq del: de_Morgan_conj)
  have k: "Kill ?s1 = Some (?s1\<lparr>killed := True,
            error := (if error ?s1 = 0 then result_at 0 (uv_results ?s1) else error ?s1),
            uv_results := drop (if kill_timer_initialized ?s1 then 3 else 2) (uv_results ?s1),
            uv_calls := uv_calls ?s1
               @ [uv_process_kill (kill_signal ?s1), uv_process_kill (kill_signal ?s1)]
               @ (if kill_timer_initialized ?s1 then [uv_timer_stop] else [])\<rparr>)"
    using a by (intro Kill_retry_ok [OF _ _ refl _ _ refl]) auto
  show "IncrementBufferSizeAndCheckOverflow n s =
        Some (s\<lparr>buffered_output_size := (buffered_output_size s + to_size_t n) mod 2 ^ 64,
               killed := True,
               error := (if error s = 0 then result_at 0 (uv_results s) else error s),
               uv_results := drop (if kill_timer_initialized s then 3 else 2) (uv_results s),
               uv_calls := uv_calls s
                   @ [uv_process_kill (kill_signal s), uv_process_kill (kill_signal s)]
                   @ (if kill_timer_initialized s then [uv_timer_stop] else [])\<rparr>)"
    using i k by simp
  show "map_option error (IncrementBufferSizeAndCheckOverflow n s) =
        Some (if error s = 0 then result_at 0 (uv_results s) else error s)"
    using i k by simp
next
  let ?s1 = "s\<lparr>buffered_output_size := (buffered_output_size s + to_size_t n) mod 2 ^ 64\<rparr>"
  assume a: "0 < max_buffer s \<and> max_buffer s < (buffered_output_size s + to_size_t n) mod 2 ^ 64 \<and>
    \<not> killed s \<and>
    result_at 0 (uv_results s) < 0 \<and> result_at 0 (uv_results s) \<noteq> UV_ESRCH \<and>
    result_at 1 (uv_results s) < 0 \<and> result_at 1 (uv_results s) \<noteq> UV_ESRCH"
  then have i: "IncrementBufferSizeAndCheckOverflow n s = Kill ?s1"
    by (simp add: IncrementBufferSizeAndCheckOverflow_eq del: de_Morgan_conj)
  have "Kill ?s1 = None"
    using a by (intro Kill_retry_refused [OF _ refl _ _ refl]) auto
  with i show "IncrementBufferSizeAndCheckOverflow n s = None" by simp
qed

text \<open>
  With \<open>max_buffer = 1\<close>: a read of one byte is counted and kills nothing; a read of two
  bytes kills, here a child that is already gone. Then the accounting alone: no cap;
  the cap exceeded and the child gone; the cap exceeded on a runner killed before; the
  cap exceeded and the signal refused with \<^verbatim>\<open>EPERM\<close>, the retry finding the child gone;
  the cap exceeded and the signal refused twice with \<^verbatim>\<open>EINVAL\<close>.
\<close>

theorem output_overflow_kills_witness:
  "map_option (\<lambda>s. (buffered_output_size s, killed s, uv_calls s))
     (StdioPipe_OnRead 0 \<lparr>base = ChunkData 0 0, len = 65536\<rparr> 1 (overflow_state [- 3])) =
     Some (1, False, []) \<and>
   map_option (\<lambda>s. (buffered_output_size s, killed s, uv_calls s))
     (StdioPipe_OnRead 0 \<lparr>base = ChunkData 0 0, len = 65536\<rparr> 2 (overflow_state [- 3])) =
     Some (2, True, [uv_process_kill 15]) \<and>
   (\<exists>s'. StdioPipe_OnRead 0 \<lparr>base = ChunkData 0 0, len = 65536\<rparr> 3 (overflow_state []) = Some s' \<and>
         buffered_output_size s' = 3) \<and>
   IncrementBufferSizeAndCheckOverflow 5 ((overflow_state [])\<lparr>max_buffer := 0\<rparr>) =
     Some ((overflow_state [])\<lparr>max_buffer := 0, buffered_output_size := 5\<rparr>) \<and>
   IncrementBufferSizeAndCheckOverflow 2 (overflow_state [- 3]) =
     Some ((overflow_state [- 3])\<lparr>buffered_output_size := 2, killed := True, uv_results := [],
             uv_calls := [uv_process_kill 15]\<rparr>) \<and>
   map_option error (IncrementBufferSizeAndCheckOverflow 2 (overflow_state [- 3])) = Some 0 \<and>
   IncrementBufferSizeAndCheckOverflow 2 ((overflow_state [])\<lparr>killed := True\<rparr>) =
     Some ((overflow_state [])\<lparr>killed := True, buffered_output_size := 2\<rparr>) \<and>
   IncrementBufferSizeAndCheckOverflow 2 (overflow_state [- 1, - 3]) =
     Some ((overflow_state [- 1, - 3])\<lparr>buffered_output_size := 2, killed := True, error := - 1,
             uv_results := [],
             uv_calls := [uv_process_kill 15, uv_process_kill 15]\<rparr>) \<and>
   map_option error (IncrementBufferSizeAndCheckOverflow 2 (overflow_state [- 1, - 3])) = Some (- 1) \<and>
   IncrementBufferSizeAndCheckOverflow 2 (overflow_state [- 22, - 22]) = None"
proof -
  let ?buf = "\<lparr>base = ChunkData 0 0, len = 65536\<rparr>"
  have gp: "\<And>script. get_pipe 0 (overflow_state script) = Some (capture_pipe [chunk_of [] ])"
    by (simp add: overflow_state_def example_runner_def get_pipe_def)
  have r1: "map_option (\<lambda>s. (buffered_output_size s, killed s, uv_calls s))
     (StdioPipe_OnRead 0 ?buf 1 (overflow_state [- 3])) = Some (1, False, [])"
    using output_overflow_kills [of 0 "overflow_state [- 3]" "capture_pipe [chunk_of [] ]" 1 ?buf,
        THEN conjunct1] gp
    by (simp add: overflow_state_def example_runner_def new_SyncProcessRunner_def
          capture_pipe_def chunk_of_def to_size_t_def set_pipe_def)
  have r2: "map_option (\<lambda>s. (buffered_output_size s, killed s, uv_calls s))
     (StdioPipe_OnRead 0 ?buf 2 (overflow_state [- 3])) = Some (2, True, [uv_process_kill 15])"
    using output_overflow_kills [of 0 "overflow_state [- 3]" "capture_pipe [chunk_of [] ]" 2 ?buf,
        THEN conjunct1] gp
    by (simp add: overflow_state_def example_runner_def new_SyncProcessRunner_def
          capture_pipe_def chunk_of_def to_size_t_def set_pipe_def
          Kill_def StopKillTimer_def call_uv_def assert_def UV_ESRCH_def SIGTERM_def Let_def)
  have "StdioPipe_OnRead 0 ?buf 3 (overflow_state []) \<noteq> None"
    by (simp add: StdioPipe_OnRead_def overflow_state_def example_runner_def
          new_SyncProcessRunner_def get_pipe_def set_pipe_def capture_pipe_def chunk_of_def
          OutputBuffer_OnRead_def assert_def UV_EOF_def Let_def
          IncrementBufferSizeAndCheckOverflow_def Kill_def StopKillTimer_def call_uv_def
          to_size_t_def to_uint_def)
  then obtain s' where
    s': "StdioPipe_OnRead 0 ?buf 3 (overflow_state []) = Some s'"
    by auto
  have r3: "buffered_output_size s' = 3"
    using output_overflow_kills [of 0 "overflow_state []" undefined 3 ?buf s',
        THEN conjunct2, THEN conjunct1] s'
    by (simp add: overflow_state_def example_runner_def new_SyncProcessRunner_def to_size_t_def)
  have r4: "IncrementBufferSizeAndCheckOverflow 5 ((overflow_state [])\<lparr>max_buffer := 0\<rparr>) =
     Some ((overflow_state [])\<lparr>max_buffer := 0, buffered_output_size := 5\<rparr>)"
    using output_overflow_kills [of 0 "(overflow_state [])\<lparr>max_buffer := 0\<rparr>" undefined 0 undefined
        undefined 5, THEN conjunct2, THEN conjunct2, THEN conjunct2, THEN conjunct1]
    by (simp add: overflow_state_def example_runner_def new_SyncProcessRunner_def to_size_t_def)
  have r5: "IncrementBufferSizeAndCheckOverflow 2 (overflow_state [- 3]) =
     Some ((overflow_state [- 3])\<lparr>buffered_output_size := 2, killed := True, uv_results := [],
             uv_calls := [uv_process_kill 15]\<rparr>) \<and>
     map_option error (IncrementBufferSizeAndCheckOverflow 2 (overflow_state [- 3])) = Some 0"
    using output_overflow_kills [of 0 "overflow_state [- 3]" undefined 0 undefined undefined 2,
        THEN conjunct2, THEN conjunct2, THEN conjunct2, THEN conjunct2, THEN conjunct1]
    by (simp add: overflow_state_def example_runner_def new_SyncProcessRunner_def to_size_t_def
          result_at_def UV_ESRCH_def SIGTERM_def)
  have r6: "IncrementBufferSizeAndCheckOverflow 2 ((overflow_state [])\<lparr>killed := True\<rparr>) =
     Some ((overflow_state [])\<lparr>killed := True, buffered_output_size := 2\<rparr>)"
    using output_overflow_kills [of 0 "(overflow_state [])\<lparr>killed := True\<rparr>" undefined 0 undefined
        undefined 2,
        THEN conjunct2, THEN conjunct2, THEN conjunct2, THEN conjunct2, THEN conjunct2,
        THEN conjunct1]
    by (simp add: overflow_state_def example_runner_def new_SyncProcessRunner_def to_size_t_def)
  have r7: "IncrementBufferSizeAndCheckOverflow 2 (overflow_state [- 1, - 3]) =
     Some ((overflow_state [- 1, - 3])\<lparr>buffered_output_size := 2, killed := True, error := - 1,
             uv_results := [],
             uv_calls := [uv_process_kill 15, uv_process_kill 15]\<rparr>) \<and>
     map_option error (IncrementBufferSizeAndCheckOverflow 2 (overflow_state [- 1, - 3])) = Some (- 1)"
    using output_overflow_kills [of 0 "overflow_state [- 1, - 3]" undefined 0 undefined undefined 2,
        THEN conjunct2, THEN conjunct2, THEN conjunct2, THEN conjunct2, THEN conjunct2,
        THEN conjunct2, THEN conjunct1]
    by (simp add: overflow_state_def example_runner_def new_SyncProcessRunner_def to_size_t_def
          result_at_def UV_ESRCH_def SIGTERM_def)
  have r8: "IncrementBufferSizeAndCheckOverflow 2 (overflow_state [- 22, - 22]) = None"
    using output_overflow_kills [of 0 "overflow_state [- 22, - 22]" undefined 0 undefined undefined 2,
        THEN conjunct2, THEN conjunct2, THEN conjunct2, THEN conjunct2, THEN conjunct2,
        THEN conjunct2, THEN conjunct2]
    by (simp add: overflow_state_def example_runner_def new_SyncProcessRunner_def to_size_t_def
          result_at_def UV_ESRCH_def)
  from r1 r2 s' r3 r4 r5 r6 r7 r8 show ?thesis by blast
qed

text \<open>
  Claim C4 as stated fails where the signal cannot be delivered: \<open>Kill\<close> passes the
  error of \<^verbatim>\<open>uv_process_kill\<close> to \<open>SetError\<close>. Here \<open>max_buffer\<close> is \<open>1\<close>, two bytes
  arrive, the first kill is refused with \<^verbatim>\<open>EPERM\<close> and the retry finds the child gone:
  the primary error, unset before, is \<^verbatim>\<open>EPERM\<close> afterwards.
\<close>

theorem output_overflow_sets_error_counterexample:
  "error (overflow_state [- 1, - 3]) = 0 \<and> killed (overflow_state [- 1, - 3]) = False \<and>
   map_option error (IncrementBufferSizeAndCheckOverflow 2 (overflow_state [- 1, - 3])) = Some (- 1)"
  by (simp add: overflow_state_def example_runner_def new_SyncProcessRunner_def
        IncrementBufferSizeAndCheckOverflow_def Kill_def StopKillTimer_def call_uv_def
        SetError_def assert_def UV_ESRCH_def Let_def to_size_t_def)

text \<open>
  Claim C5. \<open>SetError\<close> and \<open>SetPipeError\<close> store a code only when their slot is \<open>0\<close>
  and leave the other slot alone; a slot that is not \<open>0\<close> keeps its value over any
  sequence of calls of the two, so it goes from zero to nonzero at most once;
  \<open>GetError\<close> is the primary error when that is not \<open>0\<close> and the pipe error
  otherwise, and the result object carries \<open>GetError\<close> as \<open>error\<close> when it is not \<open>0\<close>
  and no \<open>error\<close> otherwise.
\<close>

theorem error_slots_write_once:
  "error (SetError e s) = (if error s = 0 then e else error s) \<and>
   pipe_error (SetError e s) = pipe_error s \<and>
   pipe_error (SetPipeError e s) = (if pipe_error s = 0 then e else pipe_error s) \<and>
   error (SetPipeError e s) = error s \<and>
   (error s \<noteq> 0 \<longrightarrow> error (fold apply_error_call cs s) = error s) \<and>
   (pipe_error s \<noteq> 0 \<longrightarrow> pipe_error (fold apply_error_call cs s) = pipe_error s) \<and>
   GetError s = (if error s \<noteq> 0 then error s else pipe_error s) \<and>
   (BuildResultObject h s = Some res \<longrightarrow>
      js_Get res ''error'' = (if GetError s \<noteq> 0 then JsNumber (GetError s) else JsUndefined))"
  using error_latched [of s cs] pipe_error_latched [of s cs] BuildResultObject_error [of h s res]
  by (simp add: SetError_def SetPipeError_def GetError_def)

theorem error_slots_write_once_witness:
  "error (SetError (- 110) (new_SyncProcessRunner [])) = - 110 \<and>
   error (fold apply_error_call [call_SetError (- 22), call_SetPipeError (- 32), call_SetError (- 3)]
            (SetError (- 110) (new_SyncProcessRunner []))) = - 110 \<and>
   pipe_error (fold apply_error_call [call_SetPipeError (- 9), call_SetError (- 22)]
            (SetPipeError (- 32) (new_SyncProcessRunner []))) = - 32 \<and>
   (\<exists>res. BuildResultObject example_host (SetPipeError (- 32) (new_SyncProcessRunner [])) = Some res \<and>
          js_Get res ''error'' = JsNumber (- 32))"
proof -
  let ?s = "SetPipeError (- 32) (new_SyncProcessRunner [])"
  have "BuildResultObject example_host ?s \<noteq> None"
    by (simp add: BuildResultObject_def SetPipeError_def new_SyncProcessRunner_def Let_def)
  then obtain res where r: "BuildResultObject example_host ?s = Some res" by auto
  have "js_Get res ''error'' = JsNumber (- 32)"
    using error_slots_write_once [of 0 ?s "[]" example_host res] r
    by (simp add: SetPipeError_def new_SyncProcessRunner_def)
  moreover have "error (SetError (- 110) (new_SyncProcessRunner [])) = - 110"
    using error_slots_write_once [of "- 110" "new_SyncProcessRunner []" "[]" example_host JsNull]
    by (simp add: new_SyncProcessRunner_def)
  moreover have "error (fold apply_error_call
            [call_SetError (- 22), call_SetPipeError (- 32), call_SetError (- 3)]
            (SetError (- 110) (new_SyncProcessRunner []))) = - 110"
    using error_slots_write_once [of 0 "SetError (- 110) (new_SyncProcessRunner [])"
        "[call_SetError (- 22), call_SetPipeError (- 32), call_SetError (- 3)]" example_host JsNull]
    by (simp add: new_SyncProcessRunner_def SetError_def)
  moreover have "pipe_error (fold apply_error_call [call_SetPipeError (- 9), call_SetError (- 22)]
            (SetPipeError (- 32) (new_SyncProcessRunner []))) = - 32"
    using error_slots_write_once [of 0 ?s "[call_SetPipeError (- 9), call_SetError (- 22)]"
        example_host JsNull]
    by (simp add: new_SyncProcessRunner_def SetPipeError_def)
  ultimately show ?thesis using r by blast
qed

text \<open>
  Claim C6. In the object \<open>BuildResultObject\<close> returns, \<open>status\<close> is \<open>exit_status\<close>
  when that is \<open>\<ge> 0\<close> and null otherwise: it is the double \<^verbatim>\<open>Number::New\<close> is given,
  which is \<open>exit_status\<close> itself up to \<open>2 ^ 53\<close> and the nearest double above; \<open>signal\<close> is the name of \<open>term_signal\<close> when
  that is \<open>> 0\<close> and null otherwise; \<open>output\<close> is null exactly when \<open>exit_status < 0\<close>,
  and otherwise an array with one element for each index below \<open>stdio_count\<close>: the
  pipe's output buffer when \<^verbatim>\<open>pipes_[i]\<close> is set and writable, null otherwise.
  The object is built whenever the child never started, and whenever \<^verbatim>\<open>pipes_\<close> was
  allocated with \<open>stdio_count\<close> entries by a runner past \<open>rUninitialized\<close> (what
  \<open>BuildOutputArray\<close> asserts).
\<close>

theorem BuildResultObject_fields:
  "(BuildResultObject h s = Some res \<longrightarrow>
      js_Get res ''status'' =
        (if exit_status s \<ge> 0 then JsNumber (int64_to_double (exit_status s)) else JsNull) \<and>
      (0 \<le> exit_status s \<and> exit_status s \<le> 2 ^ 53 \<longrightarrow>
         js_Get res ''status'' = JsNumber (exit_status s)) \<and>
      js_Get res ''signal'' =
        (if term_signal s > 0 then JsString (signo_string h (term_signal s)) else JsNull) \<and>
      js_Get res ''output'' =
        (if exit_status s \<ge> 0
         then JsArray (map (\<lambda>i. case get_pipe i s of
                                   None \<Rightarrow> JsNull
                                 | Some p \<Rightarrow> if writable p then GetOutputAsBuffer p else JsNull)
                           [0..<stdio_count s])
         else JsNull) \<and>
      ((js_Get res ''output'' = JsNull) = (exit_status s < 0))) \<and>
   (exit_status s < 0 \<or>
      (\<exists>ps. pipes s = Some ps \<and> stdio_count s \<le> length ps \<and> lifecycle s \<noteq> rUninitialized)
    \<longrightarrow> (\<exists>res. BuildResultObject h s = Some res))"
proof (intro conjI impI)
  assume a: "BuildResultObject h s = Some res"
  show st: "js_Get res ''status'' =
        (if exit_status s \<ge> 0 then JsNumber (int64_to_double (exit_status s)) else JsNull)"
    by (rule BuildResultObject_status [OF a])
  show "js_Get res ''status'' = JsNumber (exit_status s)"
    if "0 \<le> exit_status s \<and> exit_status s \<le> 2 ^ 53"
    using st that by (simp add: int64_to_double_exact)
  show "js_Get res ''signal'' =
        (if term_signal s > 0 then JsString (signo_string h (term_signal s)) else JsNull)"
    by (rule BuildResultObject_signal [OF a])
  have o: "js_Get res ''output'' =
     (if exit_status s \<ge> 0
      then JsArray (map (\<lambda>i. output_entry (get_pipe i s)) [0..<stdio_count s]) else JsNull)"
    by (rule BuildResultObject_output [OF a])
  then show "js_Get res ''output'' =
        (if exit_status s \<ge> 0
         then JsArray (map (\<lambda>i. case get_pipe i s of
                                   None \<Rightarrow> JsNull
                                 | Some p \<Rightarrow> if writable p then GetOutputAsBuffer p else JsNull)
                           [0..<stdio_count s])
         else JsNull)"
    by (simp add: output_entry_def)
  from o show "(js_Get res ''output'' = JsNull) = (exit_status s < 0)"
    by (cases "exit_status s < 0") simp_all
next
  assume "exit_status s < 0 \<or>
      (\<exists>ps. pipes s = Some ps \<and> stdio_count s \<le> length ps \<and> lifecycle s \<noteq> rUninitialized)"
  then show "\<exists>res. BuildResultObject h s = Some res" by (rule BuildResultObject_total)
qed

text \<open>
  A child killed by \<^verbatim>\<open>SIGTERM\<close> whose second stream was captured; a runner whose
  child never started; and an exit status above \<open>2 ^ 53\<close>, which no double equals.
\<close>

theorem BuildResultObject_fields_witness:
  "(\<exists>res. BuildResultObject example_host result_state = Some res \<and>
      js_Get res ''status'' = JsNumber 0 \<and>
      js_Get res ''signal'' = JsString ''SIGTERM'' \<and>
      js_Get res ''output'' = JsArray [JsNull, JsBuffer ''hi'', JsNull]) \<and>
   (\<exists>res. BuildResultObject example_host (new_SyncProcessRunner []) = Some res \<and>
      js_Get res ''status'' = JsNull \<and>
      js_Get res ''signal'' = JsNull \<and>
      js_Get res ''output'' = JsNull) \<and>
   (\<exists>res. BuildResultObject example_host (result_state\<lparr>exit_status := 2 ^ 53 + 1\<rparr>) = Some res \<and>
      js_Get res ''status'' = JsNumber (2 ^ 53))"
proof -
  have "\<exists>res. BuildResultObject example_host result_state = Some res"
    using BuildResultObject_fields [of example_host result_state JsNull, THEN conjunct2]
    by (simp add: result_state_def example_runner_def new_SyncProcessRunner_def)
  then obtain res where r: "BuildResultObject example_host result_state = Some res" by auto
  have up: "[0..<3] = [0, 1, 2]" by (simp add: upt_rec)
  have a: "js_Get res ''status'' = JsNumber 0 \<and>
      js_Get res ''signal'' = JsString ''SIGTERM'' \<and>
      js_Get res ''output'' = JsArray [JsNull, JsBuffer ''hi'', JsNull]"
    using BuildResultObject_fields [of example_host result_state res, THEN conjunct1] r
    by (simp add: result_state_def example_runner_def new_SyncProcessRunner_def example_host_def
          get_pipe_def up GetOutputAsBuffer_example)
       (simp add: capture_pipe_def)
  have "\<exists>res. BuildResultObject example_host (new_SyncProcessRunner []) = Some res"
    using BuildResultObject_fields [of example_host "new_SyncProcessRunner []" JsNull, THEN conjunct2]
    by (simp add: new_SyncProcessRunner_def)
  then obtain res' where r': "BuildResultObject example_host (new_SyncProcessRunner []) = Some res'"
    by auto
  have b: "js_Get res' ''status'' = JsNull \<and> js_Get res' ''signal'' = JsNull \<and>
      js_Get res' ''output'' = JsNull"
    using BuildResultObject_fields [of example_host "new_SyncProcessRunner []" res', THEN conjunct1] r'
    by (simp add: new_SyncProcessRunner_def)
  have "\<exists>res. BuildResultObject example_host (result_state\<lparr>exit_status := 2 ^ 53 + 1\<rparr>) = Some res"
    using BuildResultObject_fields [of example_host "result_state\<lparr>exit_status := 2 ^ 53 + 1\<rparr>" JsNull,
        THEN conjunct2]
    by (simp add: result_state_def example_runner_def new_SyncProcessRunner_def)
  then obtain res2 where
    r2: "BuildResultObject example_host (result_state\<lparr>exit_status := 2 ^ 53 + 1\<rparr>) = Some res2"
    by auto
  have c: "js_Get res2 ''status'' = JsNumber (2 ^ 53)"
    using BuildResultObject_fields [of example_host "result_state\<lparr>exit_status := 2 ^ 53 + 1\<rparr>" res2,
        THEN conjunct1] r2
    by (simp add: result_state_def int64_to_double_def Let_def upt_11 del: int64_to_double_exact)
  from r a r' b r2 c show ?thesis by blast
qed

text \<open>
  Claim C7. Let the callbacks of the loop be any list of events, from a state in which
  every pipe's chain holds the bytes libuv has stored for it so far (as it does while
  the chains are empty and nothing has been read). Then for every pipe, \<open>GetOutputAsBuffer\<close> returns one
  buffer whose content is the concatenation, in arrival order, of the bytes stored by
  the reads of that pipe, and whose length is the sum of \<open>used\<close> over the chain
  (the total being below \<open>2 ^ 64\<close>, as any chain in memory is). A read event appends
  to these bytes a prefix of the bytes that are ready, as much as the buffer handed
  out can hold and not nothing; no other event changes them. How the bytes are split
  over read callbacks and over chunks does not appear in the result.

  The read callbacks return, wherever the chain stands: on a runner on which \<open>Kill\<close>
  returns, a read of pipe \<open>i\<close> stores the first \<open>room\<close> bytes of those that are ready,
  \<open>room\<close> being what is left of the last chunk, or \<open>kBufferSize\<close> when there is no chunk
  or the last one is full; the counters of the chain afterwards are given by \<open>fill\<close>:
  the bytes go to the last chunk, or to a new one when there is none or the last one is
  full. So does every list of reads and ends of file.
\<close>

theorem output_is_concatenation_of_reads:
  "(pipes_inv s \<and> uv_dispatch_all evs s = Some s' \<and> get_pipe i s' = Some p' \<and>
    length (stored i (uv_calls s')) < 2 ^ 64 \<longrightarrow>
      GetOutputAsBuffer p' = JsBuffer (stored i (uv_calls s')) \<and>
      OutputLength p' = sum_list (map used (output_buffers p')) \<and>
      sum_list (map used (output_buffers p')) = length (stored i (uv_calls s'))) \<and>
   (pipes_inv s \<and> get_pipe i s = Some p \<and> uv_dispatch (ev_read i bs) s = Some s1 \<longrightarrow>
      (\<exists>n. 0 < n \<and>
         (\<forall>j. stored j (uv_calls s1) =
                stored j (uv_calls s) @ (if j = i then take n bs else [])))) \<and>
   ((\<forall>k bs. e \<noteq> ev_read k bs) \<and> uv_dispatch e s = Some s1 \<longrightarrow>
      stored i (uv_calls s1) = stored i (uv_calls s)) \<and>
   (pipes_inv s \<and> kill_returns s \<and> get_pipe i s = Some p \<longrightarrow>
      (\<exists>s2 q. uv_dispatch (ev_read i bs) s = Some s2 \<and> get_pipe i s2 = Some q \<and>
         map used (output_buffers q) =
           fill (map used (output_buffers p))
             (length (take (room (map used (output_buffers p))) bs)) \<and>
         (\<forall>j. stored j (uv_calls s2) =
                stored j (uv_calls s)
                @ (if j = i then take (room (map used (output_buffers p))) bs else [])) \<and>
         pipes_inv s2 \<and> kill_returns s2)) \<and>
   (pipes_inv s \<and> kill_returns s \<and> list_all is_read evs \<longrightarrow>
      (\<exists>s2. uv_dispatch_all evs s = Some s2))"
proof (intro conjI impI)
  assume a: "pipes_inv s \<and> uv_dispatch_all evs s = Some s' \<and> get_pipe i s' = Some p' \<and>
    length (stored i (uv_calls s')) < 2 ^ 64"
  then have "pipes_inv s'" using uv_dispatch_all_inv by blast
  from this [unfolded pipes_inv_iff, rule_format, of i p'] a
  have ok: "chain_ok p'" and cap: "captured p' = stored i (uv_calls s')"
    by simp_all
  from length_captured [OF ok] cap
  have len: "sum_list (map used (output_buffers p')) = length (stored i (uv_calls s'))" by simp
  with a have lt: "sum_list (map used (output_buffers p')) < 2 ^ 64" by simp
  show "GetOutputAsBuffer p' = JsBuffer (stored i (uv_calls s'))"
    using GetOutputAsBuffer_captured [OF ok lt] cap by simp
  show "OutputLength p' = sum_list (map used (output_buffers p'))"
    by (rule OutputLength_sum [OF lt])
  show "sum_list (map used (output_buffers p')) = length (stored i (uv_calls s'))" by (rule len)
next
  assume "pipes_inv s \<and> get_pipe i s = Some p \<and> uv_dispatch (ev_read i bs) s = Some s1"
  then have "\<exists>n q. 0 < n \<and> chain_ok q \<and> captured q = captured p @ take n bs \<and>
           pipes s1 = pipes (set_pipe i q s) \<and>
           (\<forall>j. stored j (uv_calls s1) = stored j (uv_calls s) @ (if j = i then take n bs else []))"
    by (intro dispatch_read_effect) blast+
  then show "\<exists>n. 0 < n \<and>
         (\<forall>j. stored j (uv_calls s1) =
                stored j (uv_calls s) @ (if j = i then take n bs else []))"
    by blast
next
  assume "(\<forall>k bs. e \<noteq> ev_read k bs) \<and> uv_dispatch e s = Some s1"
  then show "stored i (uv_calls s1) = stored i (uv_calls s)"
    by (intro uv_dispatch_other_stored [of e s s1]) blast+
next
  assume "pipes_inv s \<and> kill_returns s \<and> get_pipe i s = Some p"
  then show "\<exists>s2 q. uv_dispatch (ev_read i bs) s = Some s2 \<and> get_pipe i s2 = Some q \<and>
         map used (output_buffers q) =
           fill (map used (output_buffers p))
             (length (take (room (map used (output_buffers p))) bs)) \<and>
         (\<forall>j. stored j (uv_calls s2) =
                stored j (uv_calls s)
                @ (if j = i then take (room (map used (output_buffers p))) bs else [])) \<and>
         pipes_inv s2 \<and> kill_returns s2"
    by (intro dispatch_read_returns [OF _ _ _ refl]) blast+
next
  assume "pipes_inv s \<and> kill_returns s \<and> list_all is_read evs"
  then show "\<exists>s2. uv_dispatch_all evs s = Some s2"
    by (intro dispatch_reads_return) blast+
qed

text \<open>
  Two reads of pipe 1, mixed with other events, give the buffer \<open>abc\<close>. Then the
  boundary between chunks: a read that finds the only chunk full goes to a second
  chunk; of four bytes ready where two are left in the chunk, two are stored, and the
  rest arrives with the next read, in a second chunk; the buffer returned is the same
  bytes in one piece. Every list of reads and ends of file returns.
\<close>

theorem output_is_concatenation_of_reads_witness:
  "(pipes_inv capture_state \<and>
   (\<exists>s' p'. uv_dispatch_all capture_events capture_state = Some s' \<and>
            get_pipe 1 s' = Some p' \<and>
            GetOutputAsBuffer p' = JsBuffer ''abc'' \<and> OutputLength p' = 3) \<and>
   (\<exists>s1 n. uv_dispatch (ev_read 1 ''ab'') capture_state = Some s1 \<and> 0 < n \<and>
            stored 1 (uv_calls s1) = take n ''ab'') \<and>
   (\<exists>s1. uv_dispatch (ev_exit 0 0) capture_state = Some s1 \<and> stored 1 (uv_calls s1) = [])) \<and>
   (\<exists>s2 q. uv_dispatch (ev_read 1 ''abc'') (boundary_state 0) = Some s2 \<and>
      get_pipe 1 s2 = Some q \<and> map used (output_buffers q) = [kBufferSize, 3] \<and>
      GetOutputAsBuffer q = JsBuffer (replicate kBufferSize (CHR ''x'') @ ''abc'') \<and>
      OutputLength q = kBufferSize + 3) \<and>
   (\<exists>s' q. uv_dispatch_all [ev_read 1 ''abcd'', ev_read 1 ''cd''] (boundary_state 2) = Some s' \<and>
      get_pipe 1 s' = Some q \<and> map used (output_buffers q) = [kBufferSize, 2] \<and>
      GetOutputAsBuffer q = JsBuffer (replicate (kBufferSize - 2) (CHR ''x'') @ ''abcd'')) \<and>
   (\<exists>s'. uv_dispatch_all [ev_read 1 ''abcd'', ev_read_status 1 UV_EOF, ev_read 0 ''x'', ev_read 1 ''cd'']
          (boundary_state 2) = Some s')"
proof -
  have w1: "pipes_inv capture_state \<and>
   (\<exists>s' p'. uv_dispatch_all capture_events capture_state = Some s' \<and>
            get_pipe 1 s' = Some p' \<and>
            GetOutputAsBuffer p' = JsBuffer ''abc'' \<and> OutputLength p' = 3) \<and>
   (\<exists>s1 n. uv_dispatch (ev_read 1 ''ab'') capture_state = Some s1 \<and> 0 < n \<and>
            stored 1 (uv_calls s1) = take n ''ab'') \<and>
   (\<exists>s1. uv_dispatch (ev_exit 0 0) capture_state = Some s1 \<and> stored 1 (uv_calls s1) = [])"
  proof -
    have inv: "pipes_inv capture_state"
      by (simp add: pipes_inv_def capture_state_def example_runner_def capture_pipe_def
            new_SyncProcessRunner_def chain_ok_def captured_def upt_2)
    from capture_run obtain s' where run: "uv_dispatch_all capture_events capture_state = Some s'"
      and st: "stored 1 (uv_calls s') = ''abc''" and "get_pipe 1 s' \<noteq> None"
      by auto
    then obtain p' where gp: "get_pipe 1 s' = Some p'" by auto
    have out: "GetOutputAsBuffer p' = JsBuffer ''abc'' \<and> OutputLength p' = 3"
      using output_is_concatenation_of_reads [of capture_state capture_events s' 1 p', THEN conjunct1]
        inv run gp st
      by simp
    have "uv_dispatch (ev_read 1 ''ab'') capture_state \<noteq> None"
      by (simp add: capture_defs)
    then obtain s1 where r1: "uv_dispatch (ev_read 1 ''ab'') capture_state = Some s1" by auto
    have g0: "get_pipe 1 capture_state = Some (capture_pipe [])"
      by (simp add: capture_state_def example_runner_def get_pipe_def)
    have c0: "uv_calls capture_state = []"
      by (simp add: capture_state_def example_runner_def new_SyncProcessRunner_def)
    have "\<exists>n. 0 < n \<and> stored 1 (uv_calls s1) = take n ''ab''"
      using output_is_concatenation_of_reads [of capture_state "[]" capture_state 1 "capture_pipe []"
          "capture_pipe []" "''ab''" s1 undefined, THEN conjunct2, THEN conjunct1]
        inv g0 r1 c0
      by (simp, metis)
    then obtain n where n: "0 < n" "stored 1 (uv_calls s1) = take n ''ab''" by auto
    have "uv_dispatch (ev_exit 0 0) capture_state \<noteq> None"
      by (simp add: capture_defs)
    then obtain s2 where r2: "uv_dispatch (ev_exit 0 0) capture_state = Some s2" by auto
    have "stored 1 (uv_calls s2) = []"
      using output_is_concatenation_of_reads [of capture_state "[]" capture_state 1 "capture_pipe []"
          "capture_pipe []" "[]" s2 "ev_exit 0 0", THEN conjunct2, THEN conjunct2]
        r2 c0
      by simp
    with inv run gp out r1 n r2 show ?thesis by blast
  qed
  have w2: "\<exists>s2 q. uv_dispatch (ev_read 1 ''abc'') (boundary_state 0) = Some s2 \<and>
      get_pipe 1 s2 = Some q \<and> map used (output_buffers q) = [kBufferSize, 3] \<and>
      GetOutputAsBuffer q = JsBuffer (replicate kBufferSize (CHR ''x'') @ ''abc'') \<and>
      OutputLength q = kBufferSize + 3"
  proof -
    let ?p = "capture_pipe [\<lparr>data = replicate kBufferSize (CHR ''x''), used = kBufferSize - 0\<rparr>]"
    have tk: "take kBufferSize ''abc'' = ''abc''" by (simp add: kBufferSize_def)
    from output_is_concatenation_of_reads [of "boundary_state 0" "[]" "boundary_state 0" 1 ?p ?p
        "''abc''" "boundary_state 0" "ev_exit 0 0" ,
        THEN conjunct2, THEN conjunct2, THEN conjunct2, THEN conjunct1]
      boundary_state_props [of 0]
    obtain s2 q where d: "uv_dispatch (ev_read 1 ''abc'') (boundary_state 0) = Some s2"
      and g: "get_pipe 1 s2 = Some q"
      and sh: "map used (output_buffers q) = [kBufferSize, 3]"
      and st: "stored 1 (uv_calls s2) = replicate kBufferSize (CHR ''x'') @ ''abc''"
      by (auto simp: capture_pipe_def room_def fill_def tk)
    have lt: "length (stored 1 (uv_calls s2)) < 2 ^ 64" unfolding st by (simp add: kBufferSize_def)
    have da: "uv_dispatch_all [ev_read 1 ''abc''] (boundary_state 0) = Some s2" using d by simp
    from output_is_concatenation_of_reads [of "boundary_state 0" "[ev_read 1 ''abc'']" s2 1 q,
        THEN conjunct1] boundary_state_props(1) [of 0] da g lt
    have "GetOutputAsBuffer q = JsBuffer (replicate kBufferSize (CHR ''x'') @ ''abc'') \<and>
        OutputLength q = kBufferSize + 3"
      unfolding st sh by simp
    with d g sh show ?thesis by (intro exI [of _ s2] exI [of _ q]) simp
  qed
  have w3: "\<exists>s' q. uv_dispatch_all [ev_read 1 ''abcd'', ev_read 1 ''cd''] (boundary_state 2) = Some s' \<and>
      get_pipe 1 s' = Some q \<and> map used (output_buffers q) = [kBufferSize, 2] \<and>
      GetOutputAsBuffer q = JsBuffer (replicate (kBufferSize - 2) (CHR ''x'') @ ''abcd'')"
  proof -
    let ?p = "capture_pipe [\<lparr>data = replicate kBufferSize (CHR ''x''), used = kBufferSize - 2\<rparr>]"
    from output_is_concatenation_of_reads [of "boundary_state 2" "[]" "boundary_state 2" 1 ?p ?p
        "''abcd''" "boundary_state 2" "ev_exit 0 0",
        THEN conjunct2, THEN conjunct2, THEN conjunct2, THEN conjunct1]
      boundary_state_props [of 2]
    obtain s2 q where d1: "uv_dispatch (ev_read 1 ''abcd'') (boundary_state 2) = Some s2"
      and g1: "get_pipe 1 s2 = Some q"
      and sh1: "map used (output_buffers q) = [65536]"
      and st1: "stored 1 (uv_calls s2) = replicate 65534 (CHR ''x'') @ ''ab''"
      and inv1: "pipes_inv s2" and kr1: "kill_returns s2"
      by (auto simp: capture_pipe_def room_def fill_def kBufferSize_def)
    have rm: "room (map used (output_buffers q)) = 65536"
      unfolding sh1 by (simp add: room_def kBufferSize_def)
    have tk: "take (room (map used (output_buffers q))) ''cd'' = ''cd''" unfolding rm by simp
    have fl: "fill (map used (output_buffers q)) (length ''cd'') = [65536, 2]"
      by (simp add: sh1 fill_def kBufferSize_def)
    from output_is_concatenation_of_reads [of s2 "[]" s2 1 q q "''cd''" s2 "ev_exit 0 0",
        THEN conjunct2, THEN conjunct2, THEN conjunct2, THEN conjunct1]
      inv1 kr1 g1
    have "\<exists>s3 q3. uv_dispatch (ev_read 1 ''cd'') s2 = Some s3 \<and> get_pipe 1 s3 = Some q3 \<and>
        map used (output_buffers q3) = [65536, 2] \<and>
        (\<forall>j. stored j (uv_calls s3) = stored j (uv_calls s2) @ (if j = 1 then ''cd'' else [])) \<and>
        pipes_inv s3 \<and> kill_returns s3"
      unfolding tk fl by simp
    then obtain s3 q3 where d2: "uv_dispatch (ev_read 1 ''cd'') s2 = Some s3"
      and g2: "get_pipe 1 s3 = Some q3"
      and sh2: "map used (output_buffers q3) = [65536, 2]"
      and stj: "\<forall>j. stored j (uv_calls s3) = stored j (uv_calls s2) @ (if j = 1 then ''cd'' else [])"
      by (elim exE conjE) (rule that)
    have st2: "stored 1 (uv_calls s3) = replicate 65534 (CHR ''x'') @ ''abcd''"
      using stj [rule_format, of 1] unfolding st1 by simp
    have lt: "length (stored 1 (uv_calls s3)) < 2 ^ 64" unfolding st2 by simp
    have da: "uv_dispatch_all [ev_read 1 ''abcd'', ev_read 1 ''cd''] (boundary_state 2) = Some s3"
      using d1 d2 by simp
    from output_is_concatenation_of_reads [of "boundary_state 2"
        "[ev_read 1 ''abcd'', ev_read 1 ''cd'']" s3 1 q3, THEN conjunct1]
      boundary_state_props(1) [of 2] da g2 lt
    have "GetOutputAsBuffer q3 = JsBuffer (replicate 65534 (CHR ''x'') @ ''abcd'')"
      unfolding st2 by simp
    with da g2 sh2 show ?thesis
      by (intro exI [of _ s3] exI [of _ q3]) (simp add: kBufferSize_def)
  qed
  have w4: "\<exists>s'. uv_dispatch_all [ev_read 1 ''abcd'', ev_read_status 1 UV_EOF, ev_read 0 ''x'', ev_read 1 ''cd'']
          (boundary_state 2) = Some s'"
    using output_is_concatenation_of_reads [of "boundary_state 2"
        "[ev_read 1 ''abcd'', ev_read_status 1 UV_EOF, ev_read 0 ''x'', ev_read 1 ''cd'']"
        undefined 1 undefined undefined "[]" undefined "ev_exit 0 0",
        THEN conjunct2, THEN conjunct2, THEN conjunct2, THEN conjunct2]
      boundary_state_props [of 2]
    by simp

  show ?thesis by (rule conjI [OF w1 conjI [OF w2 conjI [OF w3 w4]]])
qed

text \<open>
  Claim C8, as amended. \<open>Start\<close> on a pipe that is \<open>kInitialized\<close> leaves it
  \<open>kStarted\<close>, whatever libuv answers. It makes its requests in the order write,
  shutdown, read start: the write exactly when the pipe is readable and the input
  buffer is not empty, with the whole buffer; the shutdown when the pipe is readable,
  also for an empty input; the read start when the pipe is writable. A request that
  libuv refuses ends \<open>Start\<close>, which returns the negative code and makes no further
  request; when none is refused it returns \<open>0\<close>.
\<close>

theorem Start_requests_in_order:
  "get_pipe i s = Some p \<and> pipe_lifecycle p = kInitialized \<and>
   (0 < len (input_buffer p) \<longrightarrow> base (input_buffer p) \<noteq> NULL) \<longrightarrow>
   ((\<forall>k < length (write_request i p @ shutdown_request i p @ read_request i p).
        0 \<le> result_at k (uv_results s)) \<longrightarrow>
    StdioPipe_Start i s =
      Some (0, (set_pipe i (p\<lparr>pipe_lifecycle := kStarted\<rparr>) s)
        \<lparr>uv_results := drop (length (write_request i p @ shutdown_request i p @ read_request i p))
                          (uv_results s),
         uv_calls := uv_calls s @ write_request i p @ shutdown_request i p @ read_request i p\<rparr>)) \<and>
   (readable p \<and> 0 < len (input_buffer p) \<and> result_at 0 (uv_results s) < 0 \<longrightarrow>
    StdioPipe_Start i s =
      Some (result_at 0 (uv_results s), (set_pipe i (p\<lparr>pipe_lifecycle := kStarted\<rparr>) s)
        \<lparr>uv_results := drop 1 (uv_results s),
         uv_calls := uv_calls s @ [uv_write i (input_buffer p)]\<rparr>)) \<and>
   (readable p \<and> (0 < len (input_buffer p) \<longrightarrow> 0 \<le> result_at 0 (uv_results s)) \<and>
    result_at (length (write_request i p)) (uv_results s) < 0 \<longrightarrow>
    StdioPipe_Start i s =
      Some (result_at (length (write_request i p)) (uv_results s),
        (set_pipe i (p\<lparr>pipe_lifecycle := kStarted\<rparr>) s)
        \<lparr>uv_results := drop (Suc (length (write_request i p))) (uv_results s),
         uv_calls := uv_calls s @ write_request i p @ [uv_shutdown i]\<rparr>)) \<and>
   (writable p \<and>
    (\<forall>k < length (write_request i p @ shutdown_request i p). 0 \<le> result_at k (uv_results s)) \<and>
    result_at (length (write_request i p @ shutdown_request i p)) (uv_results s) < 0 \<longrightarrow>
    StdioPipe_Start i s =
      Some (result_at (length (write_request i p @ shutdown_request i p)) (uv_results s),
        (set_pipe i (p\<lparr>pipe_lifecycle := kStarted\<rparr>) s)
        \<lparr>uv_results := drop (Suc (length (write_request i p @ shutdown_request i p))) (uv_results s),
         uv_calls := uv_calls s @ write_request i p @ shutdown_request i p @ [uv_read_start i]\<rparr>))"
proof (intro impI, elim conjE, intro conjI impI)
  assume gp: "get_pipe i s = Some p" and lc: "pipe_lifecycle p = kInitialized"
    and nn: "0 < len (input_buffer p) \<longrightarrow> base (input_buffer p) \<noteq> NULL"
  {
    assume "\<forall>k < length (write_request i p @ shutdown_request i p @ read_request i p).
        0 \<le> result_at k (uv_results s)"
    then show "StdioPipe_Start i s =
      Some (0, (set_pipe i (p\<lparr>pipe_lifecycle := kStarted\<rparr>) s)
        \<lparr>uv_results := drop (length (write_request i p @ shutdown_request i p @ read_request i p))
                          (uv_results s),
         uv_calls := uv_calls s @ write_request i p @ shutdown_request i p @ read_request i p\<rparr>)"
      by (intro Start_all_accepted [OF gp lc nn]) blast+
  }
  {
    assume "readable p \<and> 0 < len (input_buffer p) \<and> result_at 0 (uv_results s) < 0"
    then show "StdioPipe_Start i s =
      Some (result_at 0 (uv_results s), (set_pipe i (p\<lparr>pipe_lifecycle := kStarted\<rparr>) s)
        \<lparr>uv_results := drop 1 (uv_results s),
         uv_calls := uv_calls s @ [uv_write i (input_buffer p)]\<rparr>)"
      by (intro Start_write_refused [OF gp lc nn]) blast+
  }
  {
    assume "readable p \<and> (0 < len (input_buffer p) \<longrightarrow> 0 \<le> result_at 0 (uv_results s)) \<and>
      result_at (length (write_request i p)) (uv_results s) < 0"
    then show "StdioPipe_Start i s =
      Some (result_at (length (write_request i p)) (uv_results s),
        (set_pipe i (p\<lparr>pipe_lifecycle := kStarted\<rparr>) s)
        \<lparr>uv_results := drop (Suc (length (write_request i p))) (uv_results s),
         uv_calls := uv_calls s @ write_request i p @ [uv_shutdown i]\<rparr>)"
      by (intro Start_shutdown_refused [OF gp lc nn]) blast+
  }
  {
    assume "writable p \<and>
      (\<forall>k < length (write_request i p @ shutdown_request i p). 0 \<le> result_at k (uv_results s)) \<and>
      result_at (length (write_request i p @ shutdown_request i p)) (uv_results s) < 0"
    then show "StdioPipe_Start i s =
      Some (result_at (length (write_request i p @ shutdown_request i p)) (uv_results s),
        (set_pipe i (p\<lparr>pipe_lifecycle := kStarted\<rparr>) s)
        \<lparr>uv_results := drop (Suc (length (write_request i p @ shutdown_request i p))) (uv_results s),
         uv_calls := uv_calls s @ write_request i p @ shutdown_request i p @ [uv_read_start i]\<rparr>)"
      by (intro Start_read_refused [OF gp lc nn]) blast+
  }
qed

text \<open>
  The cases at concrete pipes: all requests accepted, with and without input; the
  write, the shutdown and the read start refused.
\<close>

theorem Start_requests_in_order_witness:
  "start_outcome (StdioPipe_Start 0 (example_runner [] [Some (stdio_pipe True True ''abc'')])) =
     Some (0, [uv_write 0 (uv_buf_init (HostData ''abc'') 3), uv_shutdown 0, uv_read_start 0]) \<and>
   start_outcome (StdioPipe_Start 0 (example_runner [] [Some (stdio_pipe True False [])])) =
     Some (0, [uv_shutdown 0]) \<and>
   start_outcome (StdioPipe_Start 0 (example_runner [- 32] [Some (stdio_pipe True True ''abc'')])) =
     Some (- 32, [uv_write 0 (uv_buf_init (HostData ''abc'') 3)]) \<and>
   start_outcome (StdioPipe_Start 0 (example_runner [0, - 32] [Some (stdio_pipe True True ''abc'')])) =
     Some (- 32, [uv_write 0 (uv_buf_init (HostData ''abc'') 3), uv_shutdown 0]) \<and>
   start_outcome (StdioPipe_Start 0 (example_runner [- 9] [Some (stdio_pipe False True [])])) =
     Some (- 9, [uv_read_start 0])"
  using
    Start_requests_in_order [of 0 "example_runner [] [Some (stdio_pipe True True ''abc'')]"
      "stdio_pipe True True ''abc''"]
    Start_requests_in_order [of 0 "example_runner [] [Some (stdio_pipe True False [])]"
      "stdio_pipe True False []"]
    Start_requests_in_order [of 0 "example_runner [- 32] [Some (stdio_pipe True True ''abc'')]"
      "stdio_pipe True True ''abc''"]
    Start_requests_in_order [of 0 "example_runner [0, - 32] [Some (stdio_pipe True True ''abc'')]"
      "stdio_pipe True True ''abc''"]
    Start_requests_in_order [of 0 "example_runner [- 9] [Some (stdio_pipe False True [])]"
      "stdio_pipe False True []"]
  by (simp add: start_outcome_def example_runner_def new_SyncProcessRunner_def stdio_pipe_def
        get_pipe_def set_pipe_def uv_buf_init_def write_request_def shutdown_request_def
        read_request_def result_at_def less_Suc_eq)

text \<open>
  Claim C8 as stated fails where libuv refuses the write: for a readable pipe with the
  input \<open>a\<close> and a write refused with \<^verbatim>\<open>EPIPE\<close>, \<open>Start\<close> returns the code after the
  write and requests no shutdown.
\<close>

theorem Start_write_refused_counterexample:
  "start_outcome (StdioPipe_Start 0 (example_runner [- 32] [Some (stdio_pipe True False ''a'')])) =
     Some (- 32, [uv_write 0 (uv_buf_init (HostData ''a'') 1)])"
  by (simp add: start_outcome_def StdioPipe_Start_def example_runner_def new_SyncProcessRunner_def
        stdio_pipe_def get_pipe_def set_pipe_def uv_buf_init_def assert_def uv_pipe_def
        call_uv_def Let_def)

text \<open>
  Claim C9. The constructor sets \<open>kill_signal\<close> to \<^verbatim>\<open>SIGTERM\<close>; \<open>ParseOptions\<close>, whatever
  it returns, leaves \<open>kill_signal\<close> as it was when the \<open>killSignal\<close> option is not set
  (undefined, null, or the options are no object); and the only signal \<open>Kill\<close> sends
  is \<open>kill_signal\<close>.
\<close>

theorem kill_signal_default_SIGTERM:
  "kill_signal (new_SyncProcessRunner script) = SIGTERM \<and>
   (\<not> IsSet (js_Get options ''killSignal'') \<and> ParseOptions h options s = Some (r, s') \<longrightarrow>
      kill_signal s' = kill_signal s) \<and>
   (Kill s = Some s'' \<and> uv_process_kill n \<in> set (uv_calls s'') \<longrightarrow>
      uv_process_kill n \<in> set (uv_calls s) \<or> n = kill_signal s)"
  using ParseOptions_kill_signal [of options h s r s'] Kill_calls [of s s'' n]
  by (simp add: new_SyncProcessRunner_def)

text \<open>
  Options without \<open>killSignal\<close>, and with a null \<open>killSignal\<close>, are decoded with the
  signal still \<open>15\<close>, and \<open>Kill\<close> on a fresh runner sends \<open>15\<close>.
\<close>

theorem kill_signal_default_SIGTERM_witness:
  "(\<exists>r s'. ParseOptions example_host (timeout_options JsUndefined) (decode_state [] 0) = Some (r, s') \<and>
           r = 0 \<and> kill_signal s' = 15) \<and>
   (\<exists>r s'. ParseOptions example_host (timeout_options JsNull) (decode_state [] 0) = Some (r, s') \<and>
           r = 0 \<and> kill_signal s' = 15) \<and>
   (\<exists>s''. Kill (kill_state []) = Some s'' \<and> uv_process_kill 15 \<in> set (uv_calls s''))"
proof -
  let ?s = "decode_state [] 0"
  have "\<exists>s'. ParseOptions example_host (timeout_options JsUndefined) ?s = Some (0, s')"
    by (simp add: timeout_options_def decode_state_def decoder_defs new_SyncProcessRunner_def
          new_uv_process_options_def)
  then obtain s1 where 1: "ParseOptions example_host (timeout_options JsUndefined) ?s = Some (0, s1)"
    by auto
  have k1: "kill_signal s1 = 15"
    using kill_signal_default_SIGTERM [of "[]" "timeout_options JsUndefined" example_host ?s 0 s1] 1
    by (simp add: timeout_options_def decode_state_def new_SyncProcessRunner_def IsSet_def SIGTERM_def)
  have "\<exists>s'. ParseOptions example_host (timeout_options JsNull) ?s = Some (0, s')"
    by (simp add: timeout_options_def decode_state_def decoder_defs new_SyncProcessRunner_def
          new_uv_process_options_def)
  then obtain s2 where 2: "ParseOptions example_host (timeout_options JsNull) ?s = Some (0, s2)"
    by auto
  have k2: "kill_signal s2 = 15"
    using kill_signal_default_SIGTERM [of "[]" "timeout_options JsNull" example_host ?s 0 s2] 2
    by (simp add: timeout_options_def decode_state_def new_SyncProcessRunner_def IsSet_def SIGTERM_def)
  have "\<exists>s''. Kill (kill_state []) = Some s''"
    by (simp add: kill_state_def Kill_def StopKillTimer_def call_uv_def assert_def
          new_SyncProcessRunner_def Let_def UV_ESRCH_def)
  then obtain s3 where 3: "Kill (kill_state []) = Some s3" by auto
  have "\<forall>n. uv_process_kill n \<in> set (uv_calls s3) \<longrightarrow> n = 15"
    using kill_signal_default_SIGTERM [of "[]" JsNull example_host "kill_state []" 0 undefined s3] 3
    by (simp add: kill_state_def new_SyncProcessRunner_def SIGTERM_def)
  moreover have "\<exists>n. uv_process_kill n \<in> set (uv_calls s3)"
    using 3
    by (auto simp: kill_state_def Kill_def StopKillTimer_def call_uv_def assert_def
          new_SyncProcessRunner_def Let_def UV_ESRCH_def)
  ultimately have "uv_process_kill 15 \<in> set (uv_calls s3)" by blast
  with 1 k1 2 k2 3 show ?thesis by blast
qed

text \<open>
  Claim C10. For a stdio entry whose \<open>type\<close> is the string \<open>pipe\<close> and whose
  \<open>readable\<close> is true, \<open>ParseStdioOption\<close> aborts on the assertion when \<open>input\<close> is
  neither a buffer nor undefined (null included), and returns no error code for it;
  an undefined input goes on to \<open>AddStdioPipe\<close> with the empty buffer, a buffer with
  its data and length.
\<close>

theorem ParseStdioOption_pipe_input:
  "StrictEquals (js_Get opt ''type'') ''pipe'' \<and> BooleanValue (js_Get opt ''readable'') \<longrightarrow>
     (\<not> HasInstance (js_Get opt ''input'') \<and> \<not> IsUndefined (js_Get opt ''input'') \<longrightarrow>
        ParseStdioOption h child_fd opt s = None) \<and>
     (IsUndefined (js_Get opt ''input'') \<longrightarrow>
        ParseStdioOption h child_fd opt s =
          AddStdioPipe child_fd True (BooleanValue (js_Get opt ''writable'')) (uv_buf_init NULL 0) s) \<and>
     (HasInstance (js_Get opt ''input'') \<longrightarrow>
        ParseStdioOption h child_fd opt s =
          AddStdioPipe child_fd True (BooleanValue (js_Get opt ''writable''))
            (uv_buf_init (Buffer_Data (js_Get opt ''input''))
               (to_uint (int (Buffer_Length (js_Get opt ''input''))))) s)"
proof (intro impI, elim conjE)
  assume t: "StrictEquals (js_Get opt ''type'') ''pipe''"
    and r: "BooleanValue (js_Get opt ''readable'')"
  from t have ni: "\<not> StrictEquals (js_Get opt ''type'') ''ignore''"
    by (cases "js_Get opt ''type''") auto
  have u: "IsUndefined (js_Get opt ''input'') \<Longrightarrow> \<not> HasInstance (js_Get opt ''input'')"
    by (cases "js_Get opt ''input''") auto
  show "(\<not> HasInstance (js_Get opt ''input'') \<and> \<not> IsUndefined (js_Get opt ''input'') \<longrightarrow>
        ParseStdioOption h child_fd opt s = None) \<and>
     (IsUndefined (js_Get opt ''input'') \<longrightarrow>
        ParseStdioOption h child_fd opt s =
          AddStdioPipe child_fd True (BooleanValue (js_Get opt ''writable'')) (uv_buf_init NULL 0) s) \<and>
     (HasInstance (js_Get opt ''input'') \<longrightarrow>
        ParseStdioOption h child_fd opt s =
          AddStdioPipe child_fd True (BooleanValue (js_Get opt ''writable''))
            (uv_buf_init (Buffer_Data (js_Get opt ''input''))
               (to_uint (int (Buffer_Length (js_Get opt ''input''))))) s)"
    using t r ni u
    by (auto simp: ParseStdioOption_def Let_def assert_def)
qed

text \<open>
  The cases at concrete entries: a string and null abort; undefined and a buffer are
  decoded and yield \<open>0\<close>.
\<close>

theorem ParseStdioOption_pipe_input_witness:
  "ParseStdioOption example_host 0 (pipe_option (JsString ''abc'')) (decode_state [] 1) = None \<and>
   ParseStdioOption example_host 0 (pipe_option JsNull) (decode_state [] 1) = None \<and>
   map_option fst (ParseStdioOption example_host 0 (pipe_option JsUndefined) (decode_state [] 1)) = Some 0 \<and>
   map_option fst (ParseStdioOption example_host 0 (pipe_option (JsBuffer ''abc'')) (decode_state [] 1)) = Some 0"
  using ParseStdioOption_pipe_input [of "pipe_option (JsString ''abc'')" example_host 0 "decode_state [] 1"]
    ParseStdioOption_pipe_input [of "pipe_option JsNull" example_host 0 "decode_state [] 1"]
    ParseStdioOption_pipe_input [of "pipe_option JsUndefined" example_host 0 "decode_state [] 1"]
    ParseStdioOption_pipe_input [of "pipe_option (JsBuffer ''abc'')" example_host 0 "decode_state [] 1"]
  by (simp add: pipe_option_def decode_state_def new_SyncProcessRunner_def AddStdioPipe_def
        new_SyncProcessStdioPipe_def StdioPipe_Initialize_def assert_def uv_pipe_def call_uv_def
        get_pipe_def set_pipe_def set_container_def uv_buf_init_def Let_def to_uint_def)

end
